theory Spec2Isabelle
  imports Main "HOL-Library.Product_Lexorder"
begin

section \<open>Calendar dates (lib/time.ts)\<close>

text \<open>
  A calendar date is a triple (year, month, day); the lexicographic order on triples is
  the chronological order. Luxon's \<open>DateTime.fromISO\<close> is modelled on the date-only form
  \<open>YYYY-MM-DD\<close>, the only form \<open>RangeSchema\<close> lets through to it; \<open>None\<close> stands for an
  invalid DateTime, whose comparisons are all false. The same parse models
  \<open>new Date(iso)\<close> on such strings (UTC midnight of that date). The venue time zone does
  not enter: both ends of a range are midnights of the same zone, and \<open>plus({days: 1})\<close>
  is calendar arithmetic.
\<close>

type_synonym date = "nat \<times> nat \<times> nat"

definition isLeapYear :: "nat \<Rightarrow> bool" where
  "isLeapYear y = (y mod 4 = 0 \<and> (y mod 100 \<noteq> 0 \<or> y mod 400 = 0))"

definition daysInMonth :: "nat \<Rightarrow> nat \<Rightarrow> nat" where
  "daysInMonth y m =
     (if m = 2 then (if isLeapYear y then 29 else 28)
      else if m = 4 \<or> m = 6 \<or> m = 9 \<or> m = 11 then 30 else 31)"

definition validDate :: "date \<Rightarrow> bool" where
  "validDate dt = (case dt of (y, m, d) \<Rightarrow> 1 \<le> m \<and> m \<le> 12 \<and> 1 \<le> d \<and> d \<le> daysInMonth y m)"

definition plusDay :: "date \<Rightarrow> date" where
  "plusDay dt = (case dt of (y, m, d) \<Rightarrow>
     if d < daysInMonth y m then (y, m, d + 1)
     else if m < 12 then (y, m + 1, 1)
     else (y + 1, 1, 1))"

definition digitVal :: "char \<Rightarrow> nat option" where
  "digitVal c = (let n = of_char c in if (48::nat) \<le> n \<and> n \<le> 57 then Some (n - 48) else None)"

fun parseDigits :: "nat \<Rightarrow> string \<Rightarrow> nat option" where
  "parseDigits acc [] = Some acc"
| "parseDigits acc (c # cs) =
     (case digitVal c of None \<Rightarrow> None | Some v \<Rightarrow> parseDigits (acc * 10 + v) cs)"

definition isoDateShape :: "string \<Rightarrow> bool" where
  "isoDateShape s = (length s = 10 \<and> s ! 4 = CHR ''-'' \<and> s ! 7 = CHR ''-''
      \<and> parseDigits 0 (take 4 s) \<noteq> None \<and> parseDigits 0 (take 2 (drop 5 s)) \<noteq> None
      \<and> parseDigits 0 (drop 8 s) \<noteq> None)"

definition fromISO :: "string \<Rightarrow> date option" where
  "fromISO s =
     (if length s = 10 \<and> s ! 4 = CHR ''-'' \<and> s ! 7 = CHR ''-'' then
        (case (parseDigits 0 (take 4 s), parseDigits 0 (take 2 (drop 5 s)), parseDigits 0 (drop 8 s)) of
           (Some y, Some m, Some d) \<Rightarrow> if validDate (y, m, d) then Some (y, m, d) else None
         | _ \<Rightarrow> None)
      else None)"

definition digitChar :: "nat \<Rightarrow> char" where
  "digitChar n = char_of (48 + n mod 10)"

definition pad2 :: "nat \<Rightarrow> string" where
  "pad2 n = [digitChar (n div 10), digitChar n]"

definition pad4 :: "nat \<Rightarrow> string" where
  "pad4 n = [digitChar (n div 1000), digitChar (n div 100), digitChar (n div 10), digitChar n]"

definition pad6 :: "nat \<Rightarrow> string" where
  "pad6 n = [digitChar (n div 100000), digitChar (n div 10000)] @ pad4 n"

definition toISODate :: "date \<Rightarrow> string" where
  "toISODate dt = (case dt of (y, m, d) \<Rightarrow>
     (if y \<le> 9999 then pad4 y else CHR ''+'' # pad6 y) @ ''-'' @ pad2 m @ ''-'' @ pad2 d)"

function enumerateLoop :: "string list \<Rightarrow> date \<Rightarrow> date \<Rightarrow> string list" where
  "enumerateLoop dates cur end =
     (if cur < end then enumerateLoop (dates @ [toISODate cur]) (plusDay cur) end else dates)"
  by pat_completeness auto
termination
  by (relation "measures [\<lambda>(ds, (y, m, d), (ey, em, ed)). ey + 1 - y,
                          \<lambda>(ds, (y, m, d), (ey, em, ed)). 13 - m,
                          \<lambda>(ds, (y, m, d), (ey, em, ed)). 32 - d]")
     (auto simp: plusDay_def daysInMonth_def split: if_splits)

definition enumerateDates :: "string \<Rightarrow> string \<Rightarrow> string list" where
  "enumerateDates startInclusiveISO endExclusiveISO =
     (case (fromISO startInclusiveISO, fromISO endExclusiveISO) of
        (Some cur, Some end) \<Rightarrow> enumerateLoop [] cur end
      | _ \<Rightarrow> [])"

section \<open>Pricing and deposit (src/lib/pricing.ts)\<close>

text \<open>
  Amounts are integer minor currency units (cents); JavaScript numbers are modelled as
  unbounded integers. \<open>Math.round(x / 100)\<close> on an integer \<open>x\<close> rounds half up, that is
  \<open>\<lfloor>x / 100 + 1 / 2\<rfloor> = (x + 50) div 100\<close>.
\<close>

datatype depositType = FIXED | PERCENT

definition mathRoundDiv100 :: "int \<Rightarrow> int" where
  "mathRoundDiv100 x = (x + 50) div 100"

definition computeDeposit :: "int \<Rightarrow> depositType \<Rightarrow> int \<Rightarrow> int" where
  "computeDeposit tot dt val =
     (if dt = FIXED then min val tot
      else (let pct = mathRoundDiv100 (tot * val) in min pct tot))"

text \<open>\<open>quoteRange\<close>: days, price per day and total.\<close>

definition quoteRange :: "int \<Rightarrow> string \<Rightarrow> string \<Rightarrow> nat \<times> int \<times> int" where
  "quoteRange dayPriceCents startDate endDateExclusive =
     (let days = length (enumerateDates startDate endDateExclusive);
          perDay = dayPriceCents;
          tot = int days * perDay
      in (days, perDay, tot))"

section \<open>Storage model\<close>

text \<open>
  The relational tables the engine reads and writes, as lists of rows in insertion order.
  Columns no handler below branches on (currency, audit log, notification rows) are
  left out. Times are epoch milliseconds.
\<close>

datatype bookingStatus = HELD | CONFIRMED | CANCELLED | REFUNDED

datatype dayStatus = DayHELD | DayBOOKED

datatype paymentType = DEPOSIT | REMAINDER

datatype paymentStatus = pending | succeeded | failed

record policy =
  depositType :: depositType
  depositValue :: int
  remainderDaysBeforeStart :: int
  cancelCutoffHours :: int

record customer =
  customerId :: string
  email :: string
  customerName :: "string option"
  phone :: "string option"

record booking =
  bid :: string
  bookingCustomerId :: string
  startDate :: date
  endDateExclusive :: date
  status :: bookingStatus
  depositAmount :: int
  totalAmount :: int
  pricingSnapshot :: "nat \<times> int \<times> int"
  stripeCustomerId :: "string option"

record bookedDay =
  bookingId :: string
  day :: date
  dstatus :: dayStatus
  holdExpiresAt :: "int option"

record payment =
  payBookingId :: string
  stripePaymentIntentId :: string
  amount :: int
  ptype :: paymentType
  pstatus :: paymentStatus

record refund =
  refundBookingId :: string
  stripeRefundId :: string
  refundAmount :: int
  reason :: string

datatype jobName = HoldExpire | ReminderEmail | RemainderCharge | EmailSend

record job =
  jobName :: jobName
  jobBookingId :: string
  template :: "string option"
  delayMs :: int
  jobId :: "string option"

record state =
  policyRow :: "policy option"
  customers :: "customer list"
  bookings :: "booking list"
  bookedDays :: "bookedDay list"
  blackouts :: "date list"
  payments :: "payment list"
  refunds :: "refund list"
  jobs :: "job list"

text \<open>
  Process environment, with the defaults of the source already applied
  (\<open>HOLD_TTL_MINUTES || 15\<close> and so on). \<open>zoneMillis start n h\<close> is Luxon's
  \<open>DateTime.fromJSDate(start, {zone}).minus({days: n}).startOf('day').set({hour: h}).toMillis()\<close>
  and \<open>cutoffMillis start n\<close> its \<open>startOf('day').minus({hours: n}).toMillis()\<close>; the
  time-zone arithmetic is kept abstract.
\<close>

record env =
  holdTtlMinutes :: int
  dayPriceCents :: int
  depositCents :: int
  remainderDays :: int
  cancelCutoffHoursEnv :: int
  stripeSecretKey :: "string option"
  stripeWebhookSecret :: "string option"
  zoneMillis :: "date \<Rightarrow> int \<Rightarrow> nat \<Rightarrow> int"
  cutoffMillis :: "date \<Rightarrow> int \<Rightarrow> int"

subsection \<open>Identifiers\<close>

text \<open>
  Row ids are generated by the storage layer (\<open>cuid()\<close>), whose contract is that the id
  is not yet in the table. The stand-in below returns a run of \<open>c\<close> longer than every id
  present.
\<close>

definition freshId :: "string list \<Rightarrow> string" where
  "freshId ids = replicate (Suc (foldr (\<lambda>x m. max (length x) m) ids 0)) CHR ''c''"

fun showNat :: "nat \<Rightarrow> string" where
  "showNat n = (if n < 10 then [digitChar n] else showNat (n div 10) @ [digitChar n])"

declare showNat.simps [simp del]

subsection \<open>Policy (lib/policy.ts)\<close>

text \<open>
  \<open>getOrCreateDefaultPolicy\<close> goes through the global client: inside a transaction
  callback its write is not part of that transaction. It returns the policy and the
  policy table after the call.
\<close>

definition getOrCreateDefaultPolicy :: "env \<Rightarrow> policy option \<Rightarrow> policy \<times> policy option" where
  "getOrCreateDefaultPolicy e row =
     (case row of
        Some existing \<Rightarrow> (existing, Some existing)
      | None \<Rightarrow>
          (let created = \<lparr>depositType = FIXED, depositValue = depositCents e,
                           remainderDaysBeforeStart = remainderDays e,
                           cancelCutoffHours = cancelCutoffHoursEnv e\<rparr>
           in (created, Some created)))"

subsection \<open>Job queue (lib/queue.ts)\<close>

text \<open>
  \<open>enqueue\<close> adds a job to the BullMQ queue. BullMQ ignores an \<open>add\<close> whose \<open>jobId\<close> is the
  id of a job still in the queue; \<open>jobs\<close> holds the jobs not yet consumed.
\<close>

definition enqueue :: "job \<Rightarrow> job list \<Rightarrow> job list" where
  "enqueue j q = (if jobId j \<noteq> None \<and> jobId j \<in> set (map jobId q) then q else q @ [j])"

section \<open>Hold creation (app/api/holds/route.ts)\<close>

record holdRequest =
  reqStartDate :: string
  reqEndDateExclusive :: string
  reqEmail :: string
  reqEmailValid :: bool
  reqName :: "string option"
  reqPhone :: "string option"

text \<open>
  The rejections of the route: 400 for a malformed body or an empty range, 409 for
  everything thrown inside the transaction. \<open>BlackoutConflict\<close> is the error
  \<open>Dates include blackouts\<close>, \<open>RangeUnavailable\<close> is \<open>Some days are no longer available\<close>,
  \<open>StorageError\<close> an error raised by the storage client itself.
\<close>

datatype holdError = InvalidBody | EmptyRange | BlackoutConflict | RangeUnavailable | StorageError

definition holdHttpStatus :: "holdError + 'a \<Rightarrow> nat" where
  "holdHttpStatus r =
     (case r of Inl InvalidBody \<Rightarrow> 400 | Inl EmptyRange \<Rightarrow> 400 | Inl _ \<Rightarrow> 409 | Inr _ \<Rightarrow> 200)"

definition expiredHold :: "int \<Rightarrow> bookedDay \<Rightarrow> bool" where
  "expiredHold now d =
     (dstatus d = DayHELD \<and> (case holdExpiresAt d of Some t \<Rightarrow> t < now | None \<Rightarrow> False))"

definition clearExpiredHolds :: "int \<Rightarrow> bookedDay list \<Rightarrow> bookedDay list" where
  "clearExpiredHolds now tbl = filter (\<lambda>d. \<not> expiredHold now d) tbl"

text \<open>
  \<open>createMany\<close> with \<open>skipDuplicates\<close> under the uniqueness constraint on \<open>day\<close>: a row whose
  day is already in the table (or was inserted earlier by the same call) is skipped; the
  result is the number of rows inserted and the table.
\<close>

fun createManySkipDuplicates :: "bookedDay list \<Rightarrow> bookedDay list \<Rightarrow> nat \<times> bookedDay list" where
  "createManySkipDuplicates [] tbl = (0, tbl)"
| "createManySkipDuplicates (r # rs) tbl =
     (if day r \<in> set (map day tbl) then createManySkipDuplicates rs tbl
      else (case createManySkipDuplicates rs (tbl @ [r]) of (n, t) \<Rightarrow> (Suc n, t)))"

text \<open>
  \<open>customer.upsert\<close> keyed by the email (lines 73 to 77). A name or phone the request
  leaves out is \<open>undefined\<close> in the update, and the storage layer leaves such a field of
  an existing row as it is.
\<close>

definition upsertCustomer :: "holdRequest \<Rightarrow> customer list \<Rightarrow> customer \<times> customer list" where
  "upsertCustomer req tbl =
     (case find (\<lambda>c. email c = reqEmail req) tbl of
        Some c \<Rightarrow>
          (let c' = c\<lparr>customerName := (case reqName req of None \<Rightarrow> customerName c | Some n \<Rightarrow> Some n),
                      phone := (case reqPhone req of None \<Rightarrow> phone c | Some n \<Rightarrow> Some n)\<rparr>
           in (c', map (\<lambda>x. if email x = reqEmail req then c' else x) tbl))
      | None \<Rightarrow>
          (let c' = \<lparr>customerId = freshId (map customerId tbl), email = reqEmail req,
                      customerName = reqName req, phone = reqPhone req\<rparr>
           in (c', tbl @ [c'])))"

definition createInput :: "string \<Rightarrow> int \<Rightarrow> date list \<Rightarrow> bookedDay list" where
  "createInput b expiresAt ds =
     map (\<lambda>d. \<lparr>bookingId = b, day = d, dstatus = DayHELD, holdExpiresAt = Some expiresAt\<rparr>) ds"

text \<open>
  The body of the transaction. The first component of the result is the policy table
  after the callback (written outside the transaction); the second is either the error
  thrown, which rolls the transaction back, or the booking id and the tables to commit.
\<close>

definition holdTransaction ::
  "env \<Rightarrow> int \<Rightarrow> holdRequest \<Rightarrow> string list \<Rightarrow> int \<Rightarrow> state
     \<Rightarrow> policy option \<times> (holdError + string \<times> state)" where
  "holdTransaction e now req daysList expiresAt s =
     (let s1 = s\<lparr>bookedDays := clearExpiredHolds now (bookedDays s)\<rparr> in
      case (fromISO (reqStartDate req), fromISO (reqEndDateExclusive req)) of
        (Some sd, Some ed) \<Rightarrow>
          (let blackoutCount = length (filter (\<lambda>b. sd \<le> b \<and> b < ed) (blackouts s1)) in
           if blackoutCount > 0 then (policyRow s, Inl BlackoutConflict)
           else
             (case quoteRange (dayPriceCents e) (reqStartDate req) (reqEndDateExclusive req) of
                (days, perDay, tot) \<Rightarrow>
             (case getOrCreateDefaultPolicy e (policyRow s) of
                (pol, polTable) \<Rightarrow>
             (let deposit = computeDeposit tot (depositType pol) (depositValue pol) in
              case upsertCustomer req (customers s1) of
                (cust, custTable) \<Rightarrow>
             (let newBooking =
                    \<lparr>bid = freshId (map bid (bookings s1)), bookingCustomerId = customerId cust,
                     startDate = sd, endDateExclusive = ed, status = HELD,
                     depositAmount = deposit, totalAmount = tot,
                     pricingSnapshot = (days, perDay, tot), stripeCustomerId = None\<rparr>;
                  s2 = s1\<lparr>customers := custTable, bookings := bookings s1 @ [newBooking]\<rparr>
              in case those (map fromISO daysList) of
                   None \<Rightarrow> (polTable, Inl StorageError)
                 | Some ds \<Rightarrow>
                     (case createManySkipDuplicates (createInput (bid newBooking) expiresAt ds)
                             (bookedDays s2) of
                        (created, tbl) \<Rightarrow>
                          if created \<noteq> length daysList then (polTable, Inl RangeUnavailable)
                          else (polTable, Inr (bid newBooking, s2\<lparr>bookedDays := tbl\<rparr>))))))))
      | _ \<Rightarrow> (policyRow s, Inl StorageError))"

definition minutesToMs :: "int \<Rightarrow> int" where
  "minutesToMs ttlMinutes = ttlMinutes * 60 * 1000"

definition holdExpireJob :: "int \<Rightarrow> string \<Rightarrow> job" where
  "holdExpireJob ttlMinutes b =
     \<lparr>jobName = HoldExpire, jobBookingId = b, template = None,
      delayMs = minutesToMs ttlMinutes, jobId = Some (''hold-expire:'' @ b)\<rparr>"

text \<open>
  The route: validation, the transaction (committed on success, rolled back on a throw,
  the policy table apart), then the \<open>hold-expire\<close> job. The result is the response and
  the state left behind.
\<close>

definition createHold ::
  "env \<Rightarrow> int \<Rightarrow> holdRequest \<Rightarrow> state \<Rightarrow> (holdError + string \<times> int) \<times> state" where
  "createHold e now req s =
     (if \<not> (isoDateShape (reqStartDate req) \<and> isoDateShape (reqEndDateExclusive req)
             \<and> reqEmailValid req)
      then (Inl InvalidBody, s)
      else
        (let daysList = enumerateDates (reqStartDate req) (reqEndDateExclusive req) in
         if daysList = [] then (Inl EmptyRange, s)
         else
           (let ttlMinutes = holdTtlMinutes e;
                expiresAt = now + minutesToMs ttlMinutes
            in case holdTransaction e now req daysList expiresAt s of
                 (polTable, Inl err) \<Rightarrow> (Inl err, s\<lparr>policyRow := polTable\<rparr>)
               | (polTable, Inr (b, s')) \<Rightarrow>
                   (Inr (b, expiresAt),
                    s'\<lparr>policyRow := polTable,
                       jobs := enqueue (holdExpireJob ttlMinutes b) (jobs s')\<rparr>))))"

section \<open>Stripe webhook (app/api/stripe/webhook/route.ts)\<close>

record paymentIntent =
  piId :: string
  piAmount :: int
  piBookingId :: "string option"
  piType :: "paymentType option"

text \<open>
  The events the handler distinguishes: \<open>checkout.session.completed\<close> with the booking id,
  the payment-intent id and the Stripe customer of the session,
  \<open>payment_intent.succeeded\<close>, \<open>payment_intent.payment_failed\<close>, and anything else.
\<close>

datatype stripeEvent =
    CheckoutSessionCompleted string string "string option"
  | PaymentIntentSucceeded paymentIntent
  | PaymentIntentPaymentFailed paymentIntent
  | OtherEvent

text \<open>
  \<open>payment.upsert\<close> keyed by the unique \<open>stripePaymentIntentId\<close>: an existing row gets the
  new status, otherwise the row is created. The create refers to its booking; with no
  such booking the storage layer raises (\<open>None\<close>).
\<close>

definition upsertPayment ::
  "string \<Rightarrow> paymentStatus \<Rightarrow> payment \<Rightarrow> booking list \<Rightarrow> payment list \<Rightarrow> payment list option" where
  "upsertPayment key st row bks tbl =
     (if key \<in> set (map stripePaymentIntentId tbl)
      then Some (map (\<lambda>p. if stripePaymentIntentId p = key then p\<lparr>pstatus := st\<rparr> else p) tbl)
      else if payBookingId row \<in> set (map bid bks) then Some (tbl @ [row])
      else None)"

text \<open>The transaction of \<open>checkout.session.completed\<close> (lines 72 to 94).\<close>

definition confirmTransaction :: "string \<Rightarrow> string \<Rightarrow> string option \<Rightarrow> state \<Rightarrow> state" where
  "confirmTransaction b paymentIntentId customerRef s =
     (case find (\<lambda>x. bid x = b) (bookings s) of
        None \<Rightarrow> s
      | Some bk \<Rightarrow>
          (case upsertPayment paymentIntentId succeeded
                  \<lparr>payBookingId = b, stripePaymentIntentId = paymentIntentId,
                   amount = depositAmount bk, ptype = DEPOSIT, pstatus = succeeded\<rparr>
                  (bookings s) (payments s) of
             None \<Rightarrow> s
           | Some payTable \<Rightarrow>
               (let s1 = s\<lparr>payments := payTable\<rparr> in
                if status bk = CONFIRMED then s1
                else s1\<lparr>bookedDays :=
                          map (\<lambda>d. if bookingId d = b \<and> dstatus d = DayHELD
                                    then d\<lparr>dstatus := DayBOOKED, holdExpiresAt := None\<rparr> else d)
                              (bookedDays s1),
                        bookings :=
                          map (\<lambda>x. if bid x = b
                                    then x\<lparr>status := CONFIRMED,
                                           stripeCustomerId :=
                                             (case customerRef of Some c \<Rightarrow> Some c
                                              | None \<Rightarrow> stripeCustomerId x)\<rparr>
                                    else x)
                              (bookings s1)\<rparr>)))"

definition remainderChargeJob :: "string \<Rightarrow> int \<Rightarrow> job" where
  "remainderChargeJob b delay =
     \<lparr>jobName = RemainderCharge, jobBookingId = b, template = None,
      delayMs = delay, jobId = Some (''remainder-charge:'' @ b)\<rparr>"

definition reminderJob :: "string \<Rightarrow> nat \<Rightarrow> int \<Rightarrow> job" where
  "reminderJob b d delay =
     \<lparr>jobName = ReminderEmail, jobBookingId = b,
      template = Some (''reminder-'' @ showNat d @ ''d''),
      delayMs = delay, jobId = Some (''reminder-'' @ showNat d @ ''d:'' @ b)\<rparr>"

definition reminderOffsets :: "nat list" where
  "reminderOffsets = [14, 7, 2, 1]"

text \<open>Scheduling after the transaction (lines 95 to 114).\<close>

definition scheduleAfterConfirm :: "env \<Rightarrow> int \<Rightarrow> string \<Rightarrow> state \<Rightarrow> state" where
  "scheduleAfterConfirm e now b s =
     (case getOrCreateDefaultPolicy e (policyRow s) of
        (pol, polTable) \<Rightarrow>
          (let s1 = s\<lparr>policyRow := polTable\<rparr> in
           case find (\<lambda>x. bid x = b) (bookings s) of
             None \<Rightarrow> s1
           | Some bk \<Rightarrow>
               (let chargeAt = zoneMillis e (startDate bk) (remainderDaysBeforeStart pol) 10;
                    q1 = enqueue (remainderChargeJob b (max (chargeAt - now) 0)) (jobs s1);
                    q2 = foldl (\<lambda>q d. enqueue (reminderJob b d
                                   (max (zoneMillis e (startDate bk) (int d) 9 - now) 0)) q)
                           q1 reminderOffsets
                in s1\<lparr>jobs := q2\<rparr>)))"

definition confirm :: "env \<Rightarrow> int \<Rightarrow> string \<Rightarrow> string \<Rightarrow> string option \<Rightarrow> state \<Rightarrow> state" where
  "confirm e now b paymentIntentId customerRef s =
     scheduleAfterConfirm e now b (confirmTransaction b paymentIntentId customerRef s)"

definition paymentRow :: "string \<Rightarrow> paymentIntent \<Rightarrow> paymentStatus \<Rightarrow> payment" where
  "paymentRow b pi st =
     \<lparr>payBookingId = b, stripePaymentIntentId = piId pi, amount = piAmount pi,
      ptype = (case piType pi of Some t \<Rightarrow> t | None \<Rightarrow> REMAINDER), pstatus = st\<rparr>"

definition paymentSucceeded :: "paymentIntent \<Rightarrow> state \<Rightarrow> state" where
  "paymentSucceeded pi s =
     (case piBookingId pi of
        None \<Rightarrow> s
      | Some b \<Rightarrow>
          (case upsertPayment (piId pi) succeeded (paymentRow b pi succeeded)
                  (bookings s) (payments s) of
             None \<Rightarrow> s
           | Some payTable \<Rightarrow> s\<lparr>payments := payTable\<rparr>))"

definition failedRemainderCount :: "string \<Rightarrow> payment list \<Rightarrow> nat" where
  "failedRemainderCount b tbl =
     length (filter (\<lambda>p. payBookingId p = b \<and> ptype p = REMAINDER \<and> pstatus p = failed) tbl)"

definition retryJob :: "string \<Rightarrow> nat \<Rightarrow> job" where
  "retryJob b failures =
     \<lparr>jobName = RemainderCharge, jobBookingId = b, template = None,
      delayMs = (if failures = 1 then 6 * 60 * 60 * 1000 else 24 * 60 * 60 * 1000),
      jobId = Some (''remainder-charge-retry'' @ showNat failures @ '':'' @ b)\<rparr>"

definition paymentFailed :: "paymentIntent \<Rightarrow> state \<Rightarrow> state" where
  "paymentFailed pi s =
     (case piBookingId pi of
        None \<Rightarrow> s
      | Some b \<Rightarrow>
          (case upsertPayment (piId pi) failed (paymentRow b pi failed)
                  (bookings s) (payments s) of
             None \<Rightarrow> s
           | Some payTable \<Rightarrow>
               (let s1 = s\<lparr>payments := payTable\<rparr>;
                    failures = failedRemainderCount b (payments s1)
                in if failures < 3 then s1\<lparr>jobs := enqueue (retryJob b failures) (jobs s1)\<rparr>
                   else s1)))"

definition handleEvent :: "env \<Rightarrow> int \<Rightarrow> stripeEvent \<Rightarrow> state \<Rightarrow> state" where
  "handleEvent e now ev s =
     (case ev of
        CheckoutSessionCompleted b paymentIntentId customerRef \<Rightarrow>
          confirm e now b paymentIntentId customerRef s
      | PaymentIntentSucceeded pi \<Rightarrow> paymentSucceeded pi s
      | PaymentIntentPaymentFailed pi \<Rightarrow> paymentFailed pi s
      | OtherEvent \<Rightarrow> s)"

text \<open>
  The responses of the webhook route. \<open>constructEvent\<close> is Stripe's signature check on
  the raw body; \<open>None\<close> stands for the exception it throws on a bad signature. An empty
  header or secret is falsy in the source and counts as missing.
\<close>

datatype webhookResponse = Received | WebhookError nat string

definition webhookPOST ::
  "env \<Rightarrow> (string \<Rightarrow> string \<Rightarrow> string \<Rightarrow> stripeEvent option) \<Rightarrow> int
     \<Rightarrow> string option \<Rightarrow> string \<Rightarrow> state \<Rightarrow> webhookResponse \<times> state" where
  "webhookPOST e constructEvent now sig body s =
     (case stripeSecretKey e of
        None \<Rightarrow> (WebhookError 500 ''STRIPE_SECRET_KEY not set'', s)
      | Some key \<Rightarrow>
          if key = [] then (WebhookError 500 ''STRIPE_SECRET_KEY not set'', s)
          else
            (case sig of
               None \<Rightarrow> (WebhookError 400 ''Missing signature'', s)
             | Some sg \<Rightarrow>
                 if sg = [] then (WebhookError 400 ''Missing signature'', s)
                 else
                   (case stripeWebhookSecret e of
                      None \<Rightarrow> (WebhookError 500 ''Missing webhook secret'', s)
                    | Some webhookSecret \<Rightarrow>
                        if webhookSecret = [] then (WebhookError 500 ''Missing webhook secret'', s)
                        else
                          (case constructEvent body sg webhookSecret of
                             None \<Rightarrow> (WebhookError 400 ''Invalid signature'', s)
                           | Some ev \<Rightarrow> (Received, handleEvent e now ev s)))))"

section \<open>Hold expiry worker (workers/index.ts)\<close>

definition handleHoldExpire :: "int \<Rightarrow> string \<Rightarrow> state \<Rightarrow> state" where
  "handleHoldExpire now b s =
     (case find (\<lambda>x. bid x = b) (bookings s) of
        None \<Rightarrow> s
      | Some bk \<Rightarrow>
          if status bk \<noteq> HELD then s
          else
            (let owned = filter (\<lambda>d. bookingId d = bid bk) (bookedDays s);
                 anyActiveHolds =
                   list_ex (\<lambda>d. dstatus d = DayHELD
                                \<and> (case holdExpiresAt d of Some t \<Rightarrow> t > now | None \<Rightarrow> False)) owned
             in if anyActiveHolds then s
                else s\<lparr>bookedDays :=
                         filter (\<lambda>d. \<not> (bookingId d = bid bk \<and> dstatus d = DayHELD)) (bookedDays s),
                       bookings :=
                         map (\<lambda>x. if bid x = bid bk then x\<lparr>status := CANCELLED\<rparr> else x)
                             (bookings s)\<rparr>))"

section \<open>Availability (app/api/availability/route.ts)\<close>

definition monthBounds :: "nat \<Rightarrow> nat \<Rightarrow> string \<times> string" where
  "monthBounds year month1to12 =
     (let start = (year, month1to12, 1);
          end = (if month1to12 = 12 then (year + 1, 1, 1) else (year, month1to12 + 1, 1))
      in (toISODate start, toISODate end))"

text \<open>\<open>d.day.toISOString().slice(0, 10)\<close> on a date-only value.\<close>

definition isoDay :: "date \<Rightarrow> string" where
  "isoDay d = take 10 (toISODate d)"

text \<open>\<open>Set.add\<close> on a set kept in insertion order, as \<open>Array.from\<close> reads it.\<close>

definition setAdd :: "'a list \<Rightarrow> 'a \<Rightarrow> 'a list" where
  "setAdd acc x = (if x \<in> set acc then acc else acc @ [x])"

definition activeHold :: "int \<Rightarrow> bookedDay \<Rightarrow> bool" where
  "activeHold now d =
     (dstatus d = DayHELD \<and> (case holdExpiresAt d of Some t \<Rightarrow> t > now | None \<Rightarrow> False))"

datatype availabilityResponse =
    BadRequest
  | ServerError
  | Unavailable "string list"
  | RangeFree
  | RangeConflicts "string list"

definition availabilityGET :: "int \<Rightarrow> int \<Rightarrow> int \<Rightarrow> state \<Rightarrow> availabilityResponse \<times> state" where
  "availabilityGET year month now s =
     (if \<not> (1970 \<le> year \<and> year \<le> 2100 \<and> 1 \<le> month \<and> month \<le> 12) then (BadRequest, s)
      else
        (case monthBounds (nat year) (nat month) of
           (startISO, endISO) \<Rightarrow>
             (case (fromISO startISO, fromISO endISO) of
                (Some a, Some b) \<Rightarrow>
                  (let days = filter (\<lambda>d. a \<le> day d \<and> day d < b) (bookedDays s);
                       blackoutRows = filter (\<lambda>x. a \<le> x \<and> x < b) (blackouts s);
                       taken1 = foldl (\<lambda>taken d.
                                   if dstatus d = DayBOOKED \<or> activeHold now d
                                   then setAdd taken (isoDay (day d)) else taken) [] days;
                       taken2 = foldl (\<lambda>taken x. setAdd taken (isoDay x)) taken1 blackoutRows
                   in (Unavailable taken2, s))
              | _ \<Rightarrow> (ServerError, s))))"

definition availabilityPOST :: "string \<Rightarrow> string \<Rightarrow> int \<Rightarrow> state \<Rightarrow> availabilityResponse \<times> state" where
  "availabilityPOST startISO endISO now s =
     (if \<not> (isoDateShape startISO \<and> isoDateShape endISO) then (BadRequest, s)
      else
        (case (fromISO startISO, fromISO endISO) of
           (Some a, Some b) \<Rightarrow>
             (let conflicts = filter (\<lambda>d. (a \<le> day d \<and> day d < b)
                                  \<and> (dstatus d = DayBOOKED \<or> activeHold now d)) (bookedDays s);
                  blackoutRows = filter (\<lambda>x. a \<le> x \<and> x < b) (blackouts s)
              in if length conflicts > 0 \<or> length blackoutRows > 0
                 then (RangeConflicts (map isoDay (map day conflicts @ blackoutRows)), s)
                 else (RangeFree, s))
         | _ \<Rightarrow> (ServerError, s)))"

section \<open>Cancellation (POST /api/bookings/[bookingId]/cancel) and the manage page\<close>

definition paidTotal :: "payment list \<Rightarrow> int" where
  "paidTotal pays = foldl (\<lambda>acc p. acc + amount p) 0 (filter (\<lambda>p. pstatus p = succeeded) pays)"

definition refundable :: "booking \<Rightarrow> payment list \<Rightarrow> int" where
  "refundable bk pays = max 0 (paidTotal pays - depositAmount bk)"

text \<open>The figures of the manage page (\<open>ManageBookingPage\<close>).\<close>

definition remainderPaid :: "booking \<Rightarrow> payment list \<Rightarrow> int" where
  "remainderPaid bk pays = max (paidTotal pays - depositAmount bk) 0"

definition remainderOutstanding :: "booking \<Rightarrow> payment list \<Rightarrow> int" where
  "remainderOutstanding bk pays =
     (let remainderDue = max (totalAmount bk - depositAmount bk) 0
      in max (remainderDue - remainderPaid bk pays) 0)"

text \<open>
  The refund loop over the succeeded REMAINDER payments. \<open>stripeRefund\<close> is
  \<open>stripe.refunds.create\<close>, returning the refund id, or \<open>None\<close> when it throws. The result
  says whether the loop ran to its end, the amount refunded and the refund table.
\<close>

fun refundLoop ::
  "(string \<Rightarrow> int \<Rightarrow> string option) \<Rightarrow> string \<Rightarrow> int \<Rightarrow> payment list \<Rightarrow> int \<Rightarrow> refund list
     \<Rightarrow> bool \<times> int \<times> refund list" where
  "refundLoop stripeRefund b limit [] refunded tbl = (True, refunded, tbl)"
| "refundLoop stripeRefund b limit (pay # rest) refunded tbl =
     (if refunded \<ge> limit then (True, refunded, tbl)
      else
        (let toRefund = min (limit - refunded) (amount pay) in
         case stripeRefund (stripePaymentIntentId pay) toRefund of
           None \<Rightarrow> (False, refunded, tbl)
         | Some r \<Rightarrow>
             refundLoop stripeRefund b limit rest (refunded + toRefund)
               (tbl @ [\<lparr>refundBookingId = b, stripeRefundId = r, refundAmount = toRefund,
                        reason = ''requested_by_customer''\<rparr>])))"

datatype cancelError = NotFound | NotConfirmed | CancellationWindowClosed | StripeFailure

definition cancelBooking ::
  "env \<Rightarrow> (string \<Rightarrow> int \<Rightarrow> string option) \<Rightarrow> int \<Rightarrow> string \<Rightarrow> state
     \<Rightarrow> (cancelError + int) \<times> state" where
  "cancelBooking e stripeRefund now b s =
     (case find (\<lambda>x. bid x = b) (bookings s) of
        None \<Rightarrow> (Inl NotFound, s)
      | Some bk \<Rightarrow>
          if status bk \<noteq> CONFIRMED then (Inl NotConfirmed, s)
          else
            (case getOrCreateDefaultPolicy e (policyRow s) of
               (pol, polTable) \<Rightarrow>
                 (let s1 = s\<lparr>policyRow := polTable\<rparr> in
                  if now > cutoffMillis e (startDate bk) (cancelCutoffHours pol)
                  then (Inl CancellationWindowClosed, s1)
                  else
                    (let pays = filter (\<lambda>p. payBookingId p = bid bk) (payments s1);
                         limit = refundable bk pays
                     in if stripeSecretKey e = None \<or> stripeSecretKey e = Some []
                        then (Inl StripeFailure, s1)
                        else
                          (case (if limit > 0
                                 then refundLoop stripeRefund (bid bk) limit
                                        (filter (\<lambda>p. ptype p = REMAINDER \<and> pstatus p = succeeded) pays)
                                        0 (refunds s1)
                                 else (True, 0, refunds s1)) of
                             (False, refunded, tbl) \<Rightarrow> (Inl StripeFailure, s1\<lparr>refunds := tbl\<rparr>)
                           | (True, refunded, tbl) \<Rightarrow>
                               (Inr refunded,
                                s1\<lparr>refunds := tbl,
                                   bookedDays :=
                                     filter (\<lambda>d. bookingId d \<noteq> bid bk) (bookedDays s1),
                                   bookings :=
                                     map (\<lambda>x. if bid x = bid bk then x\<lparr>status := CANCELLED\<rparr> else x)
                                         (bookings s1)\<rparr>))))))"

section \<open>Specification-level notions\<close>

text \<open>The dates of a half-open range, one by one; the loop of \<open>enumerateDates\<close> without the printing.\<close>

function datesLoop :: "date \<Rightarrow> date \<Rightarrow> date list" where
  "datesLoop cur end = (if cur < end then cur # datesLoop (plusDay cur) end else [])"
  by pat_completeness auto
termination
  by (relation "measures [\<lambda>((y, m, d), (ey, em, ed)). ey + 1 - y,
                          \<lambda>((y, m, d), (ey, em, ed)). 13 - m,
                          \<lambda>((y, m, d), (ey, em, ed)). 32 - d]")
     (auto simp: plusDay_def daysInMonth_def split: if_splits)

text \<open>The mutual-exclusion invariant: no two rows of the day table share a date.\<close>

definition uniqueDays :: "state \<Rightarrow> bool" where
  "uniqueDays s = distinct (map day (bookedDays s))"

text \<open>A day that has been converted to BOOKED carries no hold expiry.\<close>

definition bookedDaysHaveNoExpiry :: "state \<Rightarrow> bool" where
  "bookedDaysHaveNoExpiry s = list_all (\<lambda>d. dstatus d = DayBOOKED \<longrightarrow> holdExpiresAt d = None) (bookedDays s)"

text \<open>Once any day has been reserved, the policy row exists: every hold creates it first.\<close>

definition policyPresent :: "state \<Rightarrow> bool" where
  "policyPresent s = (bookedDays s \<noteq> [] \<longrightarrow> policyRow s \<noteq> None)"

section \<open>Example data\<close>

definition emptyState :: state where
  "emptyState = \<lparr>policyRow = None, customers = [], bookings = [], bookedDays = [], blackouts = [],
                  payments = [], refunds = [], jobs = []\<rparr>"

definition env0 :: env where
  "env0 = \<lparr>holdTtlMinutes = 15, dayPriceCents = 50000, depositCents = 20000, remainderDays = 14,
            cancelCutoffHoursEnv = 48, stripeSecretKey = Some ''sk_test'',
            stripeWebhookSecret = Some ''whsec_test'',
            zoneMillis = (\<lambda>d n h. 0), cutoffMillis = (\<lambda>d n. 0)\<rparr>"

text \<open>An environment whose zone arithmetic gives the scheduled jobs distinct positive delays.\<close>

definition env1 :: env where
  "env1 = env0\<lparr>zoneMillis := (\<lambda>d n h. 2000000000 - 86400000 * n + 3600000 * int h)\<rparr>"

definition marchRequest :: holdRequest where
  "marchRequest = \<lparr>reqStartDate = ''2025-03-10'', reqEndDateExclusive = ''2025-03-13'',
                    reqEmail = ''a@example.com'', reqEmailValid = True, reqName = None, reqPhone = None\<rparr>"

definition heldState :: state where
  "heldState = snd (createHold env0 0 marchRequest emptyState)"

definition blackoutState :: state where
  "blackoutState = emptyState\<lparr>blackouts := [(2025, 3, 13)]\<rparr>"

definition overlapRequest :: holdRequest where
  "overlapRequest = \<lparr>reqStartDate = ''2025-03-11'', reqEndDateExclusive = ''2025-03-14'',
                      reqEmail = ''b@example.com'', reqEmailValid = True, reqName = None, reqPhone = None\<rparr>"

definition strictVerifier :: "string \<Rightarrow> string \<Rightarrow> string \<Rightarrow> stripeEvent option" where
  "strictVerifier body sg webhookSecret =
     (if sg = ''v1=good'' \<and> webhookSecret = ''whsec_test''
      then Some (CheckoutSessionCompleted ''c'' ''pi_1'' None) else None)"


definition jobCount :: "string \<Rightarrow> job list \<Rightarrow> nat" where
  "jobCount k q = length (filter (\<lambda>j. jobId j = Some k) q)"

definition confirmJobKeys :: "string \<Rightarrow> string list" where
  "confirmJobKeys b =
     (''remainder-charge:'' @ b) # map (\<lambda>d. ''reminder-'' @ showNat d @ ''d:'' @ b) reminderOffsets"

definition settled :: "string \<Rightarrow> string \<Rightarrow> state \<Rightarrow> bool" where
  "settled b pi t =
     (case find (\<lambda>x. bid x = b) (bookings t) of
        None \<Rightarrow> True
      | Some bk \<Rightarrow>
          status bk = CONFIRMED \<and> pi \<in> set (map stripePaymentIntentId (payments t))
          \<and> list_all (\<lambda>p. stripePaymentIntentId p = pi \<longrightarrow> pstatus p = succeeded) (payments t))"

definition paidBooking :: booking where
  "paidBooking = \<lparr>bid = ''c'', bookingCustomerId = ''c'', startDate = (2025, 3, 10),
                   endDateExclusive = (2025, 3, 20), status = CONFIRMED, depositAmount = 20000,
                   totalAmount = 500000, pricingSnapshot = (10, 50000, 500000),
                   stripeCustomerId = Some ''cus_1''\<rparr>"

definition paidPayments :: "payment list" where
  "paidPayments =
     [\<lparr>payBookingId = ''c'', stripePaymentIntentId = ''pi_1'', amount = 20000,
       ptype = DEPOSIT, pstatus = succeeded\<rparr>,
      \<lparr>payBookingId = ''c'', stripePaymentIntentId = ''pi_2'', amount = 480000,
       ptype = REMAINDER, pstatus = succeeded\<rparr>]"

definition paidState :: state where
  "paidState = emptyState\<lparr>bookings := [paidBooking], payments := paidPayments\<rparr>"

definition stripeRefundOk :: "string \<Rightarrow> int \<Rightarrow> string option" where
  "stripeRefundOk paymentIntentId amt = Some (''re_'' @ paymentIntentId)"

definition monthRange :: "int \<Rightarrow> int \<Rightarrow> date \<times> date" where
  "monthRange year month =
     ((nat year, nat month, 1),
      if month = 12 then (nat year + 1, 1, 1) else (nat year, nat month + 1, 1))"

definition unavailableDates :: "date \<Rightarrow> date \<Rightarrow> int \<Rightarrow> state \<Rightarrow> date set" where
  "unavailableDates a b now s =
     {day d | d. d \<in> set (bookedDays s) \<and> a \<le> day d \<and> day d < b \<and> dstatus d = DayBOOKED}
     \<union> {day d | d. d \<in> set (bookedDays s) \<and> a \<le> day d \<and> day d < b \<and> dstatus d = DayHELD
                   \<and> (\<exists>t. holdExpiresAt d = Some t \<and> now < t)}
     \<union> {x. x \<in> set (blackouts s) \<and> a \<le> x \<and> x < b}"

section \<open>Calendar arithmetic\<close>

lemma daysInMonth_bounds: "28 \<le> daysInMonth y m \<and> daysInMonth y m \<le> 31"
  by (simp add: daysInMonth_def)

lemma validDate_plusDay: "validDate c \<Longrightarrow> validDate (plusDay c)"
  using daysInMonth_bounds
  by (auto simp: validDate_def plusDay_def split: prod.splits) (simp_all add: daysInMonth_def)

lemma less_plusDay: "validDate c \<Longrightarrow> c < plusDay c"
  by (auto simp: validDate_def plusDay_def split: prod.splits)

lemma plusDay_least:
  assumes "validDate c" and "validDate d" and "c < d"
  shows "plusDay c \<le> d"
proof -
  obtain y m k where c: "c = (y, m, k)" by (cases c) auto
  obtain y' m' k' where d: "d = (y', m', k')" by (cases d) auto
  have vc: "1 \<le> m" "m \<le> 12" "1 \<le> k" "k \<le> daysInMonth y m"
    using assms(1) by (simp_all add: validDate_def c)
  have vd: "1 \<le> m'" "m' \<le> 12" "1 \<le> k'" "k' \<le> daysInMonth y' m'"
    using assms(2) by (simp_all add: validDate_def d)
  have lt: "y < y' \<or> (y = y' \<and> (m < m' \<or> (m = m' \<and> k < k')))"
    using assms(3) by (auto simp: c d)
  show ?thesis
  proof (cases "k < daysInMonth y m")
    case True
    then have "plusDay c = (y, m, k + 1)" by (simp add: plusDay_def c)
    then show ?thesis using lt by (auto simp: d)
  next
    case False
    then have k: "k = daysInMonth y m" using vc by simp
    show ?thesis
    proof (cases "m < 12")
      case True
      then have "plusDay c = (y, m + 1, 1)" using False by (simp add: plusDay_def c)
      moreover have "y < y' \<or> (y = y' \<and> m < m')" using lt k vd by auto
      ultimately show ?thesis using vd by (auto simp: d)
    next
      case False
      then have m: "m = 12" using vc by simp
      have "plusDay c = (y + 1, 1, 1)" using \<open>\<not> k < daysInMonth y m\<close> m by (simp add: plusDay_def c)
      moreover have "y < y'" using lt k m vd by auto
      ultimately show ?thesis using vd by (auto simp: d)
    qed
  qed
qed

declare datesLoop.simps [simp del]
declare enumerateLoop.simps [simp del]

lemma enumerateLoop_datesLoop:
  "enumerateLoop acc c e = acc @ map toISODate (datesLoop c e)"
proof (induction acc c e rule: enumerateLoop.induct)
  case (1 dates cur en)
  show ?case
  proof (cases "cur < en")
    case True
    then show ?thesis
      using "1.IH" by (subst enumerateLoop.simps, subst datesLoop.simps) simp
  next
    case False
    then show ?thesis
      by (subst enumerateLoop.simps, subst datesLoop.simps) simp
  qed
qed

lemma datesLoop_set:
  "validDate c \<Longrightarrow> set (datesLoop c e) = {d. validDate d \<and> c \<le> d \<and> d < e}"
proof (induction c e rule: datesLoop.induct)
  case (1 cur en)
  show ?case
  proof (cases "cur < en")
    case True
    have v: "validDate (plusDay cur)" using "1.prems" by (rule validDate_plusDay)
    have ih: "set (datesLoop (plusDay cur) en) = {d. validDate d \<and> plusDay cur \<le> d \<and> d < en}"
      using "1.IH" [OF True v] .
    have "{d. validDate d \<and> cur \<le> d \<and> d < en}
            = insert cur {d. validDate d \<and> plusDay cur \<le> d \<and> d < en}"
      using True "1.prems" less_plusDay [OF "1.prems"] plusDay_least [OF "1.prems"]
      by (auto simp: order_less_le) 
    then show ?thesis
      using True ih by (subst datesLoop.simps) simp
  next
    case False
    then show ?thesis
      by (subst datesLoop.simps) auto
  qed
qed

lemma datesLoop_lower: "validDate c \<Longrightarrow> d \<in> set (datesLoop c e) \<Longrightarrow> c \<le> d"
  by (simp add: datesLoop_set)

lemma datesLoop_sorted: "validDate c \<Longrightarrow> sorted_wrt (<) (datesLoop c e)"
proof (induction c e rule: datesLoop.induct)
  case (1 cur en)
  show ?case
  proof (cases "cur < en")
    case True
    have v: "validDate (plusDay cur)" using "1.prems" by (rule validDate_plusDay)
    have "\<forall>d \<in> set (datesLoop (plusDay cur) en). cur < d"
      using datesLoop_lower [OF v] less_plusDay [OF "1.prems"] by (meson less_le_trans)
    then show ?thesis
      using True "1.IH" [OF True v] by (subst datesLoop.simps) simp
  next
    case False
    then show ?thesis by (subst datesLoop.simps) simp
  qed
qed

lemma datesLoop_distinct: "validDate c \<Longrightarrow> distinct (datesLoop c e)"
  using datesLoop_sorted strict_sorted_iff by blast

lemma datesLoop_empty_iff: "datesLoop c e = [] \<longleftrightarrow> \<not> c < e"
  by (subst datesLoop.simps) simp

subsection \<open>Printing and parsing ISO dates\<close>

lemma digitVal_digitChar: "digitVal (digitChar n) = Some (n mod 10)"
  by (simp add: digitVal_def digitChar_def Let_def)

lemma digitChar_digitVal: "digitVal c = Some v \<Longrightarrow> digitChar v = c \<and> v < 10"
  by (auto simp: digitVal_def digitChar_def Let_def split: if_splits)

lemma parse_pad2: "n < 100 \<Longrightarrow> parseDigits 0 (pad2 n) = Some n"
  by (simp add: pad2_def digitVal_digitChar)

lemma digits4:
  assumes "n \<le> 9999"
  shows "((n div 1000 mod 10 * 10 + n div 100 mod 10) * 10 + n div 10 mod 10) * 10 + n mod 10 = (n::nat)"
proof -
  define q1 q2 q3 where "q1 = n div 10" and "q2 = q1 div 10" and "q3 = q2 div 10"
  have e: "n div 10 = q1" "n div 100 = q2" "n div 1000 = q3"
    by (simp_all add: q1_def q2_def q3_def div_mult2_eq [symmetric])
  have "q3 < 10" using assms e(3) by linarith
  then have "q3 mod 10 = q3" by simp
  moreover have "q2 = q3 * 10 + q2 mod 10" "q1 = q2 * 10 + q1 mod 10" "n = q1 * 10 + n mod 10"
    by (simp_all add: q1_def q2_def q3_def)
  ultimately show ?thesis unfolding e by presburger
qed

lemma parse_pad4:
  assumes "n \<le> 9999"
  shows "parseDigits 0 (pad4 n) = Some n"
proof -
  have "parseDigits 0 (pad4 n)
      = Some (((n div 1000 mod 10 * 10 + n div 100 mod 10) * 10 + n div 10 mod 10) * 10 + n mod 10)"
    by (simp add: pad4_def digitVal_digitChar)
  then show ?thesis using digits4 [OF assms] by (simp only:)
qed

lemma div_mod_digit: "w < 10 \<Longrightarrow> (k * 10 + w) div 10 = (k::nat) \<and> (k * 10 + w) mod 10 = w"
  by simp

lemma pad2_parse:
  assumes "parseDigits 0 [a, b] = Some n"
  shows "pad2 n = [a, b] \<and> n < 100"
proof -
  obtain x y where x: "digitVal a = Some x" and y: "digitVal b = Some y" and n: "n = x * 10 + y"
    using assms by (auto split: option.splits)
  have "x < 10" "y < 10" "digitChar x = a" "digitChar y = b"
    using digitChar_digitVal [OF x] digitChar_digitVal [OF y] by simp_all
  moreover have "digitChar (n div 10) = digitChar x" "digitChar n = digitChar y"
    using \<open>x < 10\<close> \<open>y < 10\<close> by (simp_all add: digitChar_def n)
  ultimately show ?thesis by (simp add: pad2_def n)
qed

lemma pad4_parse:
  assumes "parseDigits 0 [a, b, c, d] = Some n"
  shows "pad4 n = [a, b, c, d] \<and> n \<le> 9999"
proof -
  obtain x y z w where x: "digitVal a = Some x" and y: "digitVal b = Some y"
    and z: "digitVal c = Some z" and w: "digitVal d = Some w"
    and n: "n = ((x * 10 + y) * 10 + z) * 10 + w"
    using assms by (auto split: option.splits)
  have b: "x < 10" "y < 10" "z < 10" "w < 10"
    and c: "digitChar x = a" "digitChar y = b" "digitChar z = c" "digitChar w = d"
    using digitChar_digitVal [OF x] digitChar_digitVal [OF y]
      digitChar_digitVal [OF z] digitChar_digitVal [OF w] by simp_all
  define k j where "k = (x * 10 + y) * 10 + z" and "j = x * 10 + y"
  have nk: "n = k * 10 + w" and kj: "k = j * 10 + z" and jx: "j = x * 10 + y"
    by (simp_all add: n k_def j_def)
  have q1: "n div 10 = k" and r1: "n mod 10 = w"
    using div_mod_digit [OF b(4), of k] by (simp_all add: nk)
  have q2: "k div 10 = j" and r2: "k mod 10 = z"
    using div_mod_digit [OF b(3), of j] by (simp_all add: kj)
  have q3: "j div 10 = x" and r3: "j mod 10 = y"
    using div_mod_digit [OF b(2), of x] by (simp_all add: jx)
  have d: "n div 100 = n div 10 div 10" "n div 1000 = n div 10 div 10 div 10"
    by (simp_all add: div_mult2_eq [symmetric])
  have "(n div 1000) mod 10 = x" "(n div 100) mod 10 = y" "(n div 10) mod 10 = z" "n mod 10 = w"
    using b by (simp_all only: d q1 q2 q3 r1 r2 r3 mod_less)
  then have "digitChar (n div 1000) = digitChar x" "digitChar (n div 100) = digitChar y"
      "digitChar (n div 10) = digitChar z" "digitChar n = digitChar w"
    by (simp_all add: digitChar_def)
  moreover have "n \<le> 9999" using b unfolding n by simp
  ultimately show ?thesis by (simp add: pad4_def c)
qed

lemma validDate_bounds: "validDate (y, m, d) \<Longrightarrow> m < 100 \<and> d < 100"
  using daysInMonth_bounds [of y m] by (simp add: validDate_def)

lemma toISODate_shape:
  "y \<le> 9999 \<Longrightarrow> toISODate (y, m, d) = pad4 y @ ''-'' @ pad2 m @ ''-'' @ pad2 d"
  by (simp add: toISODate_def)

lemma fromISO_toISODate:
  assumes "validDate (y, m, d)" and "y \<le> 9999"
  shows "fromISO (toISODate (y, m, d)) = Some (y, m, d)"
proof -
  let ?s = "toISODate (y, m, d)"
  have s: "?s = pad4 y @ ''-'' @ pad2 m @ ''-'' @ pad2 d"
    using assms(2) by (rule toISODate_shape)
  have l: "length ?s = 10" "?s ! 4 = CHR ''-''" "?s ! 7 = CHR ''-''"
    by (simp_all add: s pad4_def pad2_def)
  have t: "take 4 ?s = pad4 y" "take 2 (drop 5 ?s) = pad2 m" "drop 8 ?s = pad2 d"
    by (simp_all add: s pad4_def pad2_def)
  have p: "parseDigits 0 (pad4 y) = Some y" "parseDigits 0 (pad2 m) = Some m"
      "parseDigits 0 (pad2 d) = Some d"
    using assms validDate_bounds [OF assms(1)] by (simp_all add: parse_pad4 parse_pad2)
  show ?thesis
    unfolding fromISO_def using l t p assms(1) by simp
qed

lemma length10E:
  assumes "length (s :: 'a list) = 10"
  obtains a b c d e f g h i j where "s = [a, b, c, d, e, f, g, h, i, j]"
  using assms by (auto simp: eval_nat_numeral length_Suc_conv)

lemma toISODate_fromISO:
  assumes "fromISO s = Some dt"
  shows "validDate dt \<and> fst dt \<le> 9999 \<and> toISODate dt = s"
proof -
  have len: "length s = 10" and h: "s ! 4 = CHR ''-''" "s ! 7 = CHR ''-''"
    using assms by (auto simp: fromISO_def split: if_splits)
  obtain a b c d e f g h i j where s: "s = [a, b, c, d, e, f, g, h, i, j]"
    using len by (rule length10E)
  have e: "e = CHR ''-''" "h = CHR ''-''" using h by (simp_all add: s)
  obtain y m k where dt: "dt = (y, m, k)" by (cases dt) auto
  have py: "parseDigits 0 [a, b, c, d] = Some y" and pm: "parseDigits 0 [f, g] = Some m"
    and pk: "parseDigits 0 [i, j] = Some k" and v: "validDate (y, m, k)"
    using assms unfolding fromISO_def s dt
    by (auto split: if_splits option.splits)
  show ?thesis
    using pad4_parse [OF py] pad2_parse [OF pm] pad2_parse [OF pk] v
    by (simp add: dt s e toISODate_def)
qed

section \<open>Deposit bounds\<close>

lemma mathRoundDiv100_nonneg: "0 \<le> x \<Longrightarrow> 0 \<le> mathRoundDiv100 x"
  by (simp add: mathRoundDiv100_def)

text \<open>
  C10. For a non-negative total and a non-negative policy value the deposit lies between
  0 and the total: a FIXED deposit is the value clamped to the total, a PERCENT deposit
  is round(total * value / 100) clamped to the total.
\<close>

theorem computeDeposit_bounds:
  assumes "0 \<le> tot" and "0 \<le> val"
  shows "0 \<le> computeDeposit tot dt val \<and> computeDeposit tot dt val \<le> tot
         \<and> computeDeposit tot FIXED val = min val tot
         \<and> computeDeposit tot PERCENT val = min (mathRoundDiv100 (tot * val)) tot"
proof -
  have "0 \<le> mathRoundDiv100 (tot * val)"
    using assms by (simp add: mathRoundDiv100_nonneg)
  then show ?thesis
    using assms by (cases dt) (simp_all add: computeDeposit_def Let_def)
qed

theorem computeDeposit_bounds_witness:
  "(0::int) \<le> 150000 \<and> (0::int) \<le> 30
   \<and> computeDeposit 150000 PERCENT 30 = 45000
   \<and> computeDeposit 150000 FIXED 20000 = 20000
   \<and> computeDeposit 10000 FIXED 20000 = 10000
   \<and> 0 \<le> computeDeposit 150000 PERCENT 30 \<and> computeDeposit 150000 PERCENT 30 \<le> 150000"
  using computeDeposit_bounds [of 150000 30 PERCENT]
  by (simp add: computeDeposit_def mathRoundDiv100_def)

section \<open>Range enumeration\<close>

lemma enumerateDates_datesLoop:
  "fromISO s = Some a \<Longrightarrow> fromISO e = Some b \<Longrightarrow> enumerateDates s e = map toISODate (datesLoop a b)"
  by (simp add: enumerateDates_def enumerateLoop_datesLoop)

lemma fromISO_valid: "fromISO s = Some a \<Longrightarrow> validDate a"
  using toISODate_fromISO by blast

lemma fromISO_year: "fromISO s = Some a \<Longrightarrow> fst a \<le> 9999"
  using toISODate_fromISO by blast

lemma datesLoop_parse_back:
  assumes "fromISO s = Some a" and "fromISO e = Some b" and "d \<in> set (datesLoop a b)"
  shows "fromISO (toISODate d) = Some d"
proof -
  have v: "validDate d" and lt: "d < b"
    using assms(3) datesLoop_set [OF fromISO_valid [OF assms(1)]] by auto
  obtain y m k where d: "d = (y, m, k)" by (cases d) auto
  have "fst d \<le> fst b" using lt by (cases d, cases b) (auto simp: less_prod_def)
  then have "y \<le> 9999" using fromISO_year [OF assms(2)] by (simp add: d)
  then show ?thesis using v fromISO_toISODate unfolding d by blast
qed

lemma those_map_Some: "those (map Some xs) = Some xs"
  by (induction xs) simp_all

lemma map_parse_print: "(\<And>x. x \<in> set xs \<Longrightarrow> f (g x) = Some x) \<Longrightarrow> map f (map g xs) = map Some xs"
  by (induction xs) simp_all

lemma those_enumerateDates:
  assumes "fromISO s = Some a" and "fromISO e = Some b"
  shows "those (map fromISO (enumerateDates s e)) = Some (datesLoop a b)"
proof -
  have "map fromISO (map toISODate (datesLoop a b)) = map Some (datesLoop a b)"
    using datesLoop_parse_back [OF assms] by (rule map_parse_print)
  then show ?thesis
    by (simp only: enumerateDates_datesLoop [OF assms] those_map_Some)
qed




lemma enumerateDates_length:
  "fromISO s = Some a \<Longrightarrow> fromISO e = Some b \<Longrightarrow> length (enumerateDates s e) = length (datesLoop a b)"
  by (simp add: enumerateDates_datesLoop)

lemma isoDateShape_fromISO: "fromISO s = Some a \<Longrightarrow> isoDateShape s"
  by (auto simp: fromISO_def isoDateShape_def split: if_splits option.splits)

section \<open>Insert-or-skip under the uniqueness constraint\<close>

lemma createMany_Cons:
  "createManySkipDuplicates (r # rs) tbl =
     (if day r \<in> set (map day tbl) then createManySkipDuplicates rs tbl
      else (Suc (fst (createManySkipDuplicates rs (tbl @ [r]))),
            snd (createManySkipDuplicates rs (tbl @ [r]))))"
  by (simp split: prod.splits)

lemma createMany_count_le: "fst (createManySkipDuplicates rows tbl) \<le> length rows"
proof (induction rows arbitrary: tbl)
  case Nil
  then show ?case by simp
next
  case (Cons r rs)
  show ?case
    using Cons.IH [of tbl] Cons.IH [of "tbl @ [r]"] by (simp only: createMany_Cons) simp
qed

lemma createMany_unique:
  "distinct (map day tbl) \<Longrightarrow> distinct (map day (snd (createManySkipDuplicates rows tbl)))"
proof (induction rows arbitrary: tbl)
  case Nil
  then show ?case by simp
next
  case (Cons r rs)
  show ?case
  proof (cases "day r \<in> set (map day tbl)")
    case True
    then show ?thesis using Cons.IH [OF Cons.prems] by (simp only: createMany_Cons) simp
  next
    case False
    then have "distinct (map day (tbl @ [r]))" using Cons.prems by simp
    then show ?thesis using False Cons.IH [of "tbl @ [r]"] by (simp only: createMany_Cons) simp
  qed
qed

lemma createMany_full_iff:
  "fst (createManySkipDuplicates rows tbl) = length rows
     \<longleftrightarrow> distinct (map day rows) \<and> set (map day rows) \<inter> set (map day tbl) = {}"
proof (induction rows arbitrary: tbl)
  case Nil
  then show ?case by simp
next
  case (Cons r rs)
  show ?case
  proof (cases "day r \<in> set (map day tbl)")
    case True
    have "fst (createManySkipDuplicates rs tbl) \<le> length rs" by (rule createMany_count_le)
    then show ?thesis using True by auto
  next
    case False
    have "fst (createManySkipDuplicates (r # rs) tbl) = Suc (fst (createManySkipDuplicates rs (tbl @ [r])))"
      using False by (simp split: prod.splits)
    then show ?thesis using False Cons.IH [of "tbl @ [r]"] by auto
  qed
qed

lemma createMany_full_table:
  "fst (createManySkipDuplicates rows tbl) = length rows
     \<Longrightarrow> snd (createManySkipDuplicates rows tbl) = tbl @ rows"
proof (induction rows arbitrary: tbl)
  case Nil
  then show ?case by simp
next
  case (Cons r rs)
  show ?case
  proof (cases "day r \<in> set (map day tbl)")
    case True
    have "fst (createManySkipDuplicates rs tbl) \<le> length rs" by (rule createMany_count_le)
    then show ?thesis using True Cons.prems by auto
  next
    case False
    have e: "createManySkipDuplicates (r # rs) tbl
         = (Suc (fst (createManySkipDuplicates rs (tbl @ [r]))), snd (createManySkipDuplicates rs (tbl @ [r])))"
      using False by (simp split: prod.splits)
    then have "fst (createManySkipDuplicates rs (tbl @ [r])) = length rs" using Cons.prems by simp
    then show ?thesis using Cons.IH [of "tbl @ [r]"] e by simp
  qed
qed

lemma createInput_days: "map day (createInput b ex ds) = ds"
  by (simp add: createInput_def comp_def)

lemma createInput_length: "length (createInput b ex ds) = length ds"
  by (simp add: createInput_def)

section \<open>Outcomes of hold creation\<close>

lemma datesLoop_nonempty: "a < b \<Longrightarrow> datesLoop a b \<noteq> []"
  by (simp add: datesLoop_empty_iff)

lemma filter_count_pos: "(0 < length (filter P xs)) = (\<exists>x \<in> set xs. P x)"
  by (induction xs) auto

lemma getOrCreateDefaultPolicy_row: "snd (getOrCreateDefaultPolicy e row) \<noteq> None"
  by (simp add: getOrCreateDefaultPolicy_def Let_def split: option.splits)

lemma getOrCreateDefaultPolicy_existing:
  "row \<noteq> None \<Longrightarrow> snd (getOrCreateDefaultPolicy e row) = row"
  by (auto simp: getOrCreateDefaultPolicy_def Let_def split: option.splits)

lemma createHold_blackout:
  assumes "fromISO (reqStartDate req) = Some a" and "fromISO (reqEndDateExclusive req) = Some b"
    and "reqEmailValid req" and "a < b"
    and "\<exists>x \<in> set (blackouts s). a \<le> x \<and> x < b"
  shows "createHold e now req s = (Inl BlackoutConflict, s)"
proof -
  have n: "enumerateDates (reqStartDate req) (reqEndDateExclusive req) \<noteq> []"
    using enumerateDates_datesLoop [OF assms(1,2)] datesLoop_nonempty [OF assms(4)] by simp
  have sh: "isoDateShape (reqStartDate req)" "isoDateShape (reqEndDateExclusive req)"
    using assms(1,2) by (simp_all add: isoDateShape_fromISO)
  have t: "\<And>ex. holdTransaction e now req
             (enumerateDates (reqStartDate req) (reqEndDateExclusive req)) ex s
           = (policyRow s, Inl BlackoutConflict)"
    using assms(5) by (simp add: holdTransaction_def assms(1,2) Let_def filter_empty_conv)
  show ?thesis
    by (simp add: createHold_def sh assms(3) n Let_def t)
qed

lemma holdTransaction_free:
  assumes "fromISO (reqStartDate req) = Some a" and "fromISO (reqEndDateExclusive req) = Some b"
    and "\<not> (\<exists>x \<in> set (blackouts s). a \<le> x \<and> x < b)"
  shows "holdTransaction e now req (enumerateDates (reqStartDate req) (reqEndDateExclusive req)) ex s =
     (let bk = freshId (map bid (bookings s));
          r = createManySkipDuplicates (createInput bk ex (datesLoop a b))
                (clearExpiredHolds now (bookedDays s))
      in (snd (getOrCreateDefaultPolicy e (policyRow s)),
          if fst r \<noteq> length (datesLoop a b) then Inl RangeUnavailable
          else Inr (bk, s\<lparr>customers := snd (upsertCustomer req (customers s)),
                          bookings := bookings s @
                            [\<lparr>bid = bk,
                              bookingCustomerId = customerId (fst (upsertCustomer req (customers s))),
                              startDate = a, endDateExclusive = b, status = HELD,
                              depositAmount = computeDeposit
                                 (int (length (datesLoop a b)) * dayPriceCents e)
                                 (depositType (fst (getOrCreateDefaultPolicy e (policyRow s))))
                                 (depositValue (fst (getOrCreateDefaultPolicy e (policyRow s)))),
                              totalAmount = int (length (datesLoop a b)) * dayPriceCents e,
                              pricingSnapshot = (length (datesLoop a b), dayPriceCents e,
                                                 int (length (datesLoop a b)) * dayPriceCents e),
                              stripeCustomerId = None\<rparr>],
                          bookedDays := snd r\<rparr>)))"
  using assms(3)
  by (simp add: holdTransaction_def assms(1,2) Let_def filter_empty_conv quoteRange_def
      those_enumerateDates [OF assms(1,2)] enumerateDates_length [OF assms(1,2)]
      split: prod.splits)

lemma createHold_free:
  assumes "fromISO (reqStartDate req) = Some a" and "fromISO (reqEndDateExclusive req) = Some b"
    and "reqEmailValid req" and "a < b"
    and "\<not> (\<exists>x \<in> set (blackouts s). a \<le> x \<and> x < b)"
  shows "createHold e now req s =
     (case holdTransaction e now req (enumerateDates (reqStartDate req) (reqEndDateExclusive req))
             (now + minutesToMs (holdTtlMinutes e)) s of
        (polTable, Inl err) \<Rightarrow> (Inl err, s\<lparr>policyRow := polTable\<rparr>)
      | (polTable, Inr (b, s')) \<Rightarrow>
          (Inr (b, now + minutesToMs (holdTtlMinutes e)),
           s'\<lparr>policyRow := polTable,
              jobs := enqueue (holdExpireJob (holdTtlMinutes e) b) (jobs s')\<rparr>))"
proof -
  have n: "enumerateDates (reqStartDate req) (reqEndDateExclusive req) \<noteq> []"
    using enumerateDates_datesLoop [OF assms(1,2)] datesLoop_nonempty [OF assms(4)] by simp
  have sh: "isoDateShape (reqStartDate req)" "isoDateShape (reqEndDateExclusive req)"
    using assms(1,2) by (simp_all add: isoDateShape_fromISO)
  show ?thesis
    by (simp add: createHold_def sh assms(3) n Let_def)
qed

lemma createHold_unavailable:
  assumes "fromISO (reqStartDate req) = Some a" and "fromISO (reqEndDateExclusive req) = Some b"
    and "reqEmailValid req" and "a < b"
    and "\<not> (\<exists>x \<in> set (blackouts s). a \<le> x \<and> x < b)"
    and "fst (createManySkipDuplicates
                (createInput (freshId (map bid (bookings s))) (now + minutesToMs (holdTtlMinutes e))
                   (datesLoop a b))
                (clearExpiredHolds now (bookedDays s))) \<noteq> length (datesLoop a b)"
  shows "createHold e now req s =
           (Inl RangeUnavailable, s\<lparr>policyRow := snd (getOrCreateDefaultPolicy e (policyRow s))\<rparr>)"
  using assms(6)
  by (simp only: createHold_free [OF assms(1-5)] holdTransaction_free [OF assms(1,2,5)] Let_def)
     simp

lemma createHold_success:
  assumes "fromISO (reqStartDate req) = Some a" and "fromISO (reqEndDateExclusive req) = Some b"
    and "reqEmailValid req" and "a < b"
    and "\<not> (\<exists>x \<in> set (blackouts s). a \<le> x \<and> x < b)"
    and "fst (createManySkipDuplicates
                (createInput (freshId (map bid (bookings s))) (now + minutesToMs (holdTtlMinutes e))
                   (datesLoop a b))
                (clearExpiredHolds now (bookedDays s))) = length (datesLoop a b)"
  shows "fst (createHold e now req s)
           = Inr (freshId (map bid (bookings s)), now + minutesToMs (holdTtlMinutes e))"
    and "bookedDays (snd (createHold e now req s))
           = clearExpiredHolds now (bookedDays s)
             @ createInput (freshId (map bid (bookings s))) (now + minutesToMs (holdTtlMinutes e))
                 (datesLoop a b)"
    and "policyRow (snd (createHold e now req s)) = snd (getOrCreateDefaultPolicy e (policyRow s))"
    and "blackouts (snd (createHold e now req s)) = blackouts s"
    and "jobs (snd (createHold e now req s))
           = enqueue (holdExpireJob (holdTtlMinutes e) (freshId (map bid (bookings s)))) (jobs s)"
proof -
  let ?rows = "createInput (freshId (map bid (bookings s))) (now + minutesToMs (holdTtlMinutes e))
                   (datesLoop a b)"
  have full: "fst (createManySkipDuplicates ?rows (clearExpiredHolds now (bookedDays s))) = length ?rows"
    using assms(6) by (simp add: createInput_length)
  have tbl: "snd (createManySkipDuplicates ?rows (clearExpiredHolds now (bookedDays s)))
               = clearExpiredHolds now (bookedDays s) @ ?rows"
    using createMany_full_table [OF full] .
  show "fst (createHold e now req s)
           = Inr (freshId (map bid (bookings s)), now + minutesToMs (holdTtlMinutes e))"
    using assms(6)
    by (simp only: createHold_free [OF assms(1-5)] holdTransaction_free [OF assms(1,2,5)] Let_def)
       simp
  show "bookedDays (snd (createHold e now req s)) = clearExpiredHolds now (bookedDays s) @ ?rows"
    using assms(6) tbl
    by (simp only: createHold_free [OF assms(1-5)] holdTransaction_free [OF assms(1,2,5)] Let_def)
       simp
  show "policyRow (snd (createHold e now req s)) = snd (getOrCreateDefaultPolicy e (policyRow s))"
    using assms(6)
    by (simp only: createHold_free [OF assms(1-5)] holdTransaction_free [OF assms(1,2,5)] Let_def)
       simp
  show "blackouts (snd (createHold e now req s)) = blackouts s"
    using assms(6)
    by (simp only: createHold_free [OF assms(1-5)] holdTransaction_free [OF assms(1,2,5)] Let_def)
       simp
  show "jobs (snd (createHold e now req s))
           = enqueue (holdExpireJob (holdTtlMinutes e) (freshId (map bid (bookings s)))) (jobs s)"
    using assms(6)
    by (simp only: createHold_free [OF assms(1-5)] holdTransaction_free [OF assms(1,2,5)] Let_def)
       simp
qed

text \<open>Inversion: what a successful response tells.\<close>

lemma createHold_Inr_parsed:
  assumes "fst (createHold e now req s) = Inr r"
  shows "\<exists>a b. fromISO (reqStartDate req) = Some a \<and> fromISO (reqEndDateExclusive req) = Some b
           \<and> reqEmailValid req \<and> a < b"
proof -
  have v: "reqEmailValid req"
    using assms by (auto simp: createHold_def split: if_splits)
  have n: "enumerateDates (reqStartDate req) (reqEndDateExclusive req) \<noteq> []"
    using assms by (auto simp: createHold_def Let_def split: if_splits)
  then obtain a b where p: "fromISO (reqStartDate req) = Some a" "fromISO (reqEndDateExclusive req) = Some b"
    by (auto simp: enumerateDates_def split: option.splits)
  have "a < b" using n enumerateDates_datesLoop [OF p] datesLoop_empty_iff [of a b] by auto
  then show ?thesis using p v by blast
qed

section \<open>Half-open ranges\<close>

lemmas parse_simps = fromISO_def digitVal_def validDate_def daysInMonth_def isLeapYear_def Let_def

lemma march_parse:
  "fromISO (reqStartDate marchRequest) = Some (2025, 3, 10)"
  "fromISO (reqEndDateExclusive marchRequest) = Some (2025, 3, 13)"
  by (simp_all add: marchRequest_def parse_simps)

lemma march_dates:
  "datesLoop (2025, 3, 10) (2025, 3, 13) = [(2025, 3, 10), (2025, 3, 11), (2025, 3, 12)]"
  by (simp add: datesLoop.simps plusDay_def daysInMonth_def)

lemma march_print:
  "toISODate (2025, 3, 10) = ''2025-03-10''"
  "toISODate (2025, 3, 11) = ''2025-03-11''"
  "toISODate (2025, 3, 12) = ''2025-03-12''"
proof -
  have "fromISO ''2025-03-10'' = Some (2025, 3, 10)" "fromISO ''2025-03-11'' = Some (2025, 3, 11)"
    "fromISO ''2025-03-12'' = Some (2025, 3, 12)"
    by (simp_all add: parse_simps)
  then show "toISODate (2025, 3, 10) = ''2025-03-10''" "toISODate (2025, 3, 11) = ''2025-03-11''"
    "toISODate (2025, 3, 12) = ''2025-03-12''"
    using toISODate_fromISO by blast+
qed

lemma march_enumerate:
  "enumerateDates (reqStartDate marchRequest) (reqEndDateExclusive marchRequest)
     = [''2025-03-10'', ''2025-03-11'', ''2025-03-12'']"
  by (simp add: enumerateDates_datesLoop [OF march_parse] march_dates march_print)

lemma clearExpiredHolds_Nil: "clearExpiredHolds now [] = []"
  by (simp add: clearExpiredHolds_def)




section \<open>Rejected holds leave the tables alone\<close>

lemma holdTransaction_policy:
  "fst (holdTransaction e now req dl ex s) = policyRow s
     \<or> fst (holdTransaction e now req dl ex s) = snd (getOrCreateDefaultPolicy e (policyRow s))"
  by (simp add: holdTransaction_def Let_def split: option.splits prod.splits)

lemma createHold_Inl_state:
  assumes "fst (createHold e now req s) = Inl err"
  shows "\<exists>pol. snd (createHold e now req s) = s\<lparr>policyRow := pol\<rparr>
           \<and> (policyRow s \<noteq> None \<longrightarrow> pol = policyRow s)"
proof -
  have same: "s = s\<lparr>policyRow := policyRow s\<rparr>" by simp
  let ?days = "enumerateDates (reqStartDate req) (reqEndDateExclusive req)"
  show ?thesis
  proof (cases "isoDateShape (reqStartDate req) \<and> isoDateShape (reqEndDateExclusive req)
                  \<and> reqEmailValid req \<and> ?days \<noteq> []")
    case False
    then have "snd (createHold e now req s) = s"
      by (auto simp: createHold_def Let_def)
    then show ?thesis using same by metis
  next
    case True
    obtain pol r where t: "holdTransaction e now req ?days (now + minutesToMs (holdTtlMinutes e)) s = (pol, r)"
      by (cases "holdTransaction e now req ?days (now + minutesToMs (holdTtlMinutes e)) s") auto
    have pol: "policyRow s \<noteq> None \<longrightarrow> pol = policyRow s"
      using holdTransaction_policy [of e now req ?days "now + minutesToMs (holdTtlMinutes e)" s]
        getOrCreateDefaultPolicy_existing [of "policyRow s" e]
      by (auto simp: t)
    show ?thesis
    proof (cases r)
      case (Inl x)
      then have "snd (createHold e now req s) = s\<lparr>policyRow := pol\<rparr>"
        using True t by (simp add: createHold_def Let_def)
      then show ?thesis using pol by blast
    next
      case (Inr y)
      then have "\<exists>z. fst (createHold e now req s) = Inr z"
        using True t by (cases y) (simp add: createHold_def Let_def)
      then show ?thesis using assms by auto
    qed
  qed
qed

lemma createHold_Inr_state:
  assumes "fst (createHold e now req s) = Inr r"
  shows "\<exists>ds. bookedDays (snd (createHold e now req s))
             = clearExpiredHolds now (bookedDays s) @ createInput (fst r) (snd r) ds
           \<and> distinct ds
           \<and> set ds \<inter> set (map day (clearExpiredHolds now (bookedDays s))) = {}
           \<and> policyRow (snd (createHold e now req s)) \<noteq> None
           \<and> blackouts (snd (createHold e now req s)) = blackouts s"
proof -
  obtain a b where p: "fromISO (reqStartDate req) = Some a" "fromISO (reqEndDateExclusive req) = Some b"
    and v: "reqEmailValid req" and lt: "a < b"
    using createHold_Inr_parsed [OF assms] by blast
  let ?ds = "datesLoop a b"
  let ?rows = "createInput (freshId (map bid (bookings s))) (now + minutesToMs (holdTtlMinutes e)) ?ds"
  have nb: "\<not> (\<exists>x \<in> set (blackouts s). a \<le> x \<and> x < b)"
  proof
    assume "\<exists>x \<in> set (blackouts s). a \<le> x \<and> x < b"
    then have "createHold e now req s = (Inl BlackoutConflict, s)"
      by (rule createHold_blackout [OF p v lt])
    then show False using assms by simp
  qed
  have full: "fst (createManySkipDuplicates ?rows (clearExpiredHolds now (bookedDays s))) = length ?ds"
  proof (rule ccontr)
    assume "fst (createManySkipDuplicates ?rows (clearExpiredHolds now (bookedDays s))) \<noteq> length ?ds"
    then have "createHold e now req s
        = (Inl RangeUnavailable, s\<lparr>policyRow := snd (getOrCreateDefaultPolicy e (policyRow s))\<rparr>)"
      by (rule createHold_unavailable [OF p v lt nb])
    then show False using assms by simp
  qed
  have r: "r = (freshId (map bid (bookings s)), now + minutesToMs (holdTtlMinutes e))"
    using assms createHold_success(1) [OF p v lt nb full] by simp
  have "fst (createManySkipDuplicates ?rows (clearExpiredHolds now (bookedDays s))) = length ?rows"
    using full by (simp add: createInput_length)
  then have free: "distinct ?ds \<and> set ?ds \<inter> set (map day (clearExpiredHolds now (bookedDays s))) = {}"
    by (simp only: createMany_full_iff createInput_days)
  show ?thesis
    using createHold_success(2,3,4) [OF p v lt nb full] free getOrCreateDefaultPolicy_row [of e "policyRow s"]
    by (simp only: r fst_conv snd_conv) blast
qed

lemma clearExpiredHolds_unique:
  "distinct (map day tbl) \<Longrightarrow> distinct (map day (clearExpiredHolds now tbl))"
  by (simp add: clearExpiredHolds_def distinct_map_filter)

lemma uniqueDays_createHold:
  assumes "uniqueDays s"
  shows "uniqueDays (snd (createHold e now req s))"
proof (cases "fst (createHold e now req s)")
  case (Inl err)
  then show ?thesis using createHold_Inl_state [OF Inl] assms by (auto simp: uniqueDays_def)
next
  case (Inr r)
  obtain ds where b: "bookedDays (snd (createHold e now req s))
             = clearExpiredHolds now (bookedDays s) @ createInput (fst r) (snd r) ds"
    and d: "distinct ds" and i: "set ds \<inter> set (map day (clearExpiredHolds now (bookedDays s))) = {}"
    using createHold_Inr_state [OF Inr] by blast
  have "distinct (map day (clearExpiredHolds now (bookedDays s)))"
    using assms by (simp add: uniqueDays_def clearExpiredHolds_unique)
  then show ?thesis
    using d i by (simp only: uniqueDays_def b map_append createInput_days distinct_append) blast
qed

lemma map_status_days: "map day (map (\<lambda>d. if P d then d\<lparr>dstatus := st, holdExpiresAt := x\<rparr> else d) tbl) = map day tbl"
  by (induction tbl) simp_all

lemma confirmTransaction_days:
  "map day (bookedDays (confirmTransaction b pi c s)) = map day (bookedDays s)"
  by (simp add: confirmTransaction_def Let_def map_status_days split: option.splits)

lemma scheduleAfterConfirm_days: "bookedDays (scheduleAfterConfirm e now b s) = bookedDays s"
  by (simp add: scheduleAfterConfirm_def Let_def split: option.splits prod.splits)

lemma uniqueDays_confirm: "uniqueDays s \<Longrightarrow> uniqueDays (confirm e now b pi c s)"
  by (simp add: uniqueDays_def confirm_def scheduleAfterConfirm_days confirmTransaction_days)

lemma uniqueDays_handleHoldExpire: "uniqueDays s \<Longrightarrow> uniqueDays (handleHoldExpire now b s)"
  by (simp add: uniqueDays_def handleHoldExpire_def Let_def distinct_map_filter split: option.splits)

lemma uniqueDays_cancelBooking: "uniqueDays s \<Longrightarrow> uniqueDays (snd (cancelBooking e sr now b s))"
  by (auto simp: uniqueDays_def cancelBooking_def Let_def distinct_map_filter
      split: option.splits prod.splits if_splits bool.splits)

lemma paymentSucceeded_days: "bookedDays (paymentSucceeded pi s) = bookedDays s"
  by (simp add: paymentSucceeded_def split: option.splits)

lemma paymentFailed_days: "bookedDays (paymentFailed pi s) = bookedDays s"
  by (simp add: paymentFailed_def Let_def split: option.splits)

lemma uniqueDays_handleEvent: "uniqueDays s \<Longrightarrow> uniqueDays (handleEvent e now ev s)"
  using uniqueDays_confirm
  by (cases ev) (simp_all add: handleEvent_def uniqueDays_def paymentSucceeded_days paymentFailed_days)

section \<open>Rollback of a rejected hold\<close>

lemma createMany_short_nonempty:
  assumes "fst (createManySkipDuplicates (createInput b ex ds) tbl) \<noteq> length ds" and "distinct ds"
  shows "tbl \<noteq> []"
proof
  assume "tbl = []"
  then have "fst (createManySkipDuplicates (createInput b ex ds) tbl) = length (createInput b ex ds)"
    using assms(2) by (simp only: createMany_full_iff createInput_days) simp
  then show False using assms(1) by (simp add: createInput_length)
qed

lemma clearExpiredHolds_nonempty: "clearExpiredHolds now tbl \<noteq> [] \<Longrightarrow> tbl \<noteq> []"
  by (auto simp: clearExpiredHolds_def)

lemma policyPresent_createHold: "policyPresent s \<Longrightarrow> policyPresent (snd (createHold e now req s))"
proof (cases "fst (createHold e now req s)")
  case (Inl err)
  assume p: "policyPresent s"
  obtain pol where st: "snd (createHold e now req s) = s\<lparr>policyRow := pol\<rparr>"
    and pol: "policyRow s \<noteq> None \<longrightarrow> pol = policyRow s"
    using createHold_Inl_state [OF Inl] by blast
  show ?thesis using p pol by (auto simp: policyPresent_def st)
next
  case (Inr r)
  then show ?thesis using createHold_Inr_state [OF Inr] by (auto simp: policyPresent_def)
qed

lemma scheduleAfterConfirm_policy:
  "policyRow (scheduleAfterConfirm e now b s) \<noteq> None"
  using getOrCreateDefaultPolicy_row [of e "policyRow s"]
  by (auto simp: scheduleAfterConfirm_def Let_def split: option.splits prod.splits)

lemma policyPresent_confirm: "policyPresent (confirm e now b pi c s)"
  by (simp add: policyPresent_def confirm_def scheduleAfterConfirm_policy)

lemma policyPresent_handleHoldExpire: "policyPresent s \<Longrightarrow> policyPresent (handleHoldExpire now b s)"
  by (auto simp: policyPresent_def handleHoldExpire_def Let_def split: option.splits)

text \<open>
  C2. A hold request that reaches the transaction (well-formed body, non-empty range)
  is rejected with BlackoutConflict when a date of its range is blacked out, and with
  RangeUnavailable when fewer day rows were inserted than days requested. In both cases
  the response is a 409 and the state afterwards is the state before: no booking,
  customer or day row of the aborted transaction remains, and no job is enqueued.
\<close>

theorem rejected_hold_rolls_back:
  assumes "policyPresent s"
    and "fromISO (reqStartDate req) = Some a" and "fromISO (reqEndDateExclusive req) = Some b"
    and "reqEmailValid req" and "a < b"
  shows "((\<exists>x \<in> set (blackouts s). a \<le> x \<and> x < b) \<longrightarrow>
            createHold e now req s = (Inl BlackoutConflict, s))
       \<and> (\<not> (\<exists>x \<in> set (blackouts s). a \<le> x \<and> x < b)
            \<and> fst (createManySkipDuplicates
                      (createInput (freshId (map bid (bookings s)))
                         (now + minutesToMs (holdTtlMinutes e)) (datesLoop a b))
                      (clearExpiredHolds now (bookedDays s)))
                < length (enumerateDates (reqStartDate req) (reqEndDateExclusive req)) \<longrightarrow>
            createHold e now req s = (Inl RangeUnavailable, s))
       \<and> holdHttpStatus (Inl BlackoutConflict :: holdError + string \<times> int) = 409
       \<and> holdHttpStatus (Inl RangeUnavailable :: holdError + string \<times> int) = 409"
proof -
  let ?rows = "createInput (freshId (map bid (bookings s)))
                 (now + minutesToMs (holdTtlMinutes e)) (datesLoop a b)"
  let ?tbl = "clearExpiredHolds now (bookedDays s)"
  have black: "createHold e now req s = (Inl BlackoutConflict, s)"
    if "\<exists>x \<in> set (blackouts s). a \<le> x \<and> x < b"
    using that by (rule createHold_blackout [OF assms(2-5)])
  have short: "createHold e now req s = (Inl RangeUnavailable, s)"
    if nb: "\<not> (\<exists>x \<in> set (blackouts s). a \<le> x \<and> x < b)"
      and c: "fst (createManySkipDuplicates ?rows ?tbl)
                < length (enumerateDates (reqStartDate req) (reqEndDateExclusive req))"
  proof -
    have ne: "fst (createManySkipDuplicates ?rows ?tbl) \<noteq> length (datesLoop a b)"
      using c by (simp add: enumerateDates_length [OF assms(2,3)])
    have "?tbl \<noteq> []"
      using ne datesLoop_distinct [OF fromISO_valid [OF assms(2)]] by (rule createMany_short_nonempty)
    then have "bookedDays s \<noteq> []" by (rule clearExpiredHolds_nonempty)
    then have "policyRow s \<noteq> None" using assms(1) by (simp add: policyPresent_def)
    then have "snd (getOrCreateDefaultPolicy e (policyRow s)) = policyRow s"
      by (rule getOrCreateDefaultPolicy_existing)
    then show ?thesis
      using createHold_unavailable [OF assms(2-5) nb ne] by simp
  qed
  show ?thesis using black short by (simp add: holdHttpStatus_def)
qed

lemma overlap_parse:
  "fromISO (reqStartDate overlapRequest) = Some (2025, 3, 11)"
  "fromISO (reqEndDateExclusive overlapRequest) = Some (2025, 3, 14)"
  by (simp_all add: overlapRequest_def parse_simps)

lemma overlap_dates:
  "datesLoop (2025, 3, 11) (2025, 3, 14) = [(2025, 3, 11), (2025, 3, 12), (2025, 3, 13)]"
  by (simp add: datesLoop.simps plusDay_def daysInMonth_def)

lemma march_success:
  assumes "blackouts s = [] \<or> blackouts s = [(2025, 3, 13)]" and "bookedDays s = []"
  shows "fst (createManySkipDuplicates
                (createInput (freshId (map bid (bookings s)))
                   (now + minutesToMs (holdTtlMinutes e)) (datesLoop (2025, 3, 10) (2025, 3, 13)))
                (clearExpiredHolds now (bookedDays s)))
              = length (datesLoop (2025, 3, 10) (2025, 3, 13))"
    and "\<not> (\<exists>x \<in> set (blackouts s). (2025, 3, 10) \<le> x \<and> x < (2025, 3, 13))"
proof -
  show "fst (createManySkipDuplicates
                (createInput (freshId (map bid (bookings s)))
                   (now + minutesToMs (holdTtlMinutes e)) (datesLoop (2025, 3, 10) (2025, 3, 13)))
                (clearExpiredHolds now (bookedDays s)))
              = length (datesLoop (2025, 3, 10) (2025, 3, 13))"
    using createMany_full_iff
      [of "createInput (freshId (map bid (bookings s)))
             (now + minutesToMs (holdTtlMinutes e)) (datesLoop (2025, 3, 10) (2025, 3, 13))" "[]"]
    by (simp add: assms(2) clearExpiredHolds_Nil createInput_days createInput_length march_dates)
  show "\<not> (\<exists>x \<in> set (blackouts s). (2025, 3, 10) \<le> x \<and> x < (2025, 3, 13))"
    using assms(1) by auto
qed

lemma march_valid: "reqEmailValid marchRequest" "((2025, 3, 10) :: date) < (2025, 3, 13)"
  by (simp_all add: marchRequest_def)

lemma heldState_rows:
  "bookedDays heldState = createInput ''c'' 900000 [(2025, 3, 10), (2025, 3, 11), (2025, 3, 12)]"
  "blackouts heldState = []"
  "policyRow heldState \<noteq> None"
  "fst (createHold env0 0 marchRequest emptyState) = Inr (''c'', 900000)"
proof -
  have e: "blackouts emptyState = [] \<or> blackouts emptyState = [(2025, 3, 13)]" "bookedDays emptyState = []"
    "bookings emptyState = []" "policyRow emptyState = None"
    by (simp_all add: emptyState_def)
  note ok = createHold_success [OF march_parse march_valid march_success(2) [OF e(1,2)]
      march_success(1) [OF e(1,2)], where e = env0 and now = 0]
  have c: "freshId [] = ''c''" "minutesToMs (holdTtlMinutes env0) = 900000"
    by (simp_all add: freshId_def minutesToMs_def env0_def)
  show "bookedDays heldState = createInput ''c'' 900000 [(2025, 3, 10), (2025, 3, 11), (2025, 3, 12)]"
    using ok(2) by (simp add: heldState_def c e clearExpiredHolds_Nil march_dates)
  show "blackouts heldState = []" using ok(4) by (simp add: heldState_def emptyState_def)
  show "policyRow heldState \<noteq> None"
    using ok(3) getOrCreateDefaultPolicy_row by (simp add: heldState_def)
  show "fst (createHold env0 0 marchRequest emptyState) = Inr (''c'', 900000)"
    using ok(1) by (simp add: c e)
qed

lemma clearExpiredHolds_createInput_keep:
  "\<not> ex < now \<Longrightarrow> clearExpiredHolds now (createInput b ex ds) = createInput b ex ds"
  by (simp add: clearExpiredHolds_def createInput_def expiredHold_def filter_map comp_def)

lemma clearExpiredHolds_createInput_drop:
  "ex < now \<Longrightarrow> clearExpiredHolds now (createInput b ex ds) = []"
  by (simp add: clearExpiredHolds_def createInput_def expiredHold_def filter_map comp_def)

lemma clearExpiredHolds_append:
  "clearExpiredHolds now (xs @ ys) = clearExpiredHolds now xs @ clearExpiredHolds now ys"
  by (simp add: clearExpiredHolds_def)

lemma createMany_short:
  assumes "d \<in> set ds" and "d \<in> set (map day tbl)"
  shows "fst (createManySkipDuplicates (createInput b ex ds) tbl) < length ds"
proof -
  have "fst (createManySkipDuplicates (createInput b ex ds) tbl) \<noteq> length (createInput b ex ds)"
    using assms by (simp only: createMany_full_iff createInput_days) blast
  then show ?thesis
    using createMany_count_le [of "createInput b ex ds" tbl] by (simp add: createInput_length)
qed

theorem rejected_hold_rolls_back_witness:
  "policyPresent heldState
   \<and> fromISO (reqStartDate overlapRequest) = Some (2025, 3, 11)
   \<and> fromISO (reqEndDateExclusive overlapRequest) = Some (2025, 3, 14)
   \<and> reqEmailValid overlapRequest
   \<and> createHold env0 0 overlapRequest heldState = (Inl RangeUnavailable, heldState)
   \<and> policyPresent blackoutState
   \<and> createHold env0 0 overlapRequest blackoutState = (Inl BlackoutConflict, blackoutState)"
proof -
  have v: "reqEmailValid overlapRequest" by (simp add: overlapRequest_def)
  have lt: "((2025, 3, 11) :: date) < (2025, 3, 14)" by simp
  have p1: "policyPresent heldState" using heldState_rows(3) by (simp add: policyPresent_def)
  have p2: "policyPresent blackoutState" by (simp add: policyPresent_def blackoutState_def emptyState_def)
  have nb: "\<not> (\<exists>x \<in> set (blackouts heldState). (2025, 3, 11) \<le> x \<and> x < (2025, 3, 14))"
    by (simp add: heldState_rows(2))
  have bl: "\<exists>x \<in> set (blackouts blackoutState). (2025, 3, 11) \<le> x \<and> x < (2025, 3, 14)"
    by (simp add: blackoutState_def)
  have len: "length (enumerateDates (reqStartDate overlapRequest) (reqEndDateExclusive overlapRequest))
               = length (datesLoop (2025, 3, 11) (2025, 3, 14))"
    using overlap_parse by (rule enumerateDates_length)
  have keep: "clearExpiredHolds 0 (bookedDays heldState) = bookedDays heldState"
    by (simp add: heldState_rows(1) clearExpiredHolds_createInput_keep)
  have m: "map day (clearExpiredHolds 0 (bookedDays heldState))
             = [(2025, 3, 10), (2025, 3, 11), (2025, 3, 12)]"
    by (simp only: keep) (simp only: heldState_rows(1) createInput_days)
  have "(2025, 3, 11) \<in> set (datesLoop (2025, 3, 11) (2025, 3, 14))"
    "(2025, 3, 11) \<in> set (map day (clearExpiredHolds 0 (bookedDays heldState)))"
    by (simp_all only: overlap_dates m) simp_all
  then have short: "fst (createManySkipDuplicates
                      (createInput (freshId (map bid (bookings heldState)))
                         (0 + minutesToMs (holdTtlMinutes env0)) (datesLoop (2025, 3, 11) (2025, 3, 14)))
                      (clearExpiredHolds 0 (bookedDays heldState)))
                < length (enumerateDates (reqStartDate overlapRequest) (reqEndDateExclusive overlapRequest))"
    unfolding len by (rule createMany_short)
  show ?thesis
    using rejected_hold_rolls_back [OF p1 overlap_parse v lt, where e = env0 and now = 0]
      rejected_hold_rolls_back [OF p2 overlap_parse v lt, where e = env0 and now = 0]
      p1 p2 overlap_parse v nb bl short
    by blast
qed

section \<open>Mutual exclusion of holds\<close>

lemma createHold_Inr_dates:
  assumes "fst (createHold e now req s) = Inr r"
  shows "\<exists>a b. fromISO (reqStartDate req) = Some a \<and> fromISO (reqEndDateExclusive req) = Some b
           \<and> a < b
           \<and> r = (freshId (map bid (bookings s)), now + minutesToMs (holdTtlMinutes e))
           \<and> fst (createManySkipDuplicates (createInput (fst r) (snd r) (datesLoop a b))
                   (clearExpiredHolds now (bookedDays s))) = length (datesLoop a b)
           \<and> bookedDays (snd (createHold e now req s))
               = clearExpiredHolds now (bookedDays s) @ createInput (fst r) (snd r) (datesLoop a b)
           \<and> policyRow (snd (createHold e now req s)) \<noteq> None
           \<and> blackouts (snd (createHold e now req s)) = blackouts s"
proof -
  obtain a b where p: "fromISO (reqStartDate req) = Some a" "fromISO (reqEndDateExclusive req) = Some b"
    and v: "reqEmailValid req" and lt: "a < b"
    using createHold_Inr_parsed [OF assms] by blast
  let ?ds = "datesLoop a b"
  let ?rows = "createInput (freshId (map bid (bookings s))) (now + minutesToMs (holdTtlMinutes e)) ?ds"
  have nb: "\<not> (\<exists>x \<in> set (blackouts s). a \<le> x \<and> x < b)"
  proof
    assume "\<exists>x \<in> set (blackouts s). a \<le> x \<and> x < b"
    then have "createHold e now req s = (Inl BlackoutConflict, s)"
      by (rule createHold_blackout [OF p v lt])
    then show False using assms by simp
  qed
  have full: "fst (createManySkipDuplicates ?rows (clearExpiredHolds now (bookedDays s))) = length ?ds"
  proof (rule ccontr)
    assume "fst (createManySkipDuplicates ?rows (clearExpiredHolds now (bookedDays s))) \<noteq> length ?ds"
    then have "createHold e now req s
        = (Inl RangeUnavailable, s\<lparr>policyRow := snd (getOrCreateDefaultPolicy e (policyRow s))\<rparr>)"
      by (rule createHold_unavailable [OF p v lt nb])
    then show False using assms by simp
  qed
  have r: "r = (freshId (map bid (bookings s)), now + minutesToMs (holdTtlMinutes e))"
    using assms createHold_success(1) [OF p v lt nb full] by simp
  show ?thesis
    using createHold_success(2,3,4) [OF p v lt nb full] full p lt
      getOrCreateDefaultPolicy_row [of e "policyRow s"]
    by (simp only: r fst_conv snd_conv) blast
qed

lemma createHold_success_bookings:
  assumes "fromISO (reqStartDate req) = Some a" and "fromISO (reqEndDateExclusive req) = Some b"
    and "reqEmailValid req" and "a < b"
    and "\<not> (\<exists>x \<in> set (blackouts s). a \<le> x \<and> x < b)"
    and "fst (createManySkipDuplicates
                (createInput (freshId (map bid (bookings s))) (now + minutesToMs (holdTtlMinutes e))
                   (datesLoop a b))
                (clearExpiredHolds now (bookedDays s))) = length (datesLoop a b)"
  shows "map bid (bookings (snd (createHold e now req s)))
           = map bid (bookings s) @ [freshId (map bid (bookings s))]"
  using assms(6)
  by (simp only: createHold_free [OF assms(1-5)] holdTransaction_free [OF assms(1,2,5)] Let_def)
     simp

lemma common_date:
  assumes "fromISO s1 = Some a1" and "fromISO e1 = Some b1"
    and "fromISO s2 = Some a2" and "fromISO e2 = Some b2"
    and "set (enumerateDates s1 e1) \<inter> set (enumerateDates s2 e2) \<noteq> {}"
  shows "\<exists>d. d \<in> set (datesLoop a1 b1) \<and> d \<in> set (datesLoop a2 b2)"
proof -
  obtain x where x1: "x \<in> set (enumerateDates s1 e1)" and x2: "x \<in> set (enumerateDates s2 e2)"
    using assms(5) by blast
  obtain d1 where d1: "d1 \<in> set (datesLoop a1 b1)" "x = toISODate d1"
    using x1 by (auto simp: enumerateDates_datesLoop [OF assms(1,2)])
  obtain d2 where d2: "d2 \<in> set (datesLoop a2 b2)" "x = toISODate d2"
    using x2 by (auto simp: enumerateDates_datesLoop [OF assms(3,4)])
  have "fromISO x = Some d1" "fromISO x = Some d2"
    using datesLoop_parse_back [OF assms(1,2) d1(1)] datesLoop_parse_back [OF assms(3,4) d2(1)] d1(2) d2(2)
    by simp_all
  then have "d1 = d2" by simp
  then show ?thesis using d1(1) d2(1) by blast
qed

lemma second_hold_rejected:
  assumes first: "fst (createHold e now req s) = Inr r"
    and overlap: "set (enumerateDates (reqStartDate req) (reqEndDateExclusive req))
                  \<inter> set (enumerateDates (reqStartDate req2) (reqEndDateExclusive req2)) \<noteq> {}"
    and v2: "reqEmailValid req2" and live: "now2 \<le> snd r"
    and p2: "fromISO (reqStartDate req2) = Some a2" "fromISO (reqEndDateExclusive req2) = Some b2"
  shows "createHold e now2 req2 (snd (createHold e now req s))
           = (if \<exists>x \<in> set (blackouts s). a2 \<le> x \<and> x < b2 then Inl BlackoutConflict
              else Inl RangeUnavailable,
              snd (createHold e now req s))"
proof -
  let ?s1 = "snd (createHold e now req s)"
  obtain a b where p: "fromISO (reqStartDate req) = Some a" "fromISO (reqEndDateExclusive req) = Some b"
    and rows: "bookedDays ?s1
               = clearExpiredHolds now (bookedDays s) @ createInput (fst r) (snd r) (datesLoop a b)"
    and pol: "policyRow ?s1 \<noteq> None" and bl: "blackouts ?s1 = blackouts s"
    using createHold_Inr_dates [OF first] by blast
  obtain d where d: "d \<in> set (datesLoop a b)" "d \<in> set (datesLoop a2 b2)"
    using common_date [OF p p2 overlap] by blast
  have lt2: "a2 < b2" using d(2) datesLoop_empty_iff [of a2 b2] by auto
  show ?thesis
  proof (cases "\<exists>x \<in> set (blackouts s). a2 \<le> x \<and> x < b2")
    case True
    then have "\<exists>x \<in> set (blackouts ?s1). a2 \<le> x \<and> x < b2" by (simp add: bl)
    then have "createHold e now2 req2 ?s1 = (Inl BlackoutConflict, ?s1)"
      by (rule createHold_blackout [OF p2 v2 lt2])
    then show ?thesis using True by simp
  next
    case False
    then have nb: "\<not> (\<exists>x \<in> set (blackouts ?s1). a2 \<le> x \<and> x < b2)" by (simp add: bl)
    have "clearExpiredHolds now2 (createInput (fst r) (snd r) (datesLoop a b))
            = createInput (fst r) (snd r) (datesLoop a b)"
      using live by (simp add: clearExpiredHolds_createInput_keep)
    then have "d \<in> set (map day (clearExpiredHolds now2 (bookedDays ?s1)))"
      using d(1) by (simp add: rows clearExpiredHolds_append createInput_days)
    then have "fst (createManySkipDuplicates
                (createInput (freshId (map bid (bookings ?s1))) (now2 + minutesToMs (holdTtlMinutes e))
                   (datesLoop a2 b2))
                (clearExpiredHolds now2 (bookedDays ?s1))) < length (datesLoop a2 b2)"
      using d(2) by (intro createMany_short)
    then have "createHold e now2 req2 ?s1
        = (Inl RangeUnavailable, ?s1\<lparr>policyRow := snd (getOrCreateDefaultPolicy e (policyRow ?s1))\<rparr>)"
      by (intro createHold_unavailable [OF p2 v2 lt2 nb]) simp
    then show ?thesis
      using False getOrCreateDefaultPolicy_existing [OF pol, of e] by simp
  qed
qed

lemma success_means_free:
  assumes "fst (createHold e now req s) = Inr r"
    and "fromISO (reqStartDate req) = Some a" and "fromISO (reqEndDateExclusive req) = Some b"
  shows "(\<forall>row \<in> set (clearExpiredHolds now (bookedDays s)).
            \<not> (validDate (day row) \<and> a \<le> day row \<and> day row < b))
       \<and> fst (createManySkipDuplicates (createInput (fst r) (snd r) (datesLoop a b))
               (clearExpiredHolds now (bookedDays s))) = length (datesLoop a b)"
proof -
  obtain a' b' where p: "fromISO (reqStartDate req) = Some a'" "fromISO (reqEndDateExclusive req) = Some b'"
    and full: "fst (createManySkipDuplicates (createInput (fst r) (snd r) (datesLoop a' b'))
                   (clearExpiredHolds now (bookedDays s))) = length (datesLoop a' b')"
    using createHold_Inr_dates [OF assms(1)] by blast
  have ab: "a' = a" "b' = b" using p assms(2,3) by simp_all
  have "fst (createManySkipDuplicates (createInput (fst r) (snd r) (datesLoop a b))
               (clearExpiredHolds now (bookedDays s)))
          = length (createInput (fst r) (snd r) (datesLoop a b))"
    using full by (simp add: ab createInput_length)
  then have "set (datesLoop a b) \<inter> set (map day (clearExpiredHolds now (bookedDays s))) = {}"
    by (simp only: createMany_full_iff createInput_days)
  then have "\<forall>row \<in> set (clearExpiredHolds now (bookedDays s)).
            \<not> (validDate (day row) \<and> a \<le> day row \<and> day row < b)"
    using datesLoop_set [OF fromISO_valid [OF assms(2)], of b] by auto
  then show ?thesis using full by (simp add: ab)
qed

lemma insert_decides:
  assumes "fromISO (reqStartDate req) = Some a" and "fromISO (reqEndDateExclusive req) = Some b"
    and "reqEmailValid req" and "a < b"
    and "\<not> (\<exists>x \<in> set (blackouts s). a \<le> x \<and> x < b)"
  shows "if fst (createManySkipDuplicates
                  (createInput (freshId (map bid (bookings s))) (now + minutesToMs (holdTtlMinutes e))
                     (datesLoop a b))
                  (clearExpiredHolds now (bookedDays s))) = length (datesLoop a b)
         then fst (createHold e now req s)
                = Inr (freshId (map bid (bookings s)), now + minutesToMs (holdTtlMinutes e))
              \<and> bookedDays (snd (createHold e now req s))
                = clearExpiredHolds now (bookedDays s)
                  @ createInput (freshId (map bid (bookings s))) (now + minutesToMs (holdTtlMinutes e))
                      (datesLoop a b)
         else createHold e now req s
                = (Inl RangeUnavailable, s\<lparr>policyRow := snd (getOrCreateDefaultPolicy e (policyRow s))\<rparr>)"
proof (cases "fst (createManySkipDuplicates
                  (createInput (freshId (map bid (bookings s))) (now + minutesToMs (holdTtlMinutes e))
                     (datesLoop a b))
                  (clearExpiredHolds now (bookedDays s))) = length (datesLoop a b)")
  case True
  show ?thesis
    using createHold_success(1,2) [OF assms True] True by simp
next
  case False
  show ?thesis
    using createHold_unavailable [OF assms False] False by simp
qed

text \<open>
  C1. No two rows of the day table share a date, and hold creation, confirmation and
  hold expiry keep it so. When a hold has succeeded, a second well-formed request on an
  overlapping range that runs while that hold is live (not later than its expiry, as a
  concurrent request does) is rejected and leaves the state as it was, so at most one of
  the two succeeds; the rejection is RangeUnavailable, unless the second request's own
  range meets a blackout, which is checked before the insert and answered with
  BlackoutConflict. Hold creation decides by the insert itself: a well-formed request on
  a non-empty range free of blackouts succeeds, storing one row for every requested
  date, exactly when \<open>createMany\<close> inserted a row for every requested date, and is
  rejected with RangeUnavailable otherwise; a request that succeeded found no row left
  on its dates after the cleanup of expired holds.
\<close>

theorem hold_mutual_exclusion:
  "(uniqueDays s \<longrightarrow>
      uniqueDays (snd (createHold e now req s)) \<and> uniqueDays (confirm e now b pi c s)
      \<and> uniqueDays (handleHoldExpire now b s))
   \<and> (fst (createHold e now req s) = Inr r
        \<and> set (enumerateDates (reqStartDate req) (reqEndDateExclusive req))
            \<inter> set (enumerateDates (reqStartDate req2) (reqEndDateExclusive req2)) \<noteq> {}
        \<and> reqEmailValid req2 \<and> now2 \<le> snd r
        \<and> fromISO (reqStartDate req2) = Some a2 \<and> fromISO (reqEndDateExclusive req2) = Some b2
      \<longrightarrow> createHold e now2 req2 (snd (createHold e now req s))
            = (if \<exists>x \<in> set (blackouts s). a2 \<le> x \<and> x < b2 then Inl BlackoutConflict
               else Inl RangeUnavailable,
               snd (createHold e now req s)))
   \<and> (fst (createHold e now req s) = Inr r
        \<and> fromISO (reqStartDate req) = Some a1 \<and> fromISO (reqEndDateExclusive req) = Some b1
      \<longrightarrow> (\<forall>row \<in> set (clearExpiredHolds now (bookedDays s)).
              \<not> (validDate (day row) \<and> a1 \<le> day row \<and> day row < b1))
          \<and> fst (createManySkipDuplicates (createInput (fst r) (snd r) (datesLoop a1 b1))
                  (clearExpiredHolds now (bookedDays s))) = length (datesLoop a1 b1))
   \<and> (fromISO (reqStartDate req) = Some a1 \<and> fromISO (reqEndDateExclusive req) = Some b1
        \<and> reqEmailValid req \<and> a1 < b1 \<and> \<not> (\<exists>x \<in> set (blackouts s). a1 \<le> x \<and> x < b1)
      \<longrightarrow> (if fst (createManySkipDuplicates
                     (createInput (freshId (map bid (bookings s))) (now + minutesToMs (holdTtlMinutes e))
                        (datesLoop a1 b1))
                     (clearExpiredHolds now (bookedDays s))) = length (datesLoop a1 b1)
           then fst (createHold e now req s)
                  = Inr (freshId (map bid (bookings s)), now + minutesToMs (holdTtlMinutes e))
                \<and> bookedDays (snd (createHold e now req s))
                  = clearExpiredHolds now (bookedDays s)
                    @ createInput (freshId (map bid (bookings s))) (now + minutesToMs (holdTtlMinutes e))
                        (datesLoop a1 b1)
           else createHold e now req s
                  = (Inl RangeUnavailable,
                     s\<lparr>policyRow := snd (getOrCreateDefaultPolicy e (policyRow s))\<rparr>)))"
proof -
  have inv: "uniqueDays s \<longrightarrow>
      uniqueDays (snd (createHold e now req s)) \<and> uniqueDays (confirm e now b pi c s)
      \<and> uniqueDays (handleHoldExpire now b s)"
    using uniqueDays_createHold [of s e now req] uniqueDays_confirm [of s e now b pi c]
      uniqueDays_handleHoldExpire [of s now b]
    by blast
  have second: "fst (createHold e now req s) = Inr r
        \<and> set (enumerateDates (reqStartDate req) (reqEndDateExclusive req))
            \<inter> set (enumerateDates (reqStartDate req2) (reqEndDateExclusive req2)) \<noteq> {}
        \<and> reqEmailValid req2 \<and> now2 \<le> snd r
        \<and> fromISO (reqStartDate req2) = Some a2 \<and> fromISO (reqEndDateExclusive req2) = Some b2
      \<longrightarrow> createHold e now2 req2 (snd (createHold e now req s))
            = (if \<exists>x \<in> set (blackouts s). a2 \<le> x \<and> x < b2 then Inl BlackoutConflict
               else Inl RangeUnavailable,
               snd (createHold e now req s))"
    using second_hold_rejected [of e now req s r req2 now2 a2 b2] by blast
  have free: "fst (createHold e now req s) = Inr r
        \<and> fromISO (reqStartDate req) = Some a1 \<and> fromISO (reqEndDateExclusive req) = Some b1
      \<longrightarrow> (\<forall>row \<in> set (clearExpiredHolds now (bookedDays s)).
              \<not> (validDate (day row) \<and> a1 \<le> day row \<and> day row < b1))
          \<and> fst (createManySkipDuplicates (createInput (fst r) (snd r) (datesLoop a1 b1))
                  (clearExpiredHolds now (bookedDays s))) = length (datesLoop a1 b1)"
    using success_means_free [of e now req s r a1 b1] by blast
  have decide: "fromISO (reqStartDate req) = Some a1 \<and> fromISO (reqEndDateExclusive req) = Some b1
        \<and> reqEmailValid req \<and> a1 < b1 \<and> \<not> (\<exists>x \<in> set (blackouts s). a1 \<le> x \<and> x < b1)
      \<longrightarrow> (if fst (createManySkipDuplicates
                     (createInput (freshId (map bid (bookings s))) (now + minutesToMs (holdTtlMinutes e))
                        (datesLoop a1 b1))
                     (clearExpiredHolds now (bookedDays s))) = length (datesLoop a1 b1)
           then fst (createHold e now req s)
                  = Inr (freshId (map bid (bookings s)), now + minutesToMs (holdTtlMinutes e))
                \<and> bookedDays (snd (createHold e now req s))
                  = clearExpiredHolds now (bookedDays s)
                    @ createInput (freshId (map bid (bookings s))) (now + minutesToMs (holdTtlMinutes e))
                        (datesLoop a1 b1)
           else createHold e now req s
                  = (Inl RangeUnavailable,
                     s\<lparr>policyRow := snd (getOrCreateDefaultPolicy e (policyRow s))\<rparr>))"
    using insert_decides [of req a1 b1 s now e] by blast
  show ?thesis
    using inv second free decide by (intro conjI)
qed

lemma overlap_print: "toISODate (2025, 3, 13) = ''2025-03-13''"
proof -
  have "fromISO ''2025-03-13'' = Some (2025, 3, 13)" by (simp add: parse_simps)
  then show ?thesis using toISODate_fromISO by blast
qed

lemma overlap_enumerate:
  "enumerateDates (reqStartDate overlapRequest) (reqEndDateExclusive overlapRequest)
     = [''2025-03-11'', ''2025-03-12'', ''2025-03-13'']"
  by (simp add: enumerateDates_datesLoop [OF overlap_parse] overlap_dates march_print overlap_print)

lemma overlap_valid: "reqEmailValid overlapRequest" "((2025, 3, 11) :: date) < (2025, 3, 14)"
  by (simp_all add: overlapRequest_def)

theorem hold_mutual_exclusion_witness:
  "uniqueDays emptyState
   \<and> uniqueDays (snd (createHold env0 0 marchRequest emptyState))
   \<and> fromISO (reqStartDate marchRequest) = Some (2025, 3, 10)
   \<and> fromISO (reqEndDateExclusive marchRequest) = Some (2025, 3, 13)
   \<and> reqEmailValid marchRequest \<and> ((2025, 3, 10) :: date) < (2025, 3, 13)
   \<and> blackouts emptyState = [] \<and> bookedDays emptyState = []
   \<and> fst (createHold env0 0 marchRequest emptyState) = Inr (''c'', 900000)
   \<and> bookedDays (snd (createHold env0 0 marchRequest emptyState))
        = createInput ''c'' 900000 [(2025, 3, 10), (2025, 3, 11), (2025, 3, 12)]
   \<and> set (enumerateDates (reqStartDate marchRequest) (reqEndDateExclusive marchRequest))
        \<inter> set (enumerateDates (reqStartDate overlapRequest) (reqEndDateExclusive overlapRequest))
        = {''2025-03-11'', ''2025-03-12''}
   \<and> reqEmailValid overlapRequest \<and> (0::int) \<le> snd (''c'', 900000 :: int)
   \<and> createHold env0 0 overlapRequest (snd (createHold env0 0 marchRequest emptyState))
        = (Inl RangeUnavailable, snd (createHold env0 0 marchRequest emptyState))"
proof -
  have u: "uniqueDays emptyState" by (simp add: uniqueDays_def emptyState_def)
  have es: "blackouts emptyState = []" "bookedDays emptyState = []" "bookings emptyState = []"
    by (simp_all add: emptyState_def)
  have c: "freshId [] = ''c''" "minutesToMs (holdTtlMinutes env0) = 900000"
    by (simp_all add: freshId_def minutesToMs_def env0_def)
  have nb1: "\<not> (\<exists>x \<in> set (blackouts emptyState). (2025, 3, 10) \<le> x \<and> x < (2025, 3, 13))"
    by (simp add: es)
  have full: "fst (createManySkipDuplicates
                (createInput (freshId (map bid (bookings emptyState)))
                   (0 + minutesToMs (holdTtlMinutes env0)) (datesLoop (2025, 3, 10) (2025, 3, 13)))
                (clearExpiredHolds 0 (bookedDays emptyState)))
              = length (datesLoop (2025, 3, 10) (2025, 3, 13))"
    by (rule march_success(1)) (simp_all add: es)
  note t1 = hold_mutual_exclusion [where s = emptyState and e = env0 and now = 0 and req = marchRequest
        and r = "(''c'', 900000)" and ?req2.0 = overlapRequest and ?now2.0 = 0
        and ?a2.0 = "(2025, 3, 11)" and ?b2.0 = "(2025, 3, 14)"
        and ?a1.0 = "(2025, 3, 10)" and ?b1.0 = "(2025, 3, 13)"
        and b = "''c''" and pi = "''pi_1''" and c = None]
  note t_inv = t1 [THEN conjunct1]
  note t_second = t1 [THEN conjunct2, THEN conjunct1]
  note t_decide = t1 [THEN conjunct2, THEN conjunct2, THEN conjunct2]
  have h4: "fromISO (reqStartDate marchRequest) = Some (2025, 3, 10)
        \<and> fromISO (reqEndDateExclusive marchRequest) = Some (2025, 3, 13)
        \<and> reqEmailValid marchRequest \<and> ((2025, 3, 10) :: date) < (2025, 3, 13)
        \<and> \<not> (\<exists>x \<in> set (blackouts emptyState). (2025, 3, 10) \<le> x \<and> x < (2025, 3, 13))"
    using march_parse march_valid nb1 by (intro conjI)
  note won = mp [OF t_decide h4, unfolded if_P [OF full]]
  have f1: "fst (createHold env0 0 marchRequest emptyState) = Inr (''c'', 900000)"
    using won by (simp add: es c)
  have rows: "bookedDays (snd (createHold env0 0 marchRequest emptyState))
        = createInput ''c'' 900000 [(2025, 3, 10), (2025, 3, 11), (2025, 3, 12)]"
    using won by (simp add: es c clearExpiredHolds_Nil march_dates)
  have o: "set (enumerateDates (reqStartDate marchRequest) (reqEndDateExclusive marchRequest))
        \<inter> set (enumerateDates (reqStartDate overlapRequest) (reqEndDateExclusive overlapRequest))
        = {''2025-03-11'', ''2025-03-12''}"
    by (simp add: march_enumerate overlap_enumerate) 
  then have o': "set (enumerateDates (reqStartDate marchRequest) (reqEndDateExclusive marchRequest))
        \<inter> set (enumerateDates (reqStartDate overlapRequest) (reqEndDateExclusive overlapRequest)) \<noteq> {}"
    by (simp only:) simp
  have n: "\<not> (\<exists>x \<in> set (blackouts emptyState). (2025, 3, 11) \<le> x \<and> x < (2025, 3, 14))"
    by (simp add: emptyState_def)
  have l: "(0::int) \<le> snd (''c'', 900000 :: int)" by simp
  have inv: "uniqueDays (snd (createHold env0 0 marchRequest emptyState))"
    using mp [OF t_inv u] by (rule conjunct1)
  have h2: "fst (createHold env0 0 marchRequest emptyState) = Inr (''c'', 900000)
        \<and> set (enumerateDates (reqStartDate marchRequest) (reqEndDateExclusive marchRequest))
            \<inter> set (enumerateDates (reqStartDate overlapRequest) (reqEndDateExclusive overlapRequest)) \<noteq> {}
        \<and> reqEmailValid overlapRequest \<and> 0 \<le> snd (''c'', 900000 :: int)
        \<and> fromISO (reqStartDate overlapRequest) = Some (2025, 3, 11)
        \<and> fromISO (reqEndDateExclusive overlapRequest) = Some (2025, 3, 14)"
    using f1 o' overlap_valid(1) l overlap_parse by (intro conjI)
  note lost = mp [OF t_second h2, unfolded if_not_P [OF n]]
  show ?thesis
    using u inv march_parse march_valid es(1,2) f1 rows o overlap_valid(1) l lost
    by (intro conjI)
qed

section \<open>Hold expiry against confirmation\<close>

lemma find_map_status:
  "find (\<lambda>x. bid x = b) (map (\<lambda>x. if bid x = b then f x else x) bks) = Some bk
     \<Longrightarrow> (\<And>x. bid (f x) = bid x) \<Longrightarrow> \<exists>x. bk = f x"
  by (induction bks) (auto split: if_splits)

lemma upsertPayment_known_booking:
  "b \<in> set (map bid bks) \<Longrightarrow> payBookingId row = b \<Longrightarrow> upsertPayment key st row bks tbl \<noteq> None"
  by (simp add: upsertPayment_def)

lemma find_bid_mem: "find (\<lambda>x. bid x = b) bks = Some bk \<Longrightarrow> b \<in> set (map bid bks)"
  by (induction bks) (auto split: if_splits)

lemma confirmTransaction_status:
  assumes "find (\<lambda>x. bid x = b) (bookings (confirmTransaction b pi c s)) = Some bk"
  shows "status bk = CONFIRMED"
proof (cases "find (\<lambda>x. bid x = b) (bookings s)")
  case None
  then show ?thesis using assms by (simp add: confirmTransaction_def)
next
  case (Some bk0)
  have "b \<in> set (map bid (bookings s))" using Some by (rule find_bid_mem)
  then obtain tbl where u: "upsertPayment pi succeeded
                  \<lparr>payBookingId = b, stripePaymentIntentId = pi,
                   amount = depositAmount bk0, ptype = DEPOSIT, pstatus = succeeded\<rparr>
                  (bookings s) (payments s) = Some tbl"
    using upsertPayment_known_booking by fastforce
  show ?thesis
  proof (cases "status bk0 = CONFIRMED")
    case True
    then show ?thesis using assms Some u by (simp add: confirmTransaction_def Let_def)
  next
    case False
    then have "find (\<lambda>x. bid x = b)
                 (map (\<lambda>x. if bid x = b
                            then x\<lparr>status := CONFIRMED,
                                   stripeCustomerId := (case c of Some k \<Rightarrow> Some k | None \<Rightarrow> stripeCustomerId x)\<rparr>
                            else x) (bookings s)) = Some bk"
      using assms Some u by (simp add: confirmTransaction_def Let_def)
    then obtain x where "bk = x\<lparr>status := CONFIRMED,
                                   stripeCustomerId := (case c of Some k \<Rightarrow> Some k | None \<Rightarrow> stripeCustomerId x)\<rparr>"
      using find_map_status [where f = "\<lambda>x. x\<lparr>status := CONFIRMED,
                                   stripeCustomerId := (case c of Some k \<Rightarrow> Some k | None \<Rightarrow> stripeCustomerId x)\<rparr>"]
      by fastforce
    then show ?thesis by simp
  qed
qed

lemma scheduleAfterConfirm_bookings: "bookings (scheduleAfterConfirm e now b s) = bookings s"
  by (simp add: scheduleAfterConfirm_def Let_def split: option.splits prod.splits)

lemma confirm_status:
  "find (\<lambda>x. bid x = b) (bookings (confirm e now b pi c s)) = Some bk \<Longrightarrow> status bk = CONFIRMED"
  by (simp add: confirm_def scheduleAfterConfirm_bookings confirmTransaction_status)

lemma handleHoldExpire_not_held:
  "(\<forall>bk. find (\<lambda>x. bid x = b) (bookings s) = Some bk \<longrightarrow> status bk \<noteq> HELD)
     \<Longrightarrow> handleHoldExpire now b s = s"
  by (simp add: handleHoldExpire_def Let_def split: option.splits)

lemma find_bid: "find (\<lambda>x. bid x = b) bks = Some bk \<Longrightarrow> bid bk = b"
  by (induction bks) (auto split: if_splits)

lemma handleHoldExpire_active:
  assumes "bookedDaysHaveNoExpiry s"
    and "\<exists>d \<in> set (bookedDays s). bookingId d = b \<and> (\<exists>t. holdExpiresAt d = Some t \<and> t > now)"
  shows "handleHoldExpire now b s = s"
proof (cases "find (\<lambda>x. bid x = b) (bookings s)")
  case None
  then show ?thesis by (simp add: handleHoldExpire_def)
next
  case (Some bk)
  obtain d t where d: "d \<in> set (bookedDays s)" "bookingId d = b" "holdExpiresAt d = Some t" "t > now"
    using assms(2) by blast
  have "dstatus d = DayBOOKED \<longrightarrow> holdExpiresAt d = None"
    using assms(1) d(1) by (simp add: bookedDaysHaveNoExpiry_def list_all_iff)
  then have "dstatus d = DayHELD" using d(3) by (cases "dstatus d") simp_all
  then have "list_ex (\<lambda>d. dstatus d = DayHELD
                            \<and> (case holdExpiresAt d of Some t \<Rightarrow> t > now | None \<Rightarrow> False))
               (filter (\<lambda>d. bookingId d = bid bk) (bookedDays s))"
    using d find_bid [OF Some] by (auto simp: list_ex_iff)
  then show ?thesis using Some by (simp add: handleHoldExpire_def Let_def)
qed

lemma converted_all:
  "list_all (\<lambda>d. bookingId d = b \<longrightarrow> dstatus d = DayBOOKED)
     (map (\<lambda>d. if bookingId d = b \<and> dstatus d = DayHELD
                then d\<lparr>dstatus := DayBOOKED, holdExpiresAt := None\<rparr> else d) tbl)"
proof (induction tbl)
  case Nil
  then show ?case by simp
next
  case (Cons x xs)
  then show ?case by (cases "dstatus x") simp_all
qed

lemma converted_days:
  "d \<in> set (map (\<lambda>d. if bookingId d = b \<and> dstatus d = DayHELD
                        then d\<lparr>dstatus := DayBOOKED, holdExpiresAt := None\<rparr> else d) tbl)
     \<Longrightarrow> bookingId d = b \<Longrightarrow> dstatus d = DayBOOKED"
  using converted_all [of b tbl] unfolding list_all_iff by blast

lemma confirmTransaction_converts:
  assumes "find (\<lambda>x. bid x = b) (bookings s) = Some bk" and "status bk \<noteq> CONFIRMED"
    and "d \<in> set (bookedDays (confirmTransaction b pi c s))" and "bookingId d = b"
  shows "dstatus d = DayBOOKED"
proof -
  have "b \<in> set (map bid (bookings s))" using assms(1) by (rule find_bid_mem)
  then obtain tbl where u: "upsertPayment pi succeeded
                  \<lparr>payBookingId = b, stripePaymentIntentId = pi,
                   amount = depositAmount bk, ptype = DEPOSIT, pstatus = succeeded\<rparr>
                  (bookings s) (payments s) = Some tbl"
    using upsertPayment_known_booking by fastforce
  have "d \<in> set (map (\<lambda>d. if bookingId d = b \<and> dstatus d = DayHELD
                            then d\<lparr>dstatus := DayBOOKED, holdExpiresAt := None\<rparr> else d) (bookedDays s))"
    using assms(1,2,3) u by (simp add: confirmTransaction_def Let_def)
  then show ?thesis using assms(4) by (rule converted_days)
qed

lemma noExpiry_createHold:
  assumes "bookedDaysHaveNoExpiry s"
  shows "bookedDaysHaveNoExpiry (snd (createHold e now req s))"
proof (cases "fst (createHold e now req s)")
  case (Inl err)
  then show ?thesis
    using createHold_Inl_state [OF Inl] assms by (auto simp: bookedDaysHaveNoExpiry_def)
next
  case (Inr r)
  obtain ds where "bookedDays (snd (createHold e now req s))
             = clearExpiredHolds now (bookedDays s) @ createInput (fst r) (snd r) ds"
    using createHold_Inr_state [OF Inr] by blast
  then show ?thesis
    using assms
    by (auto simp: bookedDaysHaveNoExpiry_def clearExpiredHolds_def createInput_def list_all_iff)
qed

lemma noExpiry_confirm:
  assumes "bookedDaysHaveNoExpiry s"
  shows "bookedDaysHaveNoExpiry (confirm e now b pi c s)"
proof -
  have "list_all (\<lambda>d. dstatus d = DayBOOKED \<longrightarrow> holdExpiresAt d = None)
          (map (\<lambda>d. if bookingId d = b \<and> dstatus d = DayHELD
                     then d\<lparr>dstatus := DayBOOKED, holdExpiresAt := None\<rparr> else d) (bookedDays s))"
    using assms by (auto simp: bookedDaysHaveNoExpiry_def list_all_iff)
  then have "bookedDaysHaveNoExpiry (confirmTransaction b pi c s)"
    using assms
    by (simp add: bookedDaysHaveNoExpiry_def confirmTransaction_def Let_def split: option.splits)
  then show ?thesis
    by (simp add: bookedDaysHaveNoExpiry_def confirm_def scheduleAfterConfirm_days)
qed

lemma noExpiry_handleHoldExpire:
  "bookedDaysHaveNoExpiry s \<Longrightarrow> bookedDaysHaveNoExpiry (handleHoldExpire now b s)"
  by (simp add: bookedDaysHaveNoExpiry_def handleHoldExpire_def Let_def list_all_iff
      split: option.splits)

text \<open>
  C4. A hold-expiry job that runs after \<open>confirm\<close> has committed changes nothing: the
  booking found is CONFIRMED (and, when \<open>confirm\<close> did the conversion, its days are
  BOOKED), so the state after the job is the state before it. More generally the job
  changes nothing when the booking is missing or not HELD, or when one of its days still
  has a hold expiry in the future.
\<close>

theorem expireHold_is_noop:
  "handleHoldExpire now' b (confirm e now b pi c s) = confirm e now b pi c s
   \<and> (\<forall>bk. find (\<lambda>x. bid x = b) (bookings (confirm e now b pi c s)) = Some bk \<longrightarrow> status bk = CONFIRMED)
   \<and> (\<forall>bk d. find (\<lambda>x. bid x = b) (bookings s) = Some bk \<and> status bk \<noteq> CONFIRMED
          \<and> d \<in> set (bookedDays (confirm e now b pi c s)) \<and> bookingId d = b \<longrightarrow> dstatus d = DayBOOKED)
   \<and> ((\<forall>bk. find (\<lambda>x. bid x = b) (bookings s) = Some bk \<longrightarrow> status bk \<noteq> HELD)
        \<longrightarrow> handleHoldExpire now b s = s)
   \<and> (bookedDaysHaveNoExpiry s
        \<and> (\<exists>d \<in> set (bookedDays s). bookingId d = b \<and> (\<exists>t. holdExpiresAt d = Some t \<and> t > now))
        \<longrightarrow> handleHoldExpire now b s = s)"
proof -
  have st: "\<forall>bk. find (\<lambda>x. bid x = b) (bookings (confirm e now b pi c s)) = Some bk \<longrightarrow> status bk = CONFIRMED"
    using confirm_status by blast
  then have "\<forall>bk. find (\<lambda>x. bid x = b) (bookings (confirm e now b pi c s)) = Some bk \<longrightarrow> status bk \<noteq> HELD"
    by auto
  then have after: "handleHoldExpire now' b (confirm e now b pi c s) = confirm e now b pi c s"
    by (rule handleHoldExpire_not_held)
  have conv: "\<forall>bk d. find (\<lambda>x. bid x = b) (bookings s) = Some bk \<and> status bk \<noteq> CONFIRMED
          \<and> d \<in> set (bookedDays (confirm e now b pi c s)) \<and> bookingId d = b \<longrightarrow> dstatus d = DayBOOKED"
    using confirmTransaction_converts [of b s _ _ pi c]
    by (auto simp: confirm_def scheduleAfterConfirm_days)
  show ?thesis
    using after st conv handleHoldExpire_not_held [of b s now] handleHoldExpire_active [of s b now]
    by blast
qed

lemma heldState_bookings:
  "bookings heldState =
     [\<lparr>bid = ''c'', bookingCustomerId = ''c'', startDate = (2025, 3, 10),
       endDateExclusive = (2025, 3, 13), status = HELD, depositAmount = 20000,
       totalAmount = 150000, pricingSnapshot = (3, 50000, 150000), stripeCustomerId = None\<rparr>]"
proof -
  have es: "blackouts emptyState = [] \<or> blackouts emptyState = [(2025, 3, 13)]"
    "bookedDays emptyState = []"
    by (simp_all add: emptyState_def)
  note nb = march_success(2) [OF es]
  note full = march_success(1) [OF es, where e = env0 and now = 0]
  have "bookings (snd (createHold env0 0 marchRequest emptyState)) =
     [\<lparr>bid = ''c'', bookingCustomerId = ''c'', startDate = (2025, 3, 10),
       endDateExclusive = (2025, 3, 13), status = HELD, depositAmount = 20000,
       totalAmount = 150000, pricingSnapshot = (3, 50000, 150000), stripeCustomerId = None\<rparr>]"
    using full
    by (simp only: createHold_free [OF march_parse march_valid nb]
          holdTransaction_free [OF march_parse nb] Let_def)
       (simp add: emptyState_def env0_def freshId_def upsertCustomer_def Let_def march_dates
          getOrCreateDefaultPolicy_def computeDeposit_def)
  then show ?thesis by (simp only: heldState_def)
qed

theorem expireHold_is_noop_witness:
  "handleHoldExpire 1000000 ''c'' (confirm env0 0 ''c'' ''pi_1'' None heldState)
     = confirm env0 0 ''c'' ''pi_1'' None heldState
   \<and> (\<exists>bk. find (\<lambda>x. bid x = ''c'') (bookings heldState) = Some bk \<and> status bk = HELD)
   \<and> bookedDaysHaveNoExpiry heldState
   \<and> (\<exists>d \<in> set (bookedDays heldState). bookingId d = ''c'' \<and> (\<exists>t. holdExpiresAt d = Some t \<and> t > 0))
   \<and> handleHoldExpire 0 ''c'' heldState = heldState
   \<and> find (\<lambda>x. bid x = ''c'') (bookings emptyState) = None
   \<and> handleHoldExpire 0 ''c'' emptyState = emptyState
   \<and> bookedDays (handleHoldExpire 1000000 ''c'' heldState) = []"
proof -
  have f: "\<exists>bk. find (\<lambda>x. bid x = ''c'') (bookings heldState) = Some bk \<and> status bk = HELD"
    by (simp add: heldState_bookings)
  have i: "bookedDaysHaveNoExpiry heldState"
    by (simp add: bookedDaysHaveNoExpiry_def heldState_rows(1) createInput_def)
  have a: "\<exists>d \<in> set (bookedDays heldState). bookingId d = ''c'' \<and> (\<exists>t. holdExpiresAt d = Some t \<and> t > 0)"
    by (simp add: heldState_rows(1) createInput_def)
  have n: "find (\<lambda>x. bid x = ''c'') (bookings emptyState) = None"
    by (simp add: emptyState_def)
  have x: "bookedDays (handleHoldExpire 1000000 ''c'' heldState) = []"
    by (simp add: handleHoldExpire_def heldState_bookings heldState_rows(1) createInput_def Let_def)
  show ?thesis
    using expireHold_is_noop [where s = heldState and b = "''c''" and e = env0 and now = 0
        and now' = 1000000 and pi = "''pi_1''" and c = None]
      expireHold_is_noop [where s = emptyState and b = "''c''" and now = 0]
      f i a n x
    by (simp only:) simp
qed

section \<open>Webhook signature\<close>

text \<open>
  C9. An event that arrives without a signature, or whose signature
  \<open>constructEvent\<close> does not accept, is answered with an error and the state is left as
  it was: the event handler is not run, so no payment row is written, no booking or day
  changes and no job is enqueued. The handler runs only on an event that
  \<open>constructEvent\<close> returned.
\<close>

theorem unverified_webhook_changes_nothing:
  "((sig = None \<or> sig = Some []
       \<or> (\<exists>sg. sig = Some sg
             \<and> (\<forall>k. stripeWebhookSecret e = Some k \<longrightarrow> constructEvent body sg k = None)))
      \<longrightarrow> snd (webhookPOST e constructEvent now sig body s) = s
          \<and> (\<exists>code msg. fst (webhookPOST e constructEvent now sig body s) = WebhookError code msg))
   \<and> (fst (webhookPOST e constructEvent now sig body s) = Received
      \<longrightarrow> (\<exists>sg k ev. sig = Some sg \<and> stripeWebhookSecret e = Some k
             \<and> constructEvent body sg k = Some ev
             \<and> snd (webhookPOST e constructEvent now sig body s) = handleEvent e now ev s))"
  by (auto simp: webhookPOST_def split: option.splits if_splits)

theorem unverified_webhook_changes_nothing_witness:
  "stripeWebhookSecret env0 = Some ''whsec_test''
   \<and> strictVerifier ''{}'' ''v1=forged'' ''whsec_test'' = None
   \<and> webhookPOST env0 strictVerifier 0 (Some ''v1=forged'') ''{}'' heldState
        = (WebhookError 400 ''Invalid signature'', heldState)
   \<and> webhookPOST env0 strictVerifier 0 None ''{}'' heldState
        = (WebhookError 400 ''Missing signature'', heldState)
   \<and> webhookPOST env0 strictVerifier 0 (Some ''v1=good'') ''{}'' heldState
        = (Received, handleEvent env0 0 (CheckoutSessionCompleted ''c'' ''pi_1'' None) heldState)"
proof -
  have a: "stripeWebhookSecret env0 = Some ''whsec_test''"
    "strictVerifier ''{}'' ''v1=forged'' ''whsec_test'' = None"
    by (simp_all add: strictVerifier_def env0_def)
  have b: "webhookPOST env0 strictVerifier 0 (Some ''v1=forged'') ''{}'' heldState
        = (WebhookError 400 ''Invalid signature'', heldState)"
    "webhookPOST env0 strictVerifier 0 None ''{}'' heldState
        = (WebhookError 400 ''Missing signature'', heldState)"
    "webhookPOST env0 strictVerifier 0 (Some ''v1=good'') ''{}'' heldState
        = (Received, handleEvent env0 0 (CheckoutSessionCompleted ''c'' ''pi_1'' None) heldState)"
    by (simp_all add: webhookPOST_def env0_def strictVerifier_def)
  show ?thesis
    using unverified_webhook_changes_nothing [where sig = "Some ''v1=forged''" and e = env0
        and constructEvent = strictVerifier and body = "''{}''" and now = 0 and s = heldState]
      a b
    by blast
qed

section \<open>Remainder retries\<close>







lemma showNat_digit: "n < 10 \<Longrightarrow> showNat n = [digitChar n]"
  by (subst showNat.simps) simp



lemma retryJob_fields:
  "delayMs (retryJob b 1) = 6 * 60 * 60 * 1000"
  "n \<noteq> 1 \<Longrightarrow> delayMs (retryJob b n) = 24 * 60 * 60 * 1000"
  "jobName (retryJob b n) = RemainderCharge" "jobBookingId (retryJob b n) = b"
  by (simp_all add: retryJob_def)


lemma showNat_small: "showNat 1 = ''1''" "showNat 2 = ''2''" "showNat (Suc 0) = ''1''"
proof -
  have "digitVal CHR ''1'' = Some 1" "digitVal CHR ''2'' = Some 2"
    by (simp_all add: digitVal_def)
  then have "digitChar 1 = CHR ''1''" "digitChar 2 = CHR ''2''"
    using digitChar_digitVal by blast+
  then show "showNat 1 = ''1''" "showNat 2 = ''2''" "showNat (Suc 0) = ''1''"
    using showNat_digit [of 1] showNat_digit [of 2] by simp_all
qed

lemma heldState_frame:
  "payments heldState = []"
  "jobs heldState = [holdExpireJob 15 ''c'']"
proof -
  have es: "blackouts emptyState = [] \<or> blackouts emptyState = [(2025, 3, 13)]"
    "bookedDays emptyState = []"
    by (simp_all add: emptyState_def)
  note nb = march_success(2) [OF es]
  note full = march_success(1) [OF es, where e = env0 and now = 0]
  have "payments (snd (createHold env0 0 marchRequest emptyState)) = []"
    using full
    by (simp only: createHold_free [OF march_parse march_valid nb]
          holdTransaction_free [OF march_parse nb] Let_def)
       (simp add: emptyState_def)
  then show "payments heldState = []" by (simp only: heldState_def)
  have "jobs heldState = enqueue (holdExpireJob (holdTtlMinutes env0) (freshId (map bid (bookings emptyState))))
                           (jobs emptyState)"
    unfolding heldState_def
    by (rule createHold_success(5) [OF march_parse march_valid nb full])
  then show "jobs heldState = [holdExpireJob 15 ''c'']"
    by (simp add: emptyState_def env0_def freshId_def enqueue_def)
qed


section \<open>Idempotent confirmation\<close>

lemma enqueue_present: "jobId j \<in> jobId ` set q \<Longrightarrow> jobId j \<noteq> None \<Longrightarrow> enqueue j q = q"
  by (simp add: enqueue_def)

lemma enqueue_adds: "jobId j \<in> jobId ` set (enqueue j q)"
  by (simp add: enqueue_def)

lemma enqueue_keeps: "k \<in> jobId ` set q \<Longrightarrow> k \<in> jobId ` set (enqueue j q)"
  by (simp add: enqueue_def)

lemma jobCount_zero: "Some k \<notin> jobId ` set q \<Longrightarrow> jobCount k q = 0"
proof -
  assume "Some k \<notin> jobId ` set q"
  then have "\<forall>x \<in> set q. jobId x \<noteq> Some k" by (metis image_eqI)
  then show ?thesis by (simp add: jobCount_def filter_empty_conv)
qed

lemma jobCount_enqueue_le:
  assumes "\<forall>k. jobCount k q \<le> 1"
  shows "jobCount k (enqueue j q) \<le> 1"
proof (cases "jobId j \<noteq> None \<and> jobId j \<in> jobId ` set q")
  case True
  then show ?thesis using assms by (simp add: enqueue_def)
next
  case False
  then have e: "enqueue j q = q @ [j]" by (auto simp: enqueue_def)
  show ?thesis
  proof (cases "jobId j = Some k")
    case True
    then have "Some k \<notin> jobId ` set q" using False by auto
    then have "jobCount k q = 0" by (rule jobCount_zero)
    then show ?thesis using True by (simp add: e jobCount_def)
  next
    case False
    then show ?thesis using assms by (simp add: e jobCount_def)
  qed
qed

lemma jobCount_pos:
  assumes "Some k \<in> jobId ` set q"
  shows "1 \<le> jobCount k q"
proof -
  obtain x where "x \<in> set q" "jobId x = Some k" using assms by (metis imageE)
  then have "filter (\<lambda>j. jobId j = Some k) q \<noteq> []"
    by (simp add: filter_empty_conv) blast
  then show ?thesis
    unfolding jobCount_def by (cases "filter (\<lambda>j. jobId j = Some k) q") simp_all
qed

text \<open>The queue after the scheduling step, as a function of the queue before.\<close>

lemma foldl_enqueue_keeps:
  "k \<in> jobId ` set q \<Longrightarrow> k \<in> jobId ` set (foldl (\<lambda>q d. enqueue (f d) q) q ds)"
proof (induction ds arbitrary: q)
  case Nil
  then show ?case by simp
next
  case (Cons x xs)
  have "k \<in> jobId ` set (enqueue (f x) q)" using Cons.prems by (rule enqueue_keeps)
  then show ?case using Cons.IH by simp
qed

lemma foldl_enqueue_adds:
  "d \<in> set ds \<Longrightarrow> jobId (f d) \<in> jobId ` set (foldl (\<lambda>q d. enqueue (f d) q) q ds)"
proof (induction ds arbitrary: q)
  case Nil
  then show ?case by simp
next
  case (Cons x xs)
  show ?case
  proof (cases "d = x")
    case True
    then show ?thesis using foldl_enqueue_keeps [OF enqueue_adds [of "f x" q]] by simp
  next
    case False
    then show ?thesis using Cons by simp
  qed
qed

lemma foldl_enqueue_count:
  "\<forall>k. jobCount k q \<le> 1 \<Longrightarrow> jobCount k (foldl (\<lambda>q d. enqueue (f d) q) q ds) \<le> 1"
proof (induction ds arbitrary: q k)
  case Nil
  then show ?case by simp
next
  case (Cons x xs)
  have "\<forall>k. jobCount k (enqueue (f x) q) \<le> 1"
    using jobCount_enqueue_le [OF Cons.prems] by blast
  then show ?case using Cons.IH by simp
qed

lemma foldl_enqueue_fixed:
  "(\<And>d. d \<in> set ds \<Longrightarrow> jobId (g d) \<in> jobId ` set q \<and> jobId (g d) \<noteq> None)
     \<Longrightarrow> foldl (\<lambda>q d. enqueue (g d) q) q ds = q"
  by (induction ds) (simp_all add: enqueue_present)

lemma reminderJob_key: "jobId (reminderJob b d x) = Some (''reminder-'' @ showNat d @ ''d:'' @ b)"
  by (simp add: reminderJob_def)

lemma remainderChargeJob_key: "jobId (remainderChargeJob b x) = Some (''remainder-charge:'' @ b)"
  by (simp add: remainderChargeJob_def)

lemma scheduleAfterConfirm_found:
  assumes "find (\<lambda>x. bid x = b) (bookings s) = Some bk"
  shows "jobs (scheduleAfterConfirm e now b s)
           = foldl (\<lambda>q d. enqueue (reminderJob b d
                       (max (zoneMillis e (startDate bk) (int d) 9 - now) 0)) q)
               (enqueue (remainderChargeJob b
                   (max (zoneMillis e (startDate bk)
                          (remainderDaysBeforeStart (fst (getOrCreateDefaultPolicy e (policyRow s)))) 10 - now) 0))
                 (jobs s))
               reminderOffsets"
  using assms by (simp add: scheduleAfterConfirm_def Let_def split: prod.splits)

lemma scheduleAfterConfirm_frame:
  "bookings (scheduleAfterConfirm e now b s) = bookings s"
  "payments (scheduleAfterConfirm e now b s) = payments s"
  "policyRow (scheduleAfterConfirm e now b s) = snd (getOrCreateDefaultPolicy e (policyRow s))"
  by (simp_all add: scheduleAfterConfirm_def Let_def split: option.splits prod.splits)

lemma scheduleAfterConfirm_eq:
  "scheduleAfterConfirm e now b s
     = s\<lparr>policyRow := snd (getOrCreateDefaultPolicy e (policyRow s)),
         jobs := jobs (scheduleAfterConfirm e now b s)\<rparr>"
  by (simp add: scheduleAfterConfirm_def Let_def split: option.splits prod.splits)

lemma scheduleAfterConfirm_keys:
  assumes "find (\<lambda>x. bid x = b) (bookings s) = Some bk" and "k \<in> set (confirmJobKeys b)"
  shows "Some k \<in> jobId ` set (jobs (scheduleAfterConfirm e now b s))"
proof (cases "k = ''remainder-charge:'' @ b")
  case True
  let ?j = "remainderChargeJob b
              (max (zoneMillis e (startDate bk)
                     (remainderDaysBeforeStart (fst (getOrCreateDefaultPolicy e (policyRow s)))) 10 - now) 0)"
  have "jobId ?j \<in> jobId ` set (enqueue ?j (jobs s))" by (rule enqueue_adds)
  then have "jobId ?j \<in> jobId ` set (jobs (scheduleAfterConfirm e now b s))"
    unfolding scheduleAfterConfirm_found [OF assms(1)] by (rule foldl_enqueue_keeps)
  then show ?thesis by (simp only: remainderChargeJob_key True)
next
  case False
  then obtain d where d: "d \<in> set reminderOffsets" "k = ''reminder-'' @ showNat d @ ''d:'' @ b"
    using assms(2) by (auto simp: confirmJobKeys_def)
  have "jobId (reminderJob b d (max (zoneMillis e (startDate bk) (int d) 9 - now) 0))
          \<in> jobId ` set (jobs (scheduleAfterConfirm e now b s))"
    unfolding scheduleAfterConfirm_found [OF assms(1)]
    using foldl_enqueue_adds [OF d(1), where f = "\<lambda>d. reminderJob b d
                       (max (zoneMillis e (startDate bk) (int d) 9 - now) 0)"] .
  then show ?thesis by (simp only: reminderJob_key d(2))
qed

lemma scheduleAfterConfirm_idem:
  "scheduleAfterConfirm e now2 b (scheduleAfterConfirm e now1 b s) = scheduleAfterConfirm e now1 b s"
proof -
  let ?u = "scheduleAfterConfirm e now1 b s"
  have pol: "snd (getOrCreateDefaultPolicy e (policyRow ?u)) = policyRow ?u"
    using getOrCreateDefaultPolicy_row [of e "policyRow s"]
    by (simp add: scheduleAfterConfirm_frame(3) getOrCreateDefaultPolicy_existing)
  have q: "jobs (scheduleAfterConfirm e now2 b ?u) = jobs ?u"
  proof (cases "find (\<lambda>x. bid x = b) (bookings s)")
    case None
    then show ?thesis by (simp add: scheduleAfterConfirm_def Let_def split: prod.splits)
  next
    case (Some bk)
    then have f: "find (\<lambda>x. bid x = b) (bookings ?u) = Some bk"
      by (simp add: scheduleAfterConfirm_frame(1))
    have keys: "\<And>k. k \<in> set (confirmJobKeys b) \<Longrightarrow> Some k \<in> jobId ` set (jobs ?u)"
      using scheduleAfterConfirm_keys [OF Some] by blast
    have first: "enqueue (remainderChargeJob b
                   (max (zoneMillis e (startDate bk)
                          (remainderDaysBeforeStart (fst (getOrCreateDefaultPolicy e (policyRow ?u)))) 10 - now2) 0))
                 (jobs ?u) = jobs ?u"
      using keys [of "''remainder-charge:'' @ b"]
      by (intro enqueue_present) (simp_all add: remainderChargeJob_key confirmJobKeys_def)
    have rest: "foldl (\<lambda>q d. enqueue (reminderJob b d
                       (max (zoneMillis e (startDate bk) (int d) 9 - now2) 0)) q) (jobs ?u) reminderOffsets
                 = jobs ?u"
    proof (rule foldl_enqueue_fixed)
      fix d assume "d \<in> set reminderOffsets"
      then have "''reminder-'' @ showNat d @ ''d:'' @ b \<in> set (confirmJobKeys b)"
        by (simp add: confirmJobKeys_def)
      then show "jobId (reminderJob b d (max (zoneMillis e (startDate bk) (int d) 9 - now2) 0))
                   \<in> jobId ` set (jobs ?u)
                 \<and> jobId (reminderJob b d (max (zoneMillis e (startDate bk) (int d) 9 - now2) 0)) \<noteq> None"
        using keys by (simp only: reminderJob_key) simp
    qed
    show ?thesis
      by (simp only: scheduleAfterConfirm_found [OF f] first rest)
  qed
  show ?thesis
    by (subst scheduleAfterConfirm_eq) (simp add: pol q)
qed

lemma set_status_all:
  "list_all (\<lambda>p. stripePaymentIntentId p = key \<longrightarrow> pstatus p = st)
     (map (\<lambda>p. if stripePaymentIntentId p = key then p\<lparr>pstatus := st\<rparr> else p) tbl)"
  by (induction tbl) simp_all

lemma set_status_keys:
  "map stripePaymentIntentId (map (\<lambda>p. if stripePaymentIntentId p = key then p\<lparr>pstatus := st\<rparr> else p) tbl)
     = map stripePaymentIntentId tbl"
  by (induction tbl) simp_all

lemma upsertPayment_keys:
  assumes "upsertPayment key st row bks tbl = Some tbl'" and "stripePaymentIntentId row = key"
    and "pstatus row = st"
  shows "key \<in> set (map stripePaymentIntentId tbl')"
    and "list_all (\<lambda>p. stripePaymentIntentId p = key \<longrightarrow> pstatus p = st) tbl'"
proof -
  show "key \<in> set (map stripePaymentIntentId tbl')"
  proof (cases "key \<in> set (map stripePaymentIntentId tbl)")
    case True
    then have "tbl' = map (\<lambda>p. if stripePaymentIntentId p = key then p\<lparr>pstatus := st\<rparr> else p) tbl"
      using assms(1) by (simp add: upsertPayment_def)
    then have "map stripePaymentIntentId tbl' = map stripePaymentIntentId tbl"
      by (simp only: set_status_keys)
    then show ?thesis using True by simp
  next
    case False
    then have "tbl' = tbl @ [row]" using assms(1) by (auto simp: upsertPayment_def split: if_splits)
    then show ?thesis using assms(2) by simp
  qed
  show "list_all (\<lambda>p. stripePaymentIntentId p = key \<longrightarrow> pstatus p = st) tbl'"
  proof (cases "key \<in> set (map stripePaymentIntentId tbl)")
    case True
    then have "tbl' = map (\<lambda>p. if stripePaymentIntentId p = key then p\<lparr>pstatus := st\<rparr> else p) tbl"
      using assms(1) by (simp add: upsertPayment_def)
    then show ?thesis by (simp only: set_status_all)
  next
    case False
    then have t: "tbl' = tbl @ [row]" using assms(1) by (auto simp: upsertPayment_def split: if_splits)
    have "\<forall>p \<in> set tbl. stripePaymentIntentId p \<noteq> key" using False by (metis image_eqI list.set_map)
    then show ?thesis using assms(3) by (simp add: t list_all_iff)
  qed
qed

lemma upsertPayment_fixed:
  assumes "key \<in> set (map stripePaymentIntentId tbl)"
    and "list_all (\<lambda>p. stripePaymentIntentId p = key \<longrightarrow> pstatus p = st) tbl"
  shows "upsertPayment key st row bks tbl = Some tbl"
proof -
  have "map (\<lambda>p. if stripePaymentIntentId p = key then p\<lparr>pstatus := st\<rparr> else p) tbl = tbl"
    using assms(2) by (intro map_idI) (auto simp: list_all_iff)
  then show ?thesis using assms(1) by (simp add: upsertPayment_def)
qed

lemma confirmTransaction_fixed:
  assumes "settled b pi t"
  shows "confirmTransaction b pi c t = t"
proof (cases "find (\<lambda>x. bid x = b) (bookings t)")
  case None
  then show ?thesis by (simp add: confirmTransaction_def)
next
  case (Some bk)
  then have st: "status bk = CONFIRMED" and k: "pi \<in> set (map stripePaymentIntentId (payments t))"
    and a: "list_all (\<lambda>p. stripePaymentIntentId p = pi \<longrightarrow> pstatus p = succeeded) (payments t)"
    using assms by (simp_all add: settled_def)
  show ?thesis
    using Some st by (simp add: confirmTransaction_def upsertPayment_fixed [OF k a] Let_def)
qed

lemma find_map_bid:
  assumes "find (\<lambda>x. bid x = b) bks = Some bk" and "\<And>x. bid (f x) = bid x"
  shows "find (\<lambda>x. bid x = b) (map (\<lambda>x. if bid x = b then f x else x) bks) = Some (f bk)"
  using assms(1)
proof (induction bks)
  case Nil
  then show ?case by simp
next
  case (Cons x xs)
  then show ?case using assms(2) by (cases "bid x = b") simp_all
qed

lemma confirmTransaction_settles: "settled b pi (confirmTransaction b pi c s)"
proof (cases "find (\<lambda>x. bid x = b) (bookings s)")
  case None
  then show ?thesis by (simp add: confirmTransaction_def settled_def)
next
  case (Some bk)
  let ?row = "\<lparr>payBookingId = b, stripePaymentIntentId = pi,
                amount = depositAmount bk, ptype = DEPOSIT, pstatus = succeeded\<rparr>"
  have "b \<in> set (map bid (bookings s))" using Some by (rule find_bid_mem)
  then obtain tbl where u: "upsertPayment pi succeeded ?row (bookings s) (payments s) = Some tbl"
    using upsertPayment_known_booking [of b "bookings s" ?row pi succeeded "payments s"] by auto
  have k: "pi \<in> set (map stripePaymentIntentId tbl)"
    and a: "list_all (\<lambda>p. stripePaymentIntentId p = pi \<longrightarrow> pstatus p = succeeded) tbl"
    using upsertPayment_keys [OF u] by simp_all
  show ?thesis
  proof (cases "status bk = CONFIRMED")
    case True
    then show ?thesis using Some u k a by (simp add: confirmTransaction_def Let_def settled_def)
  next
    case False
    let ?f = "\<lambda>x. x\<lparr>status := CONFIRMED,
                       stripeCustomerId := (case c of Some k \<Rightarrow> Some k | None \<Rightarrow> stripeCustomerId x)\<rparr>"
    have "find (\<lambda>x. bid x = b) (map (\<lambda>x. if bid x = b then ?f x else x) (bookings s)) = Some (?f bk)"
      using Some by (rule find_map_bid) simp
    then show ?thesis
      using False Some u k a by (simp add: confirmTransaction_def Let_def settled_def)
  qed
qed

lemma settled_schedule: "settled b pi t \<Longrightarrow> settled b pi (scheduleAfterConfirm e now b' t)"
  by (auto simp: settled_def scheduleAfterConfirm_frame split: option.splits)

lemma confirm_idem:
  "confirm e now2 b pi c2 (confirm e now1 b pi c1 s) = confirm e now1 b pi c1 s"
proof -
  have "settled b pi (confirm e now1 b pi c1 s)"
    unfolding confirm_def using confirmTransaction_settles by (rule settled_schedule)
  then have "confirmTransaction b pi c2 (confirm e now1 b pi c1 s) = confirm e now1 b pi c1 s"
    by (rule confirmTransaction_fixed)
  then show ?thesis
    by (simp add: confirm_def scheduleAfterConfirm_idem)
qed

lemma distinct_key_count:
  "distinct (map f xs) \<Longrightarrow> k \<in> set (map f xs) \<Longrightarrow> length (filter (\<lambda>x. f x = k) xs) = 1"
proof (induction xs)
  case Nil
  then show ?case by simp
next
  case (Cons x xs)
  show ?case
  proof (cases "f x = k")
    case True
    then have "k \<notin> f ` set xs" using Cons.prems(1) by simp
    then have "\<forall>y \<in> set xs. f y \<noteq> k" by (metis image_eqI)
    then have "filter (\<lambda>x. f x = k) xs = []" by (simp add: filter_empty_conv)
    then show ?thesis using True by simp
  next
    case False
    then show ?thesis using Cons by auto
  qed
qed

lemma upsertPayment_distinct:
  assumes "upsertPayment key st row bks tbl = Some tbl'" and "stripePaymentIntentId row = key"
    and "distinct (map stripePaymentIntentId tbl)"
  shows "distinct (map stripePaymentIntentId tbl')"
proof (cases "key \<in> set (map stripePaymentIntentId tbl)")
  case True
  then have "tbl' = map (\<lambda>p. if stripePaymentIntentId p = key then p\<lparr>pstatus := st\<rparr> else p) tbl"
    using assms(1) by (simp add: upsertPayment_def)
  then have "map stripePaymentIntentId tbl' = map stripePaymentIntentId tbl"
    by (simp only: set_status_keys)
  then show ?thesis using assms(3) by simp
next
  case False
  then have "tbl' = tbl @ [row]" using assms(1) by (auto simp: upsertPayment_def split: if_splits)
  then show ?thesis using False assms(2,3) by simp
qed

lemma confirm_one_payment:
  assumes "b \<in> set (map bid (bookings s))" and "distinct (map stripePaymentIntentId (payments s))"
  shows "length (filter (\<lambda>p. stripePaymentIntentId p = pi) (payments (confirm e now b pi c s))) = 1"
proof -
  obtain bk where f: "find (\<lambda>x. bid x = b) (bookings s) = Some bk"
    using assms(1) by (cases "find (\<lambda>x. bid x = b) (bookings s)") (auto simp: find_None_iff)
  let ?row = "\<lparr>payBookingId = b, stripePaymentIntentId = pi,
                amount = depositAmount bk, ptype = DEPOSIT, pstatus = succeeded\<rparr>"
  obtain tbl where u: "upsertPayment pi succeeded ?row (bookings s) (payments s) = Some tbl"
    using upsertPayment_known_booking [of b "bookings s" ?row pi succeeded "payments s"] assms(1) by auto
  have p: "payments (confirm e now b pi c s) = tbl"
    using f u by (simp add: confirm_def scheduleAfterConfirm_frame confirmTransaction_def Let_def)
  have "distinct (map stripePaymentIntentId tbl)" "pi \<in> set (map stripePaymentIntentId tbl)"
    using upsertPayment_distinct [OF u _ assms(2)] upsertPayment_keys(1) [OF u] by simp_all
  then show ?thesis unfolding p by (rule distinct_key_count)
qed

lemma map_bid_confirm:
  "map bid (map (\<lambda>x. if bid x = b then x\<lparr>status := st, stripeCustomerId := g x\<rparr> else x) bks)
     = map bid bks"
  by (induction bks) simp_all

lemma confirmTransaction_bids:
  "map bid (bookings (confirmTransaction b pi c s)) = map bid (bookings s)"
proof (cases "find (\<lambda>x. bid x = b) (bookings s)")
  case None
  then show ?thesis by (simp add: confirmTransaction_def)
next
  case (Some bk)
  show ?thesis
  proof (cases "upsertPayment pi succeeded
                  \<lparr>payBookingId = b, stripePaymentIntentId = pi,
                   amount = depositAmount bk, ptype = DEPOSIT, pstatus = succeeded\<rparr>
                  (bookings s) (payments s)")
    case None
    then show ?thesis using Some by (simp add: confirmTransaction_def)
  next
    case (Some tbl)
    then show ?thesis
      using \<open>find (\<lambda>x. bid x = b) (bookings s) = Some bk\<close>
      by (simp add: confirmTransaction_def Let_def map_bid_confirm)
  qed
qed

lemma confirm_bids: "map bid (bookings (confirm e now b pi c s)) = map bid (bookings s)"
  by (simp add: confirm_def scheduleAfterConfirm_frame confirmTransaction_bids)

lemma confirm_already:
  assumes "find (\<lambda>x. bid x = b) (bookings s) = Some bk" and "status bk = CONFIRMED"
  shows "bookedDays (confirm e now b pi c s) = bookedDays s"
    and "bookings (confirm e now b pi c s) = bookings s"
  using assms
  by (simp_all add: confirm_def scheduleAfterConfirm_frame scheduleAfterConfirm_days
      confirmTransaction_def Let_def split: option.splits)

lemma confirm_one_job_each:
  assumes "b \<in> set (map bid (bookings s))" and "\<forall>k. jobCount k (jobs s) \<le> 1"
    and "k \<in> set (confirmJobKeys b)"
  shows "jobCount k (jobs (confirm e now b pi c s)) = 1"
proof -
  let ?t = "confirmTransaction b pi c s"
  have "b \<in> set (map bid (bookings ?t))" using assms(1) by (simp only: confirmTransaction_bids)
  then obtain bk where f: "find (\<lambda>x. bid x = b) (bookings ?t) = Some bk"
    by (cases "find (\<lambda>x. bid x = b) (bookings ?t)") (auto simp: find_None_iff)
  have j: "jobs ?t = jobs s"
    by (simp add: confirmTransaction_def Let_def split: option.splits)
  have "jobCount k (jobs (scheduleAfterConfirm e now b ?t)) \<le> 1"
    unfolding scheduleAfterConfirm_found [OF f]
    using assms(2) jobCount_enqueue_le by (intro foldl_enqueue_count) (simp add: j)
  moreover have "1 \<le> jobCount k (jobs (scheduleAfterConfirm e now b ?t))"
    using scheduleAfterConfirm_keys [OF f assms(3)] by (rule jobCount_pos)
  ultimately show ?thesis by (simp add: confirm_def)
qed

lemma showNat_offsets: "showNat 14 = ''14''" "showNat 7 = ''7''"
proof -
  have "digitVal CHR ''4'' = Some 4" "digitVal CHR ''7'' = Some 7"
    by (simp_all add: digitVal_def)
  then have d: "digitChar 4 = CHR ''4''" "digitChar 7 = CHR ''7''"
    using digitChar_digitVal by blast+
  have "digitChar 14 = digitChar 4" by (simp add: digitChar_def)
  then have e: "digitChar 14 = CHR ''4''" using d(1) by simp
  show "showNat 7 = ''7''" using showNat_digit [of 7] d(2) by simp
  have "showNat 14 = showNat 1 @ [digitChar 14]" by (subst showNat.simps) simp
  then show "showNat 14 = ''14''" using e by (simp add: showNat_small)
qed

text \<open>
  The remainder-charge job and the four reminder jobs of a booking, written out: the
  names, templates and ids of webhook lines 97 to 112.
\<close>

lemma confirmJobKeys_literal:
  "confirmJobKeys b = [''remainder-charge:'' @ b, ''reminder-14d:'' @ b, ''reminder-7d:'' @ b,
                       ''reminder-2d:'' @ b, ''reminder-1d:'' @ b]"
  by (simp add: confirmJobKeys_def reminderOffsets_def showNat_offsets showNat_small)

lemma reminderJob_literal:
  "reminderJob b 14 x = \<lparr>jobName = ReminderEmail, jobBookingId = b, template = Some ''reminder-14d'',
                          delayMs = x, jobId = Some (''reminder-14d:'' @ b)\<rparr>"
  "reminderJob b 7 x = \<lparr>jobName = ReminderEmail, jobBookingId = b, template = Some ''reminder-7d'',
                         delayMs = x, jobId = Some (''reminder-7d:'' @ b)\<rparr>"
  "reminderJob b 2 x = \<lparr>jobName = ReminderEmail, jobBookingId = b, template = Some ''reminder-2d'',
                         delayMs = x, jobId = Some (''reminder-2d:'' @ b)\<rparr>"
  "reminderJob b 1 x = \<lparr>jobName = ReminderEmail, jobBookingId = b, template = Some ''reminder-1d'',
                         delayMs = x, jobId = Some (''reminder-1d:'' @ b)\<rparr>"
  "reminderJob b (Suc 0) x = \<lparr>jobName = ReminderEmail, jobBookingId = b, template = Some ''reminder-1d'',
                               delayMs = x, jobId = Some (''reminder-1d:'' @ b)\<rparr>"
  by (simp_all add: reminderJob_def showNat_offsets showNat_small)

lemma scheduleAfterConfirm_fresh:
  assumes "find (\<lambda>x. bid x = b) (bookings s) = Some bk"
    and "list_all (\<lambda>k. Some k \<notin> jobId ` set (jobs s))
           [''remainder-charge:'' @ b, ''reminder-14d:'' @ b, ''reminder-7d:'' @ b,
            ''reminder-2d:'' @ b, ''reminder-1d:'' @ b]"
  shows "jobs (scheduleAfterConfirm e now b s)
           = jobs s @
             [\<lparr>jobName = RemainderCharge, jobBookingId = b, template = None,
               delayMs = max (zoneMillis e (startDate bk)
                               (remainderDaysBeforeStart (fst (getOrCreateDefaultPolicy e (policyRow s)))) 10
                             - now) 0,
               jobId = Some (''remainder-charge:'' @ b)\<rparr>,
              \<lparr>jobName = ReminderEmail, jobBookingId = b, template = Some ''reminder-14d'',
               delayMs = max (zoneMillis e (startDate bk) 14 9 - now) 0,
               jobId = Some (''reminder-14d:'' @ b)\<rparr>,
              \<lparr>jobName = ReminderEmail, jobBookingId = b, template = Some ''reminder-7d'',
               delayMs = max (zoneMillis e (startDate bk) 7 9 - now) 0,
               jobId = Some (''reminder-7d:'' @ b)\<rparr>,
              \<lparr>jobName = ReminderEmail, jobBookingId = b, template = Some ''reminder-2d'',
               delayMs = max (zoneMillis e (startDate bk) 2 9 - now) 0,
               jobId = Some (''reminder-2d:'' @ b)\<rparr>,
              \<lparr>jobName = ReminderEmail, jobBookingId = b, template = Some ''reminder-1d'',
               delayMs = max (zoneMillis e (startDate bk) 1 9 - now) 0,
               jobId = Some (''reminder-1d:'' @ b)\<rparr>]"
  using assms(2)
  unfolding scheduleAfterConfirm_found [OF assms(1)] reminderOffsets_def
  by (simp add: reminderJob_literal remainderChargeJob_def enqueue_def image_iff)


lemma find_map_option:
  "(\<And>x. bid (f x) = bid x) \<Longrightarrow>
   find (\<lambda>x. bid x = b) (map f xs) = map_option f (find (\<lambda>x. bid x = b) xs)"
  by (induction xs) simp_all

lemma confirmTransaction_find:
  assumes "find (\<lambda>x. bid x = b) (bookings s) = Some bk"
  shows "\<exists>bk'. find (\<lambda>x. bid x = b) (bookings (confirmTransaction b pi c s)) = Some bk'
               \<and> startDate bk' = startDate bk"
proof (cases "upsertPayment pi succeeded
                  \<lparr>payBookingId = b, stripePaymentIntentId = pi,
                   amount = depositAmount bk, ptype = DEPOSIT, pstatus = succeeded\<rparr>
                  (bookings s) (payments s)")
  case None
  then show ?thesis using assms by (simp add: confirmTransaction_def)
next
  case (Some tbl)
  show ?thesis
  proof (cases "status bk = CONFIRMED")
    case True
    then show ?thesis using assms Some by (simp add: confirmTransaction_def Let_def)
  next
    case False
    have "find (\<lambda>x. bid x = b)
            (map (\<lambda>x. if bid x = b
                      then x\<lparr>status := CONFIRMED,
                             stripeCustomerId := (case c of Some c \<Rightarrow> Some c | None \<Rightarrow> stripeCustomerId x)\<rparr>
                      else x) (bookings s))
          = map_option (\<lambda>x. if bid x = b
                      then x\<lparr>status := CONFIRMED,
                             stripeCustomerId := (case c of Some c \<Rightarrow> Some c | None \<Rightarrow> stripeCustomerId x)\<rparr>
                      else x) (find (\<lambda>x. bid x = b) (bookings s))"
      by (rule find_map_option) simp
    then show ?thesis using assms Some False
      by (simp add: confirmTransaction_def Let_def)
  qed
qed

lemma confirmTransaction_frame:
  "jobs (confirmTransaction b pi c s) = jobs s"
  "policyRow (confirmTransaction b pi c s) = policyRow s"
  by (simp_all add: confirmTransaction_def Let_def split: option.splits)

lemma confirm_jobs_fresh:
  assumes "find (\<lambda>x. bid x = b) (bookings s) = Some bk"
    and "list_all (\<lambda>k. Some k \<notin> jobId ` set (jobs s))
           [''remainder-charge:'' @ b, ''reminder-14d:'' @ b, ''reminder-7d:'' @ b,
            ''reminder-2d:'' @ b, ''reminder-1d:'' @ b]"
  shows "jobs (confirm e now b pi c s)
           = jobs s @
             [\<lparr>jobName = RemainderCharge, jobBookingId = b, template = None,
               delayMs = max (zoneMillis e (startDate bk)
                               (remainderDaysBeforeStart (fst (getOrCreateDefaultPolicy e (policyRow s)))) 10
                             - now) 0,
               jobId = Some (''remainder-charge:'' @ b)\<rparr>,
              \<lparr>jobName = ReminderEmail, jobBookingId = b, template = Some ''reminder-14d'',
               delayMs = max (zoneMillis e (startDate bk) 14 9 - now) 0,
               jobId = Some (''reminder-14d:'' @ b)\<rparr>,
              \<lparr>jobName = ReminderEmail, jobBookingId = b, template = Some ''reminder-7d'',
               delayMs = max (zoneMillis e (startDate bk) 7 9 - now) 0,
               jobId = Some (''reminder-7d:'' @ b)\<rparr>,
              \<lparr>jobName = ReminderEmail, jobBookingId = b, template = Some ''reminder-2d'',
               delayMs = max (zoneMillis e (startDate bk) 2 9 - now) 0,
               jobId = Some (''reminder-2d:'' @ b)\<rparr>,
              \<lparr>jobName = ReminderEmail, jobBookingId = b, template = Some ''reminder-1d'',
               delayMs = max (zoneMillis e (startDate bk) 1 9 - now) 0,
               jobId = Some (''reminder-1d:'' @ b)\<rparr>]"
proof -
  let ?t = "confirmTransaction b pi c s"
  obtain bk' where f: "find (\<lambda>x. bid x = b) (bookings ?t) = Some bk'"
    and d: "startDate bk' = startDate bk"
    using confirmTransaction_find [OF assms(1)] by blast
  have q: "list_all (\<lambda>k. Some k \<notin> jobId ` set (jobs ?t))
           [''remainder-charge:'' @ b, ''reminder-14d:'' @ b, ''reminder-7d:'' @ b,
            ''reminder-2d:'' @ b, ''reminder-1d:'' @ b]"
    using assms(2) by (simp only: confirmTransaction_frame)
  show ?thesis
    unfolding confirm_def scheduleAfterConfirm_fresh [OF f q]
    by (simp only: confirmTransaction_frame d)
qed

lemma heldState_policy:
  "policyRow heldState = Some \<lparr>depositType = FIXED, depositValue = 20000,
                                remainderDaysBeforeStart = 14, cancelCutoffHours = 48\<rparr>"
proof -
  have e: "blackouts emptyState = [] \<or> blackouts emptyState = [(2025, 3, 13)]" "bookedDays emptyState = []"
    by (simp_all add: emptyState_def)
  note ok = createHold_success [OF march_parse march_valid march_success(2) [OF e(1,2)]
      march_success(1) [OF e(1,2)], where e = env0 and now = 0]
  have "policyRow heldState = snd (getOrCreateDefaultPolicy env0 None)"
    using ok(3) by (simp add: heldState_def emptyState_def)
  then show ?thesis
    by (simp add: getOrCreateDefaultPolicy_def env0_def Let_def)
qed

lemma heldState_confirm_payment:
  "payments (confirm env0 0 ''c'' ''pi_1'' None heldState)
     = [\<lparr>payBookingId = ''c'', stripePaymentIntentId = ''pi_1'', amount = 20000,
         ptype = DEPOSIT, pstatus = succeeded\<rparr>]"
  by (simp add: confirm_def scheduleAfterConfirm_frame confirmTransaction_def heldState_bookings
      heldState_frame upsertPayment_def Let_def)

text \<open>
  C3. Handling \<open>checkout.session.completed\<close> twice for the same booking and payment intent
  leaves the state of the first handling: the second call changes no table and no queue.
  For a booking that exists, the payment table (whose payment-intent ids are unique)
  then holds exactly one row with that id. The queue (with at most one job per id) holds
  exactly one job under each of the five ids \<open>remainder-charge:\<close>, \<open>reminder-14d:\<close>,
  \<open>reminder-7d:\<close>, \<open>reminder-2d:\<close> and \<open>reminder-1d:\<close> followed by the booking id; when
  none of the five was queued before, the queue after both calls is the queue before
  followed by exactly these five jobs, in this order, with the delays of the first call.
  A call that finds the booking already CONFIRMED leaves the days and the bookings untouched.
\<close>

theorem confirm_is_idempotent:
  "confirm e now2 b pi c2 (confirm e now1 b pi c1 s) = confirm e now1 b pi c1 s
   \<and> (b \<in> set (map bid (bookings s)) \<and> distinct (map stripePaymentIntentId (payments s))
        \<longrightarrow> length (filter (\<lambda>p. stripePaymentIntentId p = pi)
                    (payments (confirm e now2 b pi c2 (confirm e now1 b pi c1 s)))) = 1)
   \<and> (b \<in> set (map bid (bookings s)) \<and> (\<forall>k. jobCount k (jobs s) \<le> 1)
        \<longrightarrow> (\<forall>k \<in> set [''remainder-charge:'' @ b, ''reminder-14d:'' @ b, ''reminder-7d:'' @ b,
                         ''reminder-2d:'' @ b, ''reminder-1d:'' @ b].
               jobCount k (jobs (confirm e now2 b pi c2 (confirm e now1 b pi c1 s))) = 1))
   \<and> (find (\<lambda>x. bid x = b) (bookings s) = Some bk
        \<and> list_all (\<lambda>k. Some k \<notin> jobId ` set (jobs s))
             [''remainder-charge:'' @ b, ''reminder-14d:'' @ b, ''reminder-7d:'' @ b,
              ''reminder-2d:'' @ b, ''reminder-1d:'' @ b]
        \<longrightarrow> jobs (confirm e now2 b pi c2 (confirm e now1 b pi c1 s))
            = jobs s @
              [\<lparr>jobName = RemainderCharge, jobBookingId = b, template = None,
                delayMs = max (zoneMillis e (startDate bk)
                                (remainderDaysBeforeStart (fst (getOrCreateDefaultPolicy e (policyRow s)))) 10
                              - now1) 0,
                jobId = Some (''remainder-charge:'' @ b)\<rparr>,
               \<lparr>jobName = ReminderEmail, jobBookingId = b, template = Some ''reminder-14d'',
                delayMs = max (zoneMillis e (startDate bk) 14 9 - now1) 0,
                jobId = Some (''reminder-14d:'' @ b)\<rparr>,
               \<lparr>jobName = ReminderEmail, jobBookingId = b, template = Some ''reminder-7d'',
                delayMs = max (zoneMillis e (startDate bk) 7 9 - now1) 0,
                jobId = Some (''reminder-7d:'' @ b)\<rparr>,
               \<lparr>jobName = ReminderEmail, jobBookingId = b, template = Some ''reminder-2d'',
                delayMs = max (zoneMillis e (startDate bk) 2 9 - now1) 0,
                jobId = Some (''reminder-2d:'' @ b)\<rparr>,
               \<lparr>jobName = ReminderEmail, jobBookingId = b, template = Some ''reminder-1d'',
                delayMs = max (zoneMillis e (startDate bk) 1 9 - now1) 0,
                jobId = Some (''reminder-1d:'' @ b)\<rparr>])
   \<and> ((\<exists>bk. find (\<lambda>x. bid x = b) (bookings s) = Some bk \<and> status bk = CONFIRMED)
        \<longrightarrow> bookedDays (confirm e now b pi c s) = bookedDays s
            \<and> bookings (confirm e now b pi c s) = bookings s)"
proof -
  have i: "confirm e now2 b pi c2 (confirm e now1 b pi c1 s) = confirm e now1 b pi c1 s"
    by (rule confirm_idem)
  have p: "b \<in> set (map bid (bookings s)) \<and> distinct (map stripePaymentIntentId (payments s))
        \<longrightarrow> length (filter (\<lambda>p. stripePaymentIntentId p = pi)
                    (payments (confirm e now1 b pi c1 s))) = 1"
    using confirm_one_payment by blast
  have j: "b \<in> set (map bid (bookings s)) \<and> (\<forall>k. jobCount k (jobs s) \<le> 1)
        \<longrightarrow> (\<forall>k \<in> set [''remainder-charge:'' @ b, ''reminder-14d:'' @ b, ''reminder-7d:'' @ b,
                         ''reminder-2d:'' @ b, ''reminder-1d:'' @ b].
               jobCount k (jobs (confirm e now1 b pi c1 s)) = 1)"
    using confirm_one_job_each [where b = b] unfolding confirmJobKeys_literal by blast
  have q: "find (\<lambda>x. bid x = b) (bookings s) = Some bk
        \<and> list_all (\<lambda>k. Some k \<notin> jobId ` set (jobs s))
             [''remainder-charge:'' @ b, ''reminder-14d:'' @ b, ''reminder-7d:'' @ b,
              ''reminder-2d:'' @ b, ''reminder-1d:'' @ b]
        \<longrightarrow> jobs (confirm e now1 b pi c1 s)
            = jobs s @
              [\<lparr>jobName = RemainderCharge, jobBookingId = b, template = None,
                delayMs = max (zoneMillis e (startDate bk)
                                (remainderDaysBeforeStart (fst (getOrCreateDefaultPolicy e (policyRow s)))) 10
                              - now1) 0,
                jobId = Some (''remainder-charge:'' @ b)\<rparr>,
               \<lparr>jobName = ReminderEmail, jobBookingId = b, template = Some ''reminder-14d'',
                delayMs = max (zoneMillis e (startDate bk) 14 9 - now1) 0,
                jobId = Some (''reminder-14d:'' @ b)\<rparr>,
               \<lparr>jobName = ReminderEmail, jobBookingId = b, template = Some ''reminder-7d'',
                delayMs = max (zoneMillis e (startDate bk) 7 9 - now1) 0,
                jobId = Some (''reminder-7d:'' @ b)\<rparr>,
               \<lparr>jobName = ReminderEmail, jobBookingId = b, template = Some ''reminder-2d'',
                delayMs = max (zoneMillis e (startDate bk) 2 9 - now1) 0,
                jobId = Some (''reminder-2d:'' @ b)\<rparr>,
               \<lparr>jobName = ReminderEmail, jobBookingId = b, template = Some ''reminder-1d'',
                delayMs = max (zoneMillis e (startDate bk) 1 9 - now1) 0,
                jobId = Some (''reminder-1d:'' @ b)\<rparr>]"
    using confirm_jobs_fresh by blast
  have a: "(\<exists>bk. find (\<lambda>x. bid x = b) (bookings s) = Some bk \<and> status bk = CONFIRMED)
        \<longrightarrow> bookedDays (confirm e now b pi c s) = bookedDays s
            \<and> bookings (confirm e now b pi c s) = bookings s"
    using confirm_already by blast
  show ?thesis
    unfolding i using p j q a by (intro conjI refl)
qed

theorem confirm_is_idempotent_witness:
  "''c'' \<in> set (map bid (bookings heldState))
   \<and> distinct (map stripePaymentIntentId (payments heldState))
   \<and> (\<forall>k. jobCount k (jobs heldState) \<le> 1)
   \<and> find (\<lambda>x. bid x = ''c'') (bookings heldState)
        = Some \<lparr>bid = ''c'', bookingCustomerId = ''c'', startDate = (2025, 3, 10),
                endDateExclusive = (2025, 3, 13), status = HELD, depositAmount = 20000,
                totalAmount = 150000, pricingSnapshot = (3, 50000, 150000), stripeCustomerId = None\<rparr>
   \<and> jobs heldState
        = [\<lparr>jobName = HoldExpire, jobBookingId = ''c'', template = None, delayMs = 900000,
            jobId = Some ''hold-expire:c''\<rparr>]
   \<and> confirm env1 5000 ''c'' ''pi_1'' None (confirm env1 0 ''c'' ''pi_1'' None heldState)
        = confirm env1 0 ''c'' ''pi_1'' None heldState
   \<and> payments (confirm env1 5000 ''c'' ''pi_1'' None (confirm env1 0 ''c'' ''pi_1'' None heldState))
        = [\<lparr>payBookingId = ''c'', stripePaymentIntentId = ''pi_1'', amount = 20000,
            ptype = DEPOSIT, pstatus = succeeded\<rparr>]
   \<and> jobs (confirm env1 5000 ''c'' ''pi_1'' None (confirm env1 0 ''c'' ''pi_1'' None heldState))
        = [\<lparr>jobName = HoldExpire, jobBookingId = ''c'', template = None, delayMs = 900000,
            jobId = Some ''hold-expire:c''\<rparr>,
           \<lparr>jobName = RemainderCharge, jobBookingId = ''c'', template = None, delayMs = 826400000,
            jobId = Some ''remainder-charge:c''\<rparr>,
           \<lparr>jobName = ReminderEmail, jobBookingId = ''c'', template = Some ''reminder-14d'',
            delayMs = 822800000, jobId = Some ''reminder-14d:c''\<rparr>,
           \<lparr>jobName = ReminderEmail, jobBookingId = ''c'', template = Some ''reminder-7d'',
            delayMs = 1427600000, jobId = Some ''reminder-7d:c''\<rparr>,
           \<lparr>jobName = ReminderEmail, jobBookingId = ''c'', template = Some ''reminder-2d'',
            delayMs = 1859600000, jobId = Some ''reminder-2d:c''\<rparr>,
           \<lparr>jobName = ReminderEmail, jobBookingId = ''c'', template = Some ''reminder-1d'',
            delayMs = 1946000000, jobId = Some ''reminder-1d:c''\<rparr>]
   \<and> list_all (\<lambda>k. jobCount k (jobs (confirm env1 5000 ''c'' ''pi_1'' None
                                        (confirm env1 0 ''c'' ''pi_1'' None heldState))) = 1)
        [''remainder-charge:c'', ''reminder-14d:c'', ''reminder-7d:c'', ''reminder-2d:c'', ''reminder-1d:c'']
   \<and> (\<exists>bk. find (\<lambda>x. bid x = ''c'') (bookings (confirm env1 0 ''c'' ''pi_1'' None heldState)) = Some bk
          \<and> status bk = CONFIRMED)
   \<and> bookedDays (confirm env1 5000 ''c'' ''pi_1'' None (confirm env1 0 ''c'' ''pi_1'' None heldState))
        = bookedDays (confirm env1 0 ''c'' ''pi_1'' None heldState)"
proof -
  let ?s1 = "confirm env1 0 ''c'' ''pi_1'' None heldState"
  let ?bk = "\<lparr>bid = ''c'', bookingCustomerId = ''c'', startDate = (2025, 3, 10),
                endDateExclusive = (2025, 3, 13), status = HELD, depositAmount = 20000,
                totalAmount = 150000, pricingSnapshot = (3, 50000, 150000), stripeCustomerId = None\<rparr>"
  have b: "''c'' \<in> set (map bid (bookings heldState))" by (simp add: heldState_bookings)
  have d: "distinct (map stripePaymentIntentId (payments heldState))" by (simp add: heldState_frame)
  have q: "\<forall>k. jobCount k (jobs heldState) \<le> 1" by (simp add: heldState_frame jobCount_def)
  have fb: "find (\<lambda>x. bid x = ''c'') (bookings heldState) = Some ?bk"
    by (simp add: heldState_bookings)
  have hq: "jobs heldState
        = [\<lparr>jobName = HoldExpire, jobBookingId = ''c'', template = None, delayMs = 900000,
            jobId = Some ''hold-expire:c''\<rparr>]"
    by (simp add: heldState_frame holdExpireJob_def minutesToMs_def)
  have fresh: "list_all (\<lambda>k. Some k \<notin> jobId ` set (jobs heldState))
             [''remainder-charge:'' @ ''c'', ''reminder-14d:'' @ ''c'', ''reminder-7d:'' @ ''c'',
              ''reminder-2d:'' @ ''c'', ''reminder-1d:'' @ ''c'']"
    by (simp add: hq)
  have "''c'' \<in> set (map bid (bookings ?s1))" using b by (simp only: confirm_bids)
  then obtain bk where f: "find (\<lambda>x. bid x = ''c'') (bookings ?s1) = Some bk"
    by (cases "find (\<lambda>x. bid x = ''c'') (bookings ?s1)") (auto simp: find_None_iff)
  then have c: "\<exists>bk. find (\<lambda>x. bid x = ''c'') (bookings ?s1) = Some bk \<and> status bk = CONFIRMED"
    using confirm_status by blast
  note t1 = confirm_is_idempotent [where s = heldState and b = "''c''" and pi = "''pi_1''"
      and e = env1 and ?now1.0 = 0 and ?now2.0 = 5000 and ?c1.0 = None and ?c2.0 = None
      and bk = ?bk]
  note t2 = confirm_is_idempotent [where s = ?s1 and b = "''c''" and pi = "''pi_1''"
      and e = env1 and now = 5000 and c = None]
  have idem: "confirm env1 5000 ''c'' ''pi_1'' None ?s1 = ?s1" using t1 by blast
  have pay: "payments ?s1
        = [\<lparr>payBookingId = ''c'', stripePaymentIntentId = ''pi_1'', amount = 20000,
            ptype = DEPOSIT, pstatus = succeeded\<rparr>]"
    by (simp add: confirm_def scheduleAfterConfirm_frame confirmTransaction_def heldState_bookings
      heldState_frame upsertPayment_def Let_def)
  have "jobs (confirm env1 5000 ''c'' ''pi_1'' None ?s1)
            = jobs heldState @
              [\<lparr>jobName = RemainderCharge, jobBookingId = ''c'', template = None,
                delayMs = max (zoneMillis env1 (startDate ?bk)
                                (remainderDaysBeforeStart (fst (getOrCreateDefaultPolicy env1 (policyRow heldState)))) 10
                              - 0) 0,
                jobId = Some (''remainder-charge:'' @ ''c'')\<rparr>,
               \<lparr>jobName = ReminderEmail, jobBookingId = ''c'', template = Some ''reminder-14d'',
                delayMs = max (zoneMillis env1 (startDate ?bk) 14 9 - 0) 0,
                jobId = Some (''reminder-14d:'' @ ''c'')\<rparr>,
               \<lparr>jobName = ReminderEmail, jobBookingId = ''c'', template = Some ''reminder-7d'',
                delayMs = max (zoneMillis env1 (startDate ?bk) 7 9 - 0) 0,
                jobId = Some (''reminder-7d:'' @ ''c'')\<rparr>,
               \<lparr>jobName = ReminderEmail, jobBookingId = ''c'', template = Some ''reminder-2d'',
                delayMs = max (zoneMillis env1 (startDate ?bk) 2 9 - 0) 0,
                jobId = Some (''reminder-2d:'' @ ''c'')\<rparr>,
               \<lparr>jobName = ReminderEmail, jobBookingId = ''c'', template = Some ''reminder-1d'',
                delayMs = max (zoneMillis env1 (startDate ?bk) 1 9 - 0) 0,
                jobId = Some (''reminder-1d:'' @ ''c'')\<rparr>]"
    using t1 fb fresh by blast
  then have js: "jobs (confirm env1 5000 ''c'' ''pi_1'' None ?s1)
        = [\<lparr>jobName = HoldExpire, jobBookingId = ''c'', template = None, delayMs = 900000,
            jobId = Some ''hold-expire:c''\<rparr>,
           \<lparr>jobName = RemainderCharge, jobBookingId = ''c'', template = None, delayMs = 826400000,
            jobId = Some ''remainder-charge:c''\<rparr>,
           \<lparr>jobName = ReminderEmail, jobBookingId = ''c'', template = Some ''reminder-14d'',
            delayMs = 822800000, jobId = Some ''reminder-14d:c''\<rparr>,
           \<lparr>jobName = ReminderEmail, jobBookingId = ''c'', template = Some ''reminder-7d'',
            delayMs = 1427600000, jobId = Some ''reminder-7d:c''\<rparr>,
           \<lparr>jobName = ReminderEmail, jobBookingId = ''c'', template = Some ''reminder-2d'',
            delayMs = 1859600000, jobId = Some ''reminder-2d:c''\<rparr>,
           \<lparr>jobName = ReminderEmail, jobBookingId = ''c'', template = Some ''reminder-1d'',
            delayMs = 1946000000, jobId = Some ''reminder-1d:c''\<rparr>]"
    by (simp add: hq heldState_policy getOrCreateDefaultPolicy_def env1_def)
  have "\<forall>k \<in> set [''remainder-charge:'' @ ''c'', ''reminder-14d:'' @ ''c'', ''reminder-7d:'' @ ''c'',
                         ''reminder-2d:'' @ ''c'', ''reminder-1d:'' @ ''c''].
         jobCount k (jobs (confirm env1 5000 ''c'' ''pi_1'' None ?s1)) = 1"
    using t1 b q by blast
  then have keys: "list_all (\<lambda>k. jobCount k (jobs (confirm env1 5000 ''c'' ''pi_1'' None ?s1)) = 1)
        [''remainder-charge:c'', ''reminder-14d:c'', ''reminder-7d:c'', ''reminder-2d:c'', ''reminder-1d:c'']"
    by (simp only: list_all_iff append.simps)
  have days: "bookedDays (confirm env1 5000 ''c'' ''pi_1'' None ?s1) = bookedDays ?s1"
    using t2 c by blast
  have pay2: "payments (confirm env1 5000 ''c'' ''pi_1'' None ?s1)
        = [\<lparr>payBookingId = ''c'', stripePaymentIntentId = ''pi_1'', amount = 20000,
            ptype = DEPOSIT, pstatus = succeeded\<rparr>]"
    using pay by (simp only: idem)
  show ?thesis
    using b d q fb hq idem pay2 js keys c days by (intro conjI)
qed

section \<open>Refundable amount\<close>

lemma foldl_amount: "foldl (\<lambda>acc p. acc + amount p) a xs = a + sum_list (map amount xs)"
  by (induction xs arbitrary: a) simp_all

lemma paidTotal_sum: "paidTotal pays = sum_list (map amount (filter (\<lambda>p. pstatus p = succeeded) pays))"
  by (simp add: paidTotal_def foldl_amount)

lemma refundLoop_bound:
  "refunded \<le> limit \<Longrightarrow> fst (snd (refundLoop sr b limit pays refunded tbl)) \<le> limit"
proof (induction pays arbitrary: refunded tbl)
  case Nil
  then show ?case by simp
next
  case (Cons pay rest)
  show ?case
  proof (cases "refunded \<ge> limit")
    case True
    then show ?thesis using Cons.prems by simp
  next
    case False
    then have le: "refunded + min (limit - refunded) (amount pay) \<le> limit" by simp
    show ?thesis
    proof (cases "sr (stripePaymentIntentId pay) (min (limit - refunded) (amount pay))")
      case None
      then show ?thesis using False Cons.prems by (simp add: Let_def)
    next
      case (Some r)
      then show ?thesis using False Cons.IH [OF le] by (simp add: Let_def)
    qed
  qed
qed

lemma cancelBooking_refunded:
  assumes "fst (cancelBooking e sr now b s) = Inr refunded"
  shows "\<exists>bk. find (\<lambda>x. bid x = b) (bookings s) = Some bk \<and> status bk = CONFIRMED
           \<and> refunded \<le> refundable bk (filter (\<lambda>p. payBookingId p = bid bk) (payments s))"
proof (cases "find (\<lambda>x. bid x = b) (bookings s)")
  case None
  then show ?thesis using assms by (simp add: cancelBooking_def)
next
  case (Some bk)
  let ?pays = "filter (\<lambda>p. payBookingId p = bid bk) (payments s)"
  let ?limit = "refundable bk ?pays"
  let ?loop = "refundLoop sr (bid bk) ?limit
                 (filter (\<lambda>p. ptype p = REMAINDER \<and> pstatus p = succeeded) ?pays) 0 (refunds s)"
  have st: "status bk = CONFIRMED"
    using assms Some by (auto simp: cancelBooking_def split: if_splits)
  have nonneg: "0 \<le> ?limit" by (simp add: refundable_def)
  have "refunded \<le> ?limit"
  proof (cases "?limit > 0")
    case True
    have "fst (snd ?loop) \<le> ?limit" using nonneg by (rule refundLoop_bound)
    moreover have "refunded = fst (snd ?loop)"
      using assms Some st True
      by (auto simp: cancelBooking_def Let_def split: if_splits prod.splits bool.splits)
    ultimately show ?thesis by simp
  next
    case False
    then have "refunded = 0"
      using assms Some st
      by (auto simp: cancelBooking_def Let_def split: if_splits prod.splits bool.splits)
    then show ?thesis using nonneg by simp
  qed
  then show ?thesis using Some st by blast
qed

text \<open>
  C6. The refundable amount of a cancellation is the larger of 0 and the sum of the
  booking's succeeded payments less its deposit; the manage page computes the same
  figure; and no cancellation refunds more than it. With a total of 500000, a deposit of
  20000 paid and a remainder of 480000 paid, the refundable amount and the amount
  refunded are 480000.
\<close>

theorem refundable_excludes_deposit:
  "refundable bk pays
     = max 0 (sum_list (map amount (filter (\<lambda>p. pstatus p = succeeded) pays)) - depositAmount bk)
   \<and> remainderPaid bk pays = refundable bk pays
   \<and> (fst (cancelBooking e sr now b s) = Inr refunded \<longrightarrow>
        (\<exists>bk'. find (\<lambda>x. bid x = b) (bookings s) = Some bk' \<and> status bk' = CONFIRMED
           \<and> refunded \<le> refundable bk' (filter (\<lambda>p. payBookingId p = bid bk') (payments s))))"
  using cancelBooking_refunded [of e sr now b s refunded]
  by (simp add: refundable_def remainderPaid_def paidTotal_sum max.commute)

theorem refundable_excludes_deposit_witness:
  "refundable paidBooking paidPayments = 480000
   \<and> remainderPaid paidBooking paidPayments = 480000
   \<and> sum_list (map amount (filter (\<lambda>p. pstatus p = succeeded) paidPayments)) = 500000
   \<and> fst (cancelBooking env0 stripeRefundOk 0 ''c'' paidState) = Inr 480000
   \<and> refunds (snd (cancelBooking env0 stripeRefundOk 0 ''c'' paidState))
        = [\<lparr>refundBookingId = ''c'', stripeRefundId = ''re_pi_2'', refundAmount = 480000,
            reason = ''requested_by_customer''\<rparr>]
   \<and> (\<exists>bk'. find (\<lambda>x. bid x = ''c'') (bookings paidState) = Some bk' \<and> status bk' = CONFIRMED
         \<and> (480000::int) \<le> refundable bk' (filter (\<lambda>p. payBookingId p = bid bk') (payments paidState)))"
proof -
  have s: "sum_list (map amount (filter (\<lambda>p. pstatus p = succeeded) paidPayments)) = 500000"
    by (simp add: paidPayments_def)
  have r: "refundable paidBooking paidPayments = 480000"
    using refundable_excludes_deposit [where bk = paidBooking and pays = paidPayments] s
    by (simp add: paidBooking_def)
  have m: "remainderPaid paidBooking paidPayments = 480000"
    using refundable_excludes_deposit [where bk = paidBooking and pays = paidPayments] r by simp
  have f: "filter (\<lambda>p. payBookingId p = ''c'') paidPayments = paidPayments"
    by (simp add: paidPayments_def)
  have l: "refundLoop stripeRefundOk ''c'' 480000
             (filter (\<lambda>p. ptype p = REMAINDER \<and> pstatus p = succeeded) paidPayments) 0 []
           = (True, 480000, [\<lparr>refundBookingId = ''c'', stripeRefundId = ''re_pi_2'',
                                refundAmount = 480000, reason = ''requested_by_customer''\<rparr>])"
    by (simp add: paidPayments_def stripeRefundOk_def Let_def)
  have c: "cancelBooking env0 stripeRefundOk 0 ''c'' paidState
         = (Inr 480000,
            paidState\<lparr>policyRow := snd (getOrCreateDefaultPolicy env0 None),
                       refunds := [\<lparr>refundBookingId = ''c'', stripeRefundId = ''re_pi_2'',
                                     refundAmount = 480000, reason = ''requested_by_customer''\<rparr>],
                       bookedDays := [],
                       bookings := [paidBooking\<lparr>status := CANCELLED\<rparr>]\<rparr>)"
    by (simp add: cancelBooking_def paidState_def emptyState_def Let_def f r l
        getOrCreateDefaultPolicy_def env0_def paidBooking_def [symmetric]
        split: prod.splits)
       (simp add: paidBooking_def)
  have fc: "fst (cancelBooking env0 stripeRefundOk 0 ''c'' paidState) = Inr 480000"
    and rf: "refunds (snd (cancelBooking env0 stripeRefundOk 0 ''c'' paidState))
        = [\<lparr>refundBookingId = ''c'', stripeRefundId = ''re_pi_2'', refundAmount = 480000,
            reason = ''requested_by_customer''\<rparr>]"
    by (simp_all add: c)
  have t3: "\<exists>bk'. find (\<lambda>x. bid x = ''c'') (bookings paidState) = Some bk' \<and> status bk' = CONFIRMED
         \<and> (480000::int) \<le> refundable bk' (filter (\<lambda>p. payBookingId p = bid bk') (payments paidState))"
    using refundable_excludes_deposit [where e = env0 and sr = stripeRefundOk and now = 0
        and b = "''c''" and s = paidState and refunded = 480000 and bk = paidBooking
        and pays = paidPayments] fc
    by blast
  show ?thesis
    using s r m fc rf t3 by blast
qed

section \<open>Availability queries\<close>

lemma setAdd_set: "set (setAdd acc x) = insert x (set acc)"
  by (auto simp: setAdd_def)

lemma setAdd_distinct: "distinct acc \<Longrightarrow> distinct (setAdd acc x)"
  by (simp add: setAdd_def)

lemma foldl_setAdd_set:
  "set (foldl (\<lambda>taken d. if P d then setAdd taken (f d) else taken) acc xs)
     = set acc \<union> f ` {d \<in> set xs. P d}"
  by (induction xs arbitrary: acc) (auto simp: setAdd_set)

lemma foldl_setAdd_distinct:
  "distinct acc \<Longrightarrow> distinct (foldl (\<lambda>taken d. if P d then setAdd taken (f d) else taken) acc xs)"
  by (induction xs arbitrary: acc) (simp_all add: setAdd_distinct)

lemma foldl_setAdd_all_set:
  "set (foldl (\<lambda>taken x. setAdd taken (f x)) acc xs) = set acc \<union> f ` set xs"
  by (induction xs arbitrary: acc) (auto simp: setAdd_set)

lemma foldl_setAdd_all_distinct:
  "distinct acc \<Longrightarrow> distinct (foldl (\<lambda>taken x. setAdd taken (f x)) acc xs)"
  by (induction xs arbitrary: acc) (simp_all add: setAdd_distinct)

lemma activeHold_iff:
  "activeHold now d \<longleftrightarrow> dstatus d = DayHELD \<and> (\<exists>t. holdExpiresAt d = Some t \<and> now < t)"
  by (auto simp: activeHold_def split: option.splits)

lemma monthBounds_parse:
  assumes "1970 \<le> year" and "year \<le> 2100" and "1 \<le> month" and "month \<le> 12"
  shows "fromISO (fst (monthBounds (nat year) (nat month))) = Some (fst (monthRange year month))"
    and "fromISO (snd (monthBounds (nat year) (nat month))) = Some (snd (monthRange year month))"
proof -
  have y: "nat year \<le> 9999" "nat year + 1 \<le> 9999" using assms by simp_all
  have m: "1 \<le> nat month" "nat month \<le> 12" using assms by simp_all
  have v1: "validDate (nat year, nat month, 1)"
    using m daysInMonth_bounds [of "nat year" "nat month"] by (simp add: validDate_def)
  show "fromISO (fst (monthBounds (nat year) (nat month))) = Some (fst (monthRange year month))"
    using fromISO_toISODate [OF v1 y(1)] by (simp add: monthBounds_def monthRange_def Let_def)
  show "fromISO (snd (monthBounds (nat year) (nat month))) = Some (snd (monthRange year month))"
  proof (cases "month = 12")
    case True
    have "validDate (nat year + 1, 1, 1)" by (simp add: validDate_def daysInMonth_def)
    then show ?thesis
      using True fromISO_toISODate [OF _ y(2)] by (simp add: monthBounds_def monthRange_def Let_def)
  next
    case False
    then have "nat month + 1 \<le> 12" using assms by simp
    then have "validDate (nat year, nat month + 1, 1)"
      using daysInMonth_bounds [of "nat year" "nat month + 1"] by (simp add: validDate_def)
    moreover have "nat month \<noteq> 12" using False assms by simp
    ultimately show ?thesis
      using False fromISO_toISODate [OF _ y(1)] by (simp add: monthBounds_def monthRange_def Let_def)
  qed
qed

lemma unavailable_split:
  "isoDay ` unavailableDates a b now s
     = (\<lambda>d. isoDay (day d)) ` {d \<in> set (filter (\<lambda>d. a \<le> day d \<and> day d < b) (bookedDays s)).
                                  dstatus d = DayBOOKED \<or> activeHold now d}
       \<union> isoDay ` set (filter (\<lambda>x. a \<le> x \<and> x < b) (blackouts s))"
  by (auto simp: unavailableDates_def activeHold_iff image_iff)

lemma availabilityGET_result:
  assumes "1970 \<le> year" and "year \<le> 2100" and "1 \<le> month" and "month \<le> 12"
  shows "\<exists>xs. availabilityGET year month now s = (Unavailable xs, s) \<and> distinct xs
           \<and> set xs = isoDay ` unavailableDates (fst (monthRange year month))
                                  (snd (monthRange year month)) now s"
proof -
  let ?a = "fst (monthRange year month)"
  let ?b = "snd (monthRange year month)"
  let ?days = "filter (\<lambda>d. ?a \<le> day d \<and> day d < ?b) (bookedDays s)"
  let ?bl = "filter (\<lambda>x. ?a \<le> x \<and> x < ?b) (blackouts s)"
  let ?t1 = "foldl (\<lambda>taken d. if dstatus d = DayBOOKED \<or> activeHold now d
                               then setAdd taken (isoDay (day d)) else taken) [] ?days"
  let ?t2 = "foldl (\<lambda>taken x. setAdd taken (isoDay x)) ?t1 ?bl"
  have g: "availabilityGET year month now s = (Unavailable ?t2, s)"
    using assms monthBounds_parse [OF assms]
    by (simp add: availabilityGET_def Let_def split_beta)
  have d: "distinct ?t2"
    by (intro foldl_setAdd_all_distinct foldl_setAdd_distinct) simp
  have "set ?t2 = isoDay ` unavailableDates ?a ?b now s"
    by (simp only: foldl_setAdd_all_set foldl_setAdd_set unavailable_split) simp
  then show ?thesis using g d by blast
qed

lemma availabilityPOST_result:
  assumes "fromISO startISO = Some a" and "fromISO endISO = Some b"
  shows "(unavailableDates a b now s = {} \<longrightarrow> availabilityPOST startISO endISO now s = (RangeFree, s))
       \<and> (unavailableDates a b now s \<noteq> {} \<longrightarrow>
            (\<exists>cs. availabilityPOST startISO endISO now s = (RangeConflicts cs, s)
                 \<and> set cs = isoDay ` unavailableDates a b now s))"
proof -
  let ?conf = "filter (\<lambda>d. (a \<le> day d \<and> day d < b) \<and> (dstatus d = DayBOOKED \<or> activeHold now d))
                 (bookedDays s)"
  let ?bl = "filter (\<lambda>x. a \<le> x \<and> x < b) (blackouts s)"
  have sh: "isoDateShape startISO" "isoDateShape endISO"
    using assms by (simp_all add: isoDateShape_fromISO)
  have u: "unavailableDates a b now s = set (map day ?conf) \<union> set ?bl"
    by (auto simp: unavailableDates_def activeHold_iff)
  have p: "availabilityPOST startISO endISO now s
         = (if ?conf \<noteq> [] \<or> ?bl \<noteq> [] then (RangeConflicts (map isoDay (map day ?conf @ ?bl)), s)
            else (RangeFree, s))"
    by (simp add: availabilityPOST_def sh assms Let_def)
  have e: "unavailableDates a b now s = {} \<longleftrightarrow> \<not> (?conf \<noteq> [] \<or> ?bl \<noteq> [])"
    unfolding u by (simp only: Un_empty set_empty map_is_Nil_conv) simp
  have i: "set (map isoDay (map day ?conf @ ?bl)) = isoDay ` unavailableDates a b now s"
    unfolding u by (simp only: set_map set_append image_Un)
  show ?thesis
    using p e i by (cases "?conf \<noteq> [] \<or> ?bl \<noteq> []") (simp_all only: if_True if_False, blast+)
qed

text \<open>
  C8. For a valid month the GET query answers with the dates, without repetition, of
  exactly three kinds of rows inside the month: BOOKED days, HELD days whose hold expiry
  is later than the time of the query, and blackouts. The POST query on a range whose
  ends are dates answers that the range is free exactly when that set is empty, and
  otherwise lists exactly its dates. A HELD day whose expiry has passed is in neither
  answer, and both queries return the state they were given.
\<close>

theorem availability_is_union:
  "(1970 \<le> year \<and> year \<le> 2100 \<and> 1 \<le> month \<and> month \<le> 12 \<longrightarrow>
      (\<exists>xs. availabilityGET year month now s = (Unavailable xs, s) \<and> distinct xs
           \<and> set xs = isoDay ` unavailableDates (fst (monthRange year month))
                                  (snd (monthRange year month)) now s))
   \<and> (fromISO startISO = Some a \<and> fromISO endISO = Some b \<longrightarrow>
        (unavailableDates a b now s = {} \<longrightarrow> availabilityPOST startISO endISO now s = (RangeFree, s))
        \<and> (unavailableDates a b now s \<noteq> {} \<longrightarrow>
             (\<exists>cs. availabilityPOST startISO endISO now s = (RangeConflicts cs, s)
                  \<and> set cs = isoDay ` unavailableDates a b now s)))
   \<and> snd (availabilityGET year month now s) = s
   \<and> snd (availabilityPOST startISO endISO now s) = s"
proof -
  have g: "snd (availabilityGET year month now s) = s"
    by (simp add: availabilityGET_def Let_def split: prod.splits option.splits)
  have p: "snd (availabilityPOST startISO endISO now s) = s"
    by (simp add: availabilityPOST_def Let_def split: prod.splits option.splits)
  show ?thesis
    using availabilityGET_result [of year month now s]
      availabilityPOST_result [of startISO a endISO b now s] g p
    by blast
qed

lemma march_isoDay:
  "isoDay (2025, 3, 10) = ''2025-03-10''" "isoDay (2025, 3, 11) = ''2025-03-11''"
  "isoDay (2025, 3, 12) = ''2025-03-12''" "isoDay (2025, 3, 13) = ''2025-03-13''"
  by (simp_all add: isoDay_def march_print overlap_print)

lemma march_month:
  "availabilityGET 2025 3 now s
     = (Unavailable
          (foldl (\<lambda>taken x. setAdd taken (isoDay x))
             (foldl (\<lambda>taken d. if dstatus d = DayBOOKED \<or> activeHold now d
                                 then setAdd taken (isoDay (day d)) else taken) []
                (filter (\<lambda>d. (2025, 3, 1) \<le> day d \<and> day d < (2025, 4, 1)) (bookedDays s)))
             (filter (\<lambda>x. (2025, 3, 1) \<le> x \<and> x < (2025, 4, 1)) (blackouts s))), s)"
proof -
  have r: "monthRange 2025 3 = ((2025, 3, 1), (2025, 4, 1))" by (simp add: monthRange_def)
  have "fromISO (fst (monthBounds (nat 2025) (nat 3))) = Some (fst (monthRange 2025 3))"
    "fromISO (snd (monthBounds (nat 2025) (nat 3))) = Some (snd (monthRange 2025 3))"
    by (rule monthBounds_parse; simp)+
  then show ?thesis
    by (simp add: availabilityGET_def Let_def split_beta r)
qed

theorem availability_is_union_witness:
  "availabilityGET 2025 3 0 heldState
     = (Unavailable [''2025-03-10'', ''2025-03-11'', ''2025-03-12''], heldState)
   \<and> availabilityGET 2025 3 1000000 heldState = (Unavailable [], heldState)
   \<and> availabilityGET 2025 3 0 blackoutState = (Unavailable [''2025-03-13''], blackoutState)
   \<and> fromISO ''2025-03-11'' = Some (2025, 3, 11) \<and> fromISO ''2025-03-14'' = Some (2025, 3, 14)
   \<and> availabilityPOST ''2025-03-11'' ''2025-03-14'' 0 heldState
        = (RangeConflicts [''2025-03-11'', ''2025-03-12''], heldState)
   \<and> availabilityPOST ''2025-03-11'' ''2025-03-14'' 1000000 heldState = (RangeFree, heldState)
   \<and> (\<exists>xs. availabilityGET 2025 3 0 heldState = (Unavailable xs, heldState) \<and> distinct xs
          \<and> set xs = isoDay ` unavailableDates (fst (monthRange 2025 3)) (snd (monthRange 2025 3)) 0 heldState)
   \<and> unavailableDates (2025, 3, 11) (2025, 3, 14) 1000000 heldState = {}"
proof -
  have rows: "bookedDays heldState
      = [\<lparr>bookingId = ''c'', day = (2025, 3, 10), dstatus = DayHELD, holdExpiresAt = Some 900000\<rparr>,
         \<lparr>bookingId = ''c'', day = (2025, 3, 11), dstatus = DayHELD, holdExpiresAt = Some 900000\<rparr>,
         \<lparr>bookingId = ''c'', day = (2025, 3, 12), dstatus = DayHELD, holdExpiresAt = Some 900000\<rparr>]"
    by (simp add: heldState_rows(1) createInput_def)
  have g1: "availabilityGET 2025 3 0 heldState
     = (Unavailable [''2025-03-10'', ''2025-03-11'', ''2025-03-12''], heldState)"
    by (simp add: march_month rows heldState_rows(2) activeHold_def setAdd_def march_isoDay)
  have g2: "availabilityGET 2025 3 1000000 heldState = (Unavailable [], heldState)"
    by (simp add: march_month rows heldState_rows(2) activeHold_def setAdd_def march_isoDay)
  have g3: "availabilityGET 2025 3 0 blackoutState = (Unavailable [''2025-03-13''], blackoutState)"
    by (simp add: march_month blackoutState_def emptyState_def setAdd_def march_isoDay)
  have p: "fromISO ''2025-03-11'' = Some (2025, 3, 11)" "fromISO ''2025-03-14'' = Some (2025, 3, 14)"
    using overlap_parse by (simp_all add: overlapRequest_def)
  have sh: "isoDateShape ''2025-03-11''" "isoDateShape ''2025-03-14''"
    using p by (simp_all only: isoDateShape_fromISO)
  have p1: "availabilityPOST ''2025-03-11'' ''2025-03-14'' 0 heldState
        = (RangeConflicts [''2025-03-11'', ''2025-03-12''], heldState)"
    by (simp add: availabilityPOST_def sh p Let_def rows heldState_rows(2) activeHold_def march_isoDay)
  have p2: "availabilityPOST ''2025-03-11'' ''2025-03-14'' 1000000 heldState = (RangeFree, heldState)"
    by (simp add: availabilityPOST_def sh p Let_def rows heldState_rows(2) activeHold_def)
  note t = availability_is_union [where year = 2025 and month = 3 and now = 0 and s = heldState]
  have t1: "\<exists>xs. availabilityGET 2025 3 0 heldState = (Unavailable xs, heldState) \<and> distinct xs
          \<and> set xs = isoDay ` unavailableDates (fst (monthRange 2025 3)) (snd (monthRange 2025 3)) 0 heldState"
    using t by simp
  note u = availability_is_union [where startISO = "''2025-03-11''" and endISO = "''2025-03-14''"
      and a = "(2025, 3, 11)" and b = "(2025, 3, 14)" and now = 1000000 and s = heldState]
  have e: "unavailableDates (2025, 3, 11) (2025, 3, 14) 1000000 heldState = {}"
  proof (rule ccontr)
    assume "unavailableDates (2025, 3, 11) (2025, 3, 14) 1000000 heldState \<noteq> {}"
    then have "\<exists>cs. availabilityPOST ''2025-03-11'' ''2025-03-14'' 1000000 heldState
                      = (RangeConflicts cs, heldState)"
      using u p by blast
    then show False using p2 by simp
  qed
  show ?thesis using g1 g2 g3 p p1 p2 t1 e by blast
qed

end
